(* ===== verification/Prelude.thy ===== *)
theory Prelude
  imports Main
begin

text \<open>
  The shared vocabulary of the development: Go's error values, the shape of a fallible
  operation on a state, the control flow the sources are written in, and the rules that
  prove invariants and postconditions of operations built from it.

  \<^item> \<open>goerr\<close> is Go's \<open>error\<close>: a system error, possibly inside an \<open>os.PathError\<close>, a message
    made by \<open>errors.New\<close> or \<open>Errorf\<close>, or one wrapped by \<open>github.com/pkg/errors\<close>.
    A run-time panic is a value of the same type that no handler catches.
  \<^item> \<open>('w, 'a) io\<close> is a function that may fail and may change the state \<open>'w\<close>.
    \<open>checked m h k\<close> is \<open>if x, err := m(); err != nil { h(err) } else { k(x) }\<close>,
    \<open>deferred m d\<close> runs \<open>d\<close> when \<open>m\<close> returns, as \<open>defer\<close> does.
  \<^item> \<open>hoare P m Q E\<close> is the triple with a normal and an exceptional postcondition, and
    \<open>keeps I m\<close> says that \<open>m\<close> preserves \<open>I\<close> however it returns. The collection
    \<open>keeps_intro\<close> holds the rules that decompose an operation along its control flow.
\<close>

section \<open>Errors\<close>

datatype errno =
    ENOENT | EEXIST | ENOTDIR | EISDIR | ENOTEMPTY | EINVAL | EBUSY
  | EACCES | EPERM | EIO | ENOSPC | ELOOP | ENOSYS | EWOULDBLOCK | ENXIO

text \<open>One error of a Docker registry: an \<open>errcode.Error\<close>, or a bare \<open>errcode.ErrorCode\<close>; code and text.\<close>

datatype docker_error = DockerError string string | DockerErrorCode string string

datatype goerr =
    PathErr string string errno \<comment> \<open>\<open>*os.PathError\<close>: operation, path, system error\<close>
  | SysErr errno               \<comment> \<open>a bare \<open>syscall.Errno\<close>\<close>
  | Msg string                 \<comment> \<open>\<open>errors.New\<close>, \<open>Errorf\<close>\<close>
  | Wrapped string goerr       \<comment> \<open>\<open>errors.Wrap\<close> of pkg/errors: message and cause\<close>
  | CleaningTimeout            \<comment> \<open>\<open>groot.CleaningTimeoutError\<close>\<close>
  | UrlErr string bool         \<comment> \<open>\<open>*url.Error\<close>: text, and whether an unknown authority caused it\<close>
  | DockerErrors "docker_error list" \<comment> \<open>\<open>errcode.Errors\<close>\<close>
  | Panic string               \<comment> \<open>a run-time panic\<close>

fun is_panic :: "goerr \<Rightarrow> bool" where
  "is_panic (Panic _) = True"
| "is_panic _ = False"

text \<open>\<open>errors.Cause\<close> of pkg/errors unwraps; \<open>os.IsNotExist\<close> and its kin do not.\<close>

fun cause :: "goerr \<Rightarrow> goerr" where
  "cause (Wrapped _ e) = cause e"
| "cause e = e"

fun errno_of :: "goerr \<Rightarrow> errno option" where
  "errno_of (PathErr _ _ e) = Some e"
| "errno_of (SysErr e) = Some e"
| "errno_of _ = None"

definition is_not_exist :: "goerr \<Rightarrow> bool" where
  "is_not_exist e = (errno_of e = Some ENOENT)"

definition is_exist :: "goerr \<Rightarrow> bool" where
  "is_exist e = (errno_of e \<in> {Some EEXIST, Some ENOTEMPTY})"

definition is_permission :: "goerr \<Rightarrow> bool" where
  "is_permission e = (errno_of e \<in> {Some EACCES, Some EPERM})"

fun errno_text :: "errno \<Rightarrow> string" where
  "errno_text ENOENT = ''no such file or directory''"
| "errno_text EEXIST = ''file exists''"
| "errno_text ENOTDIR = ''not a directory''"
| "errno_text EISDIR = ''is a directory''"
| "errno_text ENOTEMPTY = ''directory not empty''"
| "errno_text EINVAL = ''invalid argument''"
| "errno_text EBUSY = ''device or resource busy''"
| "errno_text EACCES = ''permission denied''"
| "errno_text EPERM = ''operation not permitted''"
| "errno_text EIO = ''input/output error''"
| "errno_text ENOSPC = ''no space left on device''"
| "errno_text ELOOP = ''too many levels of symbolic links''"
| "errno_text ENOSYS = ''function not implemented''"
| "errno_text EWOULDBLOCK = ''resource temporarily unavailable''"
| "errno_text ENXIO = ''no such device or address''"

text \<open>The method \<open>Error()\<close>.\<close>

fun docker_error_text :: "docker_error \<Rightarrow> string" where
  "docker_error_text (DockerError _ t) = t"
| "docker_error_text (DockerErrorCode _ t) = t"

fun docker_errors_text :: "docker_error list \<Rightarrow> string" where
  "docker_errors_text [] = ''<nil>''"
| "docker_errors_text [e] = docker_error_text e"
| "docker_errors_text es = ''errors:'' @ [CHR 0x0A] @ concat (map (\<lambda>e. docker_error_text e @ [CHR 0x0A]) es)"

fun error_text :: "goerr \<Rightarrow> string" where
  "error_text (PathErr op p e) = op @ '' '' @ p @ '': '' @ errno_text e"
| "error_text (SysErr e) = errno_text e"
| "error_text (Msg m) = m"
| "error_text (Wrapped m e) = m @ '': '' @ error_text e"
| "error_text CleaningTimeout = ''timed out cleaning after '' @ [CHR 0x27] @ ''600s'' @ [CHR 0x27]"
| "error_text (UrlErr t _) = t"
| "error_text (DockerErrors es) = docker_errors_text es"
| "error_text (Panic m) = ''panic: '' @ m"

section \<open>Fallible operations on a state\<close>

type_synonym ('w, 'a) io = "'w \<Rightarrow> (goerr + 'a) \<times> 'w"

definition ret :: "'a \<Rightarrow> ('w, 'a) io" where
  "ret x = (\<lambda>w. (Inr x, w))"

definition throw :: "goerr \<Rightarrow> ('w, 'a) io" where
  "throw e = (\<lambda>w. (Inl e, w))"

definition wrapping :: "string \<Rightarrow> goerr \<Rightarrow> ('w, 'a) io" where
  "wrapping m e = throw (Wrapped m e)"

definition checked :: "('w, 'a) io \<Rightarrow> (goerr \<Rightarrow> ('w, 'b) io) \<Rightarrow> ('a \<Rightarrow> ('w, 'b) io) \<Rightarrow> ('w, 'b) io" where
  "checked m h k = (\<lambda>w. case m w of
      (Inl e, w') \<Rightarrow> if is_panic e then (Inl e, w') else h e w'
    | (Inr x, w') \<Rightarrow> k x w')"

text \<open>A deferred function sees the result the body returns and may replace it.\<close>

definition deferred :: "('w, 'a) io \<Rightarrow> (goerr + 'a \<Rightarrow> ('w, 'a) io) \<Rightarrow> ('w, 'a) io" where
  "deferred m d = (\<lambda>w. case m w of (r, w') \<Rightarrow> d r w')"

definition give_back :: "goerr + 'a \<Rightarrow> ('w, 'a) io" where
  "give_back r = (\<lambda>w. (r, w))"

text \<open>An error that is only logged: the operation's result is dropped.\<close>

definition logged :: "('w, 'a) io \<Rightarrow> ('w, 'b) io \<Rightarrow> ('w, 'b) io" where
  "logged m k = checked m (\<lambda>_. k) (\<lambda>_. k)"

text \<open>The test \<open>if err != nil\<close> made into a value: \<open>x, err := m()\<close>.\<close>

definition observed :: "('w, 'a) io \<Rightarrow> (goerr + 'a \<Rightarrow> ('w, 'b) io) \<Rightarrow> ('w, 'b) io" where
  "observed m k = checked m (\<lambda>e. k (Inl e)) (\<lambda>x. k (Inr x))"

text \<open>Loops over a slice that return at the first error.\<close>

fun for_each :: "'a list \<Rightarrow> ('a \<Rightarrow> ('w, unit) io) \<Rightarrow> ('w, unit) io" where
  "for_each [] f = ret ()"
| "for_each (x # xs) f = checked (f x) throw (\<lambda>_. for_each xs f)"

fun fold_io :: "('a \<Rightarrow> 'b \<Rightarrow> ('w, 'b) io) \<Rightarrow> 'a list \<Rightarrow> 'b \<Rightarrow> ('w, 'b) io" where
  "fold_io f [] b = ret b"
| "fold_io f (x # xs) b = checked (f x b) throw (fold_io f xs)"

lemma ret_apply [simp]: "ret x w = (Inr x, w)"
  by (simp add: ret_def)

lemma throw_apply [simp]: "throw e w = (Inl e, w)"
  by (simp add: throw_def)

lemma wrapping_apply [simp]: "wrapping m e w = (Inl (Wrapped m e), w)"
  by (simp add: wrapping_def)

lemma give_back_apply [simp]: "give_back r w = (r, w)"
  by (simp add: give_back_def)

lemma checked_Inr [simp]: "m w = (Inr x, w') \<Longrightarrow> checked m h k w = k x w'"
  by (simp add: checked_def)

lemma checked_Inl [simp]: "m w = (Inl e, w') \<Longrightarrow> \<not> is_panic e \<Longrightarrow> checked m h k w = h e w'"
  by (simp add: checked_def)

lemma checked_panic [simp]: "m w = (Inl e, w') \<Longrightarrow> is_panic e \<Longrightarrow> checked m h k w = (Inl e, w')"
  by (simp add: checked_def)

lemma logged_Inr [simp]: "m w = (Inr x, w') \<Longrightarrow> logged m k w = k w'"
  by (simp add: logged_def)

lemma logged_Inl [simp]: "m w = (Inl e, w') \<Longrightarrow> \<not> is_panic e \<Longrightarrow> logged m k w = k w'"
  by (simp add: logged_def)

lemma observed_Inr [simp]: "m w = (Inr x, w') \<Longrightarrow> observed m k w = k (Inr x) w'"
  by (simp add: observed_def)

lemma observed_Inl [simp]:
  "m w = (Inl e, w') \<Longrightarrow> \<not> is_panic e \<Longrightarrow> observed m k w = k (Inl e) w'"
  by (simp add: observed_def)

lemma deferred_apply [simp]: "m w = (r, w') \<Longrightarrow> deferred m d w = d r w'"
  by (simp add: deferred_def)

text \<open>Inversion: how a checked operation can have returned normally.\<close>

lemma checked_InrE:
  assumes "checked m h k w = (Inr y, w2)"
  obtains (ok) x w1 where "m w = (Inr x, w1)" and "k x w1 = (Inr y, w2)"
    | (handled) e w1 where "m w = (Inl e, w1)" and "\<not> is_panic e" and "h e w1 = (Inr y, w2)"
  using assms by (auto simp: checked_def split: prod.splits sum.splits if_splits)

lemma checked_throw_InrE:
  assumes "checked m throw k w = (Inr y, w2)"
  obtains x w1 where "m w = (Inr x, w1)" and "k x w1 = (Inr y, w2)"
  using assms by (auto elim: checked_InrE)

lemma checked_wrap_InrE:
  assumes "checked m (wrapping s) k w = (Inr y, w2)"
  obtains x w1 where "m w = (Inr x, w1)" and "k x w1 = (Inr y, w2)"
  using assms by (auto elim: checked_InrE)

section \<open>Triples\<close>

definition hoare :: "('w \<Rightarrow> bool) \<Rightarrow> ('w, 'a) io \<Rightarrow> ('a \<Rightarrow> 'w \<Rightarrow> bool) \<Rightarrow> (goerr \<Rightarrow> 'w \<Rightarrow> bool) \<Rightarrow> bool" where
  "hoare P m Q E = (\<forall>w. P w \<longrightarrow> (case m w of (Inr x, w') \<Rightarrow> Q x w' | (Inl e, w') \<Rightarrow> E e w'))"

definition keeps :: "('w \<Rightarrow> bool) \<Rightarrow> ('w, 'a) io \<Rightarrow> bool" where
  "keeps I m = hoare I m (\<lambda>_. I) (\<lambda>_. I)"

named_theorems keeps_intro "rules that decompose an operation when proving that it keeps an invariant"

lemma hoareI:
  assumes "\<And>w x w'. P w \<Longrightarrow> m w = (Inr x, w') \<Longrightarrow> Q x w'"
    and "\<And>w e w'. P w \<Longrightarrow> m w = (Inl e, w') \<Longrightarrow> E e w'"
  shows "hoare P m Q E"
  using assms by (auto simp: hoare_def split: prod.splits sum.splits)

lemma hoare_Inr: "hoare P m Q E \<Longrightarrow> P w \<Longrightarrow> m w = (Inr x, w') \<Longrightarrow> Q x w'"
  by (auto simp: hoare_def split: prod.splits sum.splits)

lemma hoare_Inl: "hoare P m Q E \<Longrightarrow> P w \<Longrightarrow> m w = (Inl e, w') \<Longrightarrow> E e w'"
  by (auto simp: hoare_def split: prod.splits sum.splits)

lemma hoare_weaken:
  assumes "hoare P m Q E" and "\<And>w. P' w \<Longrightarrow> P w"
    and "\<And>x w. Q x w \<Longrightarrow> Q' x w" and "\<And>e w. E e w \<Longrightarrow> E' e w"
  shows "hoare P' m Q' E'"
  using assms unfolding hoare_def by (fastforce split: prod.splits sum.splits)

lemma hoare_ret [simp]: "hoare P (ret x) Q E \<longleftrightarrow> (\<forall>w. P w \<longrightarrow> Q x w)"
  by (simp add: hoare_def)

lemma hoare_throw [simp]: "hoare P (throw e) Q E \<longleftrightarrow> (\<forall>w. P w \<longrightarrow> E e w)"
  by (simp add: hoare_def)

lemma hoare_wrapping [simp]: "hoare P (wrapping s e) Q E \<longleftrightarrow> (\<forall>w. P w \<longrightarrow> E (Wrapped s e) w)"
  by (simp add: wrapping_def)

lemma hoare_checked:
  assumes m: "hoare P m R F" and k: "\<And>x. hoare (R x) (k x) Q E"
    and h: "\<And>e. \<not> is_panic e \<Longrightarrow> hoare (F e) (h e) Q E"
    and p: "\<And>e w. is_panic e \<Longrightarrow> F e w \<Longrightarrow> E e w"
  shows "hoare P (checked m h k) Q E"
  unfolding hoare_def
proof (intro allI impI)
  fix w
  assume "P w"
  show "case checked m h k w of (Inr x, w') \<Rightarrow> Q x w' | (Inl e, w') \<Rightarrow> E e w'"
  proof (cases "m w")
    case (Pair r w')
    show ?thesis
    proof (cases r)
      case (Inl e)
      with m Pair \<open>P w\<close> have "F e w'" by (auto dest: hoare_Inl)
      with h [of e] p [of e] Pair Inl show ?thesis
        by (cases "is_panic e") (auto simp: hoare_def)
    next
      case (Inr x)
      with m Pair \<open>P w\<close> have "R x w'" by (auto dest: hoare_Inr)
      with k [of x] Pair Inr show ?thesis by (simp add: hoare_def)
    qed
  qed
qed

lemma hoare_deferred:
  assumes m: "hoare P m (\<lambda>x. R (Inr x)) (\<lambda>e. R (Inl e))" and d: "\<And>r. hoare (R r) (d r) Q E"
  shows "hoare P (deferred m d) Q E"
  unfolding hoare_def
proof (intro allI impI)
  fix w
  assume "P w"
  obtain r w' where r: "m w = (r, w')" by (cases "m w")
  with m \<open>P w\<close> have "R r w'" by (cases r) (auto dest: hoare_Inl hoare_Inr)
  with d [of r] r show "case deferred m d w of (Inr x, w') \<Rightarrow> Q x w' | (Inl e, w') \<Rightarrow> E e w'"
    by (simp add: hoare_def)
qed

lemma keepsI:
  "(\<And>w r w'. I w \<Longrightarrow> m w = (r, w') \<Longrightarrow> I w') \<Longrightarrow> keeps I m"
  by (auto simp: keeps_def hoare_def split: prod.splits sum.splits)

lemma keepsD: "keeps I m \<Longrightarrow> I w \<Longrightarrow> m w = (r, w') \<Longrightarrow> I w'"
  by (cases r) (auto simp: keeps_def hoare_def)

lemma keeps_snd: "keeps I m \<Longrightarrow> I w \<Longrightarrow> I (snd (m w))"
  by (cases "m w") (auto dest: keepsD)

lemma keeps_ret [keeps_intro]: "keeps I (ret x)"
  by (simp add: keeps_def)

lemma keeps_throw [keeps_intro]: "keeps I (throw e)"
  by (simp add: keeps_def)

lemma keeps_wrapping [keeps_intro]: "keeps I (wrapping s e)"
  by (simp add: keeps_def)

lemma keeps_give_back [keeps_intro]: "keeps I (give_back r)"
  by (rule keepsI) simp

lemma keeps_checked [keeps_intro]:
  assumes "keeps I m" and "\<And>e. keeps I (h e)" and "\<And>x. keeps I (k x)"
  shows "keeps I (checked m h k)"
  using assms unfolding keeps_def by (blast intro: hoare_checked)

lemma keeps_logged [keeps_intro]: "keeps I m \<Longrightarrow> keeps I k \<Longrightarrow> keeps I (logged m k)"
  by (simp add: logged_def keeps_checked)

lemma keeps_observed [keeps_intro]:
  "keeps I m \<Longrightarrow> (\<And>r. keeps I (k r)) \<Longrightarrow> keeps I (observed m k)"
  by (simp add: observed_def keeps_checked)

lemma keeps_deferred [keeps_intro]:
  assumes "keeps I m" and "\<And>r. keeps I (d r)"
  shows "keeps I (deferred m d)"
  using assms unfolding keeps_def by (rule hoare_deferred [where R = "\<lambda>_. I"])

lemma keeps_if [keeps_intro]: "keeps I a \<Longrightarrow> keeps I b \<Longrightarrow> keeps I (if c then a else b)"
  by simp

lemma keeps_case_sum [keeps_intro]:
  "(\<And>e. keeps I (f e)) \<Longrightarrow> (\<And>x. keeps I (g x)) \<Longrightarrow> keeps I (case r of Inl e \<Rightarrow> f e | Inr x \<Rightarrow> g x)"
  by (cases r) simp_all

lemma keeps_case_option [keeps_intro]:
  "keeps I a \<Longrightarrow> (\<And>x. keeps I (f x)) \<Longrightarrow> keeps I (case r of None \<Rightarrow> a | Some x \<Rightarrow> f x)"
  by (cases r) simp_all

lemma keeps_case_prod [keeps_intro]:
  "(\<And>x y. keeps I (f x y)) \<Longrightarrow> keeps I (case r of (x, y) \<Rightarrow> f x y)"
  by (cases r) simp

lemma keeps_Let [keeps_intro]: "(\<And>x. keeps I (f x)) \<Longrightarrow> keeps I (let x = t in f x)"
  by (simp add: Let_def)

lemma keeps_for_each [keeps_intro]:
  "(\<And>x. x \<in> set xs \<Longrightarrow> keeps I (f x)) \<Longrightarrow> keeps I (for_each xs f)"
  by (induction xs) (auto intro: keeps_intro)

lemma keeps_fold_io [keeps_intro]:
  "(\<And>x b. x \<in> set xs \<Longrightarrow> keeps I (f x b)) \<Longrightarrow> keeps I (fold_io f xs b)"
  by (induction xs arbitrary: b) (auto intro: keeps_intro)

text \<open>An operation whose result has a property the rest of the proof needs.\<close>

lemma keeps_checked_value:
  assumes m: "hoare I m (\<lambda>x w. I w \<and> Q x) (\<lambda>_. I)" and h: "\<And>e. keeps I (h e)"
    and k: "\<And>x. Q x \<Longrightarrow> keeps I (k x)"
  shows "keeps I (checked m h k)"
  unfolding keeps_def
proof (rule hoare_checked [OF m])
  show "hoare (\<lambda>w. I w \<and> Q x) (k x) (\<lambda>_. I) (\<lambda>_. I)" for x
    using k [of x] by (cases "Q x") (auto simp: keeps_def hoare_def)
  show "hoare I (h e) (\<lambda>_. I) (\<lambda>_. I)" for e
    using h by (simp add: keeps_def)
qed

lemma keeps_conj: "keeps I m \<Longrightarrow> keeps J m \<Longrightarrow> keeps (\<lambda>w. I w \<and> J w) m"
  unfolding keeps_def hoare_def by (auto split: prod.splits sum.splits)

end
