(* ===== verification/Go_Text.thy ===== *)
theory Go_Text
  imports Prelude "HOL-Library.Char_ord" "HOL-Library.List_Lexorder" "HOL-Library.Sublist"
begin

text \<open>
  What the sources use of Go's standard packages \<open>strings\<close>, \<open>strconv\<close>, \<open>fmt\<close>, \<open>sort\<close> and
  \<open>path/filepath\<close>, on strings as byte lists, and Go's 64-bit signed arithmetic written out
  on \<open>int\<close>. The lemmas at the end of the \<open>filepath\<close> section are the ones the store
  components rest on: on paths made of plain names, \<open>Join\<close>, \<open>Dir\<close> and \<open>Base\<close> are
  append, \<open>butlast\<close> and \<open>last\<close> of the component list.
\<close>

section \<open>strings\<close>

fun split_on :: "char \<Rightarrow> string \<Rightarrow> string list" where
  "split_on c [] = [[]]"
| "split_on c (x # xs) =
     (if x = c then [] # split_on c xs
      else (case split_on c xs of [] \<Rightarrow> [[x]] | y # ys \<Rightarrow> (x # y) # ys))"

fun join_with :: "string \<Rightarrow> string list \<Rightarrow> string" where
  "join_with sep [] = []"
| "join_with sep [x] = x"
| "join_with sep (x # y # ys) = x @ sep @ join_with sep (y # ys)"

fun contains :: "string \<Rightarrow> string \<Rightarrow> bool" where
  "contains s sub = (prefix sub s \<or> (case s of [] \<Rightarrow> False | _ # t \<Rightarrow> contains t sub))"

declare contains.simps [simp del]

lemma contains_Nil [simp]: "contains [] sub \<longleftrightarrow> sub = []"
  by (subst contains.simps) auto

lemma contains_Cons [simp]: "contains (c # t) sub \<longleftrightarrow> prefix sub (c # t) \<or> contains t sub"
  by (subst contains.simps) auto

text \<open>\<open>strings.Replace(s, old, new, 1)\<close>.\<close>

fun replace_first :: "string \<Rightarrow> string \<Rightarrow> string \<Rightarrow> string" where
  "replace_first s old new =
     (if prefix old s then new @ drop (length old) s
      else (case s of [] \<Rightarrow> [] | c # t \<Rightarrow> c # replace_first t old new))"

declare replace_first.simps [simp del]

lemma replace_first_Nil [simp]: "replace_first [] old new = (if old = [] then new else [])"
  by (subst replace_first.simps) auto

lemma replace_first_Cons [simp]:
  "replace_first (c # t) old new =
     (if prefix old (c # t) then new @ drop (length old) (c # t) else c # replace_first t old new)"
  by (subst replace_first.simps) auto

text \<open>\<open>strings.Replace(s, "c", new, -1)\<close> for a one-byte pattern.\<close>

definition replace_char :: "string \<Rightarrow> char \<Rightarrow> string \<Rightarrow> string" where
  "replace_char s c new = concat (map (\<lambda>x. if x = c then new else [x]) s)"

definition trim_prefix :: "string \<Rightarrow> string \<Rightarrow> string" where
  "trim_prefix s p = (if prefix p s then drop (length p) s else s)"

text \<open>\<open>strings.Trim(s, "c")\<close> for a one-byte cutset.\<close>

definition trim_char :: "string \<Rightarrow> char \<Rightarrow> string" where
  "trim_char s c = rev (dropWhile (\<lambda>x. x = c) (rev (dropWhile (\<lambda>x. x = c) s)))"

lemma split_on_not_Nil [simp]: "split_on c xs \<noteq> []"
  by (induction xs) (auto split: list.splits)

lemma split_on_id: "c \<notin> set xs \<Longrightarrow> split_on c xs = [xs]"
  by (induction xs) auto

lemma split_on_append: "split_on c (xs @ c # ys) = split_on c xs @ split_on c ys"
  by (induction xs) (auto split: list.splits)

lemma split_on_no_sep: "y \<in> set (split_on c xs) \<Longrightarrow> c \<notin> set y"
  by (induction xs arbitrary: y) (auto split: list.splits if_splits)

lemma split_on_join:
  "es \<noteq> [] \<Longrightarrow> split_on c (join_with [c] es) = concat (map (split_on c) es)"
  by (induction "[c]" es rule: join_with.induct) (auto simp: split_on_append)

lemma join_with_split_on: "join_with [c] (split_on c xs) = xs"
proof (induction xs)
  case (Cons x xs)
  then show ?case
    by (cases "split_on c xs"; cases "tl (split_on c xs)") auto
qed simp

lemma replace_first_absent: "\<not> contains s old \<Longrightarrow> replace_first s old new = s"
  by (induction s) (auto split: if_splits)

lemma replace_char_absent: "c \<notin> set s \<Longrightarrow> replace_char s c new = s"
  by (induction s) (auto simp: replace_char_def)

lemma replace_char_no_sep: "c \<notin> set new \<Longrightarrow> c \<notin> set (replace_char s c new)"
  by (auto simp: replace_char_def split: if_splits)

lemma contains_substring [simp]: "contains (a @ sub @ b) sub"
proof (induction a)
  case Nil
  show ?case by (subst contains.simps) (auto simp: prefix_def)
qed simp

section \<open>strconv and fmt\<close>

definition digit_char :: "nat \<Rightarrow> char" where
  "digit_char d = char_of (48 + d)"

definition digit_val :: "char \<Rightarrow> nat option" where
  "digit_val c = (let n = of_char c in if 48 \<le> n \<and> n \<le> 57 then Some (n - 48) else None)"

fun nat_digits :: "nat \<Rightarrow> string" where
  "nat_digits n = (if n < 10 then [digit_char n] else nat_digits (n div 10) @ [digit_char (n mod 10)])"

declare nat_digits.simps [simp del]

fun digits_val :: "nat \<Rightarrow> string \<Rightarrow> nat option" where
  "digits_val acc [] = Some acc"
| "digits_val acc (c # cs) =
     (case digit_val c of None \<Rightarrow> None | Some d \<Rightarrow> digits_val (10 * acc + d) cs)"

definition parse_nat :: "string \<Rightarrow> nat option" where
  "parse_nat s = (if s = [] then None else digits_val 0 s)"

text \<open>\<open>strconv.Itoa\<close>, \<open>strconv.FormatInt(_, 10)\<close> and the verb \<open>%d\<close>.\<close>

definition itoa :: "int \<Rightarrow> string" where
  "itoa i = (if i < 0 then CHR ''-'' # nat_digits (nat (- i)) else nat_digits (nat i))"

definition in_i64 :: "int \<Rightarrow> bool" where
  "in_i64 x \<longleftrightarrow> - (2 ^ 63) \<le> x \<and> x < 2 ^ 63"

text \<open>Two's complement wrap-around of a 64-bit signed operation.\<close>

definition i64 :: "int \<Rightarrow> int" where
  "i64 x = (x + 2 ^ 63) mod 2 ^ 64 - 2 ^ 63"

text \<open>\<open>strconv.ParseInt(s, 10, 64)\<close>; \<open>None\<close> is a syntax or range error.\<close>

definition parse_int :: "string \<Rightarrow> int option" where
  "parse_int s =
     (case (case s of
         [] \<Rightarrow> None
       | c # cs \<Rightarrow>
           (if c = CHR ''-'' then map_option (\<lambda>n. - int n) (parse_nat cs)
            else if c = CHR ''+'' then map_option int (parse_nat cs)
            else map_option int (parse_nat s))) of
       None \<Rightarrow> None
     | Some i \<Rightarrow> if in_i64 i then Some i else None)"

text \<open>
  \<open>fmt.Sscanf\<close> with the verb \<open>%d\<close>: leading blanks are skipped, a sign is accepted, the
  longest run of digits is taken and what follows is left for the rest of the format.
\<close>

definition is_blank :: "char \<Rightarrow> bool" where
  "is_blank c \<longleftrightarrow> of_char c \<in> {9, 11, 12, 13, 32 :: nat}"

definition scan_sign :: "string \<Rightarrow> string \<times> string" where
  "scan_sign s = (case s of
      c # cs \<Rightarrow> if c = CHR ''-'' \<or> c = CHR ''+'' then ([c], cs) else ([], s)
    | [] \<Rightarrow> ([], []))"

definition scan_int :: "string \<Rightarrow> (int \<times> string) option" where
  "scan_int s =
     (case scan_sign (dropWhile is_blank s) of (sign, t) \<Rightarrow>
       (case parse_int (sign @ takeWhile (\<lambda>c. digit_val c \<noteq> None) t) of
          None \<Rightarrow> None
        | Some i \<Rightarrow> Some (i, dropWhile (\<lambda>c. digit_val c \<noteq> None) t)))"

definition scan_lit :: "char \<Rightarrow> string \<Rightarrow> string option" where
  "scan_lit c s = (case s of [] \<Rightarrow> None | x # xs \<Rightarrow> if x = c then Some xs else None)"

lemma digit_char_val: "d < 10 \<Longrightarrow> digit_val (digit_char d) = Some d"
  by (simp add: digit_val_def digit_char_def Let_def)

lemma digit_char_ascii:
  "d < 10 \<Longrightarrow> of_char (digit_char d) = 48 + d"
  by (simp add: digit_char_def)

lemma digits_val_append:
  "digits_val acc (xs @ ys) =
     (case digits_val acc xs of None \<Rightarrow> None | Some a \<Rightarrow> digits_val a ys)"
  by (induction xs arbitrary: acc) (auto split: option.splits)

lemma nat_digits_not_Nil [simp]: "nat_digits n \<noteq> []"
  by (subst nat_digits.simps) simp

lemma digits_val_nat_digits: "digits_val 0 (nat_digits n) = Some n"
proof (induction n rule: nat_digits.induct)
  case (1 n)
  show ?case
  proof (cases "n < 10")
    case True
    then show ?thesis by (subst nat_digits.simps) (simp add: digit_char_val)
  next
    case False
    with 1 show ?thesis
      by (subst nat_digits.simps) (simp add: digits_val_append digit_char_val)
  qed
qed

lemma parse_nat_digits [simp]: "parse_nat (nat_digits n) = Some n"
  by (simp add: parse_nat_def digits_val_nat_digits)

lemma nat_digits_digits: "c \<in> set (nat_digits n) \<Longrightarrow> digit_val c \<noteq> None"
proof (induction n rule: nat_digits.induct)
  case (1 n)
  show ?case
  proof (cases "n < 10")
    case True
    with 1 show ?thesis by (subst (asm) nat_digits.simps) (simp add: digit_char_val)
  next
    case False
    with 1 show ?thesis by (subst (asm) (2) nat_digits.simps) (auto simp: digit_char_val)
  qed
qed

lemma digit_val_range: "digit_val c \<noteq> None \<Longrightarrow> 48 \<le> (of_char c :: nat) \<and> (of_char c :: nat) \<le> 57"
  by (auto simp: digit_val_def Let_def split: if_splits)

lemma not_digit [simp]:
  "digit_val CHR ''-'' = None" "digit_val CHR ''+'' = None" "digit_val CHR '':'' = None"
  "digit_val CHR ''/'' = None"
  by (simp_all add: digit_val_def Let_def)

lemma nat_digits_Cons: "nat_digits n = c # cs \<Longrightarrow> c \<noteq> CHR ''-'' \<and> c \<noteq> CHR ''+'' \<and> \<not> is_blank c"
proof -
  assume "nat_digits n = c # cs"
  then have "digit_val c \<noteq> None" using nat_digits_digits [of c n] by simp
  then show ?thesis using digit_val_range [of c] by (auto simp: is_blank_def)
qed

lemma parse_int_itoa [simp]:
  assumes "in_i64 i"
  shows "parse_int (itoa i) = Some i"
proof (cases "i < 0")
  case True
  with assms show ?thesis by (simp add: parse_int_def itoa_def)
next
  case False
  obtain c cs where c: "nat_digits (nat i) = c # cs" by (cases "nat_digits (nat i)") auto
  then have "parse_nat (c # cs) = Some (nat i)" by (metis parse_nat_digits)
  with nat_digits_Cons [OF c] False assms show ?thesis by (simp add: parse_int_def itoa_def c)
qed

lemma parse_int_in_i64: "parse_int s = Some i \<Longrightarrow> in_i64 i"
  by (auto simp: parse_int_def split: option.splits list.splits if_splits)

lemma i64_id: "in_i64 x \<Longrightarrow> i64 x = x"
  by (simp add: i64_def in_i64_def)

lemma in_i64_i64 [simp]: "in_i64 (i64 x)"
proof -
  have "0 \<le> (x + 2 ^ 63) mod 2 ^ 64" and "(x + 2 ^ 63) mod 2 ^ 64 < 2 * 2 ^ 63" by simp_all
  then show ?thesis unfolding i64_def in_i64_def by linarith
qed

lemma itoa_scan:
  assumes "in_i64 i" and "t = [] \<or> digit_val (hd t) = None"
  shows "scan_int (itoa i @ t) = Some (i, t)"
proof -
  let ?D = "\<lambda>c. digit_val c \<noteq> None"
  have tk: "takeWhile ?D (nat_digits n @ t) = nat_digits n \<and> dropWhile ?D (nat_digits n @ t) = t" for n
    using assms(2) nat_digits_digits [of _ n]
    by (cases t) (auto simp: takeWhile_append dropWhile_append)
  show ?thesis
  proof (cases "i < 0")
    case True
    have "scan_sign (dropWhile is_blank (itoa i @ t)) = (''-'', nat_digits (nat (- i)) @ t)"
      using True by (simp add: itoa_def is_blank_def scan_sign_def)
    moreover have "parse_int (''-'' @ nat_digits (nat (- i))) = Some i"
      using parse_int_itoa [OF assms(1)] True by (simp add: itoa_def)
    ultimately show ?thesis by (simp add: scan_int_def tk del: not_None_eq)
  next
    case False
    obtain c cs where c: "nat_digits (nat i) = c # cs" by (cases "nat_digits (nat i)") auto
    with nat_digits_Cons [OF c] have "scan_sign (dropWhile is_blank (itoa i @ t)) = ([], nat_digits (nat i) @ t)"
      using False by (simp add: itoa_def scan_sign_def)
    moreover have "parse_int (nat_digits (nat i)) = Some i"
      using parse_int_itoa [OF assms(1)] False by (simp add: itoa_def)
    ultimately show ?thesis by (simp add: scan_int_def tk del: not_None_eq)
  qed
qed

lemma itoa_inj: "in_i64 a \<Longrightarrow> in_i64 b \<Longrightarrow> itoa a = itoa b \<Longrightarrow> a = b"
  by (metis option.inject parse_int_itoa)

section \<open>path/filepath\<close>

text \<open>One component of a lexical path, pushed on the reversed stack of components before it.\<close>

fun push_comp :: "bool \<Rightarrow> string list \<Rightarrow> string \<Rightarrow> string list" where
  "push_comp rooted st c =
     (if c = [] \<or> c = ''.'' then st
      else if c = ''..'' then
        (case st of
           [] \<Rightarrow> if rooted then [] else [''..'']
         | t # ts \<Rightarrow> if t = ''..'' then ''..'' # st else ts)
      else c # st)"

definition clean_comps :: "bool \<Rightarrow> string list \<Rightarrow> string list" where
  "clean_comps rooted cs = rev (foldl (push_comp rooted) [] cs)"

definition is_rooted :: "string \<Rightarrow> bool" where
  "is_rooted s = prefix ''/'' s"

definition filepath_clean :: "string \<Rightarrow> string" where
  "filepath_clean s =
     (let cs = clean_comps (is_rooted s) (split_on CHR ''/'' s) in
      if is_rooted s then ''/'' @ join_with ''/'' cs
      else if cs = [] then ''.'' else join_with ''/'' cs)"

text \<open>\<open>filepath.Join\<close>: leading empty elements are dropped, the rest is joined and cleaned.\<close>

definition filepath_join :: "string list \<Rightarrow> string" where
  "filepath_join es =
     (let es' = dropWhile (\<lambda>e. e = []) es in
      if es' = [] then [] else filepath_clean (join_with ''/'' es'))"

definition filepath_dir :: "string \<Rightarrow> string" where
  "filepath_dir s = filepath_clean (rev (dropWhile (\<lambda>c. c \<noteq> CHR ''/'') (rev s)))"

definition filepath_base :: "string \<Rightarrow> string" where
  "filepath_base s =
     (if s = [] then ''.''
      else let t = rev (dropWhile (\<lambda>c. c = CHR ''/'') (rev s)) in
           if t = [] then ''/'' else last (split_on CHR ''/'' t))"

text \<open>
  A file-system path is the list of its components. \<open>comps\<close> is where the kernel finds an
  absolute path name whose directories are not symbolic links.
\<close>

type_synonym path = "string list"

definition comps :: "string \<Rightarrow> path" where
  "comps s = clean_comps True (split_on CHR ''/'' s)"

definition path_of :: "path \<Rightarrow> string" where
  "path_of cs = ''/'' @ join_with ''/'' cs"

definition plain_name :: "string \<Rightarrow> bool" where
  "plain_name n \<longleftrightarrow> n \<noteq> [] \<and> n \<noteq> ''.'' \<and> n \<noteq> ''..'' \<and> CHR ''/'' \<notin> set n"

definition abs_path :: "string \<Rightarrow> bool" where
  "abs_path s \<longleftrightarrow> (\<exists>cs. list_all plain_name cs \<and> s = path_of cs)"

lemma foldl_push_plain:
  "list_all plain_name cs \<Longrightarrow> foldl (push_comp r) st cs = rev cs @ st"
  by (induction cs arbitrary: st) (auto simp: plain_name_def)

lemma clean_comps_plain: "list_all plain_name cs \<Longrightarrow> clean_comps r cs = cs"
  by (simp add: clean_comps_def foldl_push_plain)

lemma clean_comps_Nil_Cons [simp]: "clean_comps r ([] # cs) = clean_comps r cs"
  by (simp add: clean_comps_def)

lemma clean_comps_append_plain:
  "list_all plain_name ns \<Longrightarrow> clean_comps r (cs @ ns) = clean_comps r cs @ ns"
  by (simp add: clean_comps_def foldl_push_plain)

lemma split_on_path_of:
  "list_all plain_name cs \<Longrightarrow> split_on CHR ''/'' (path_of cs) = (if cs = [] then [[], []] else [] # cs)"
proof -
  assume pl: "list_all plain_name cs"
  then have "concat (map (split_on CHR ''/'') cs) = cs"
    by (induction cs) (auto simp: plain_name_def split_on_id)
  then show ?thesis by (cases cs) (simp_all add: path_of_def split_on_join)
qed

lemma comps_path_of [simp]: "list_all plain_name cs \<Longrightarrow> comps (path_of cs) = cs"
  by (simp add: comps_def split_on_path_of clean_comps_plain)

lemma is_rooted_path_of [simp]: "is_rooted (path_of cs)"
  by (simp add: is_rooted_def path_of_def)

lemma path_of_inj:
  "list_all plain_name a \<Longrightarrow> list_all plain_name b \<Longrightarrow> path_of a = path_of b \<longleftrightarrow> a = b"
  by (metis comps_path_of)

lemma filepath_join_path_of:
  assumes "list_all plain_name cs" and "list_all plain_name ns"
  shows "filepath_join (path_of cs # ns) = path_of (cs @ ns)"
proof -
  let ?s = "join_with ''/'' (path_of cs # ns)"
  have rooted: "is_rooted ?s"
    by (cases ns) (simp_all add: is_rooted_def path_of_def)
  have "split_on CHR ''/'' ?s = split_on CHR ''/'' (path_of cs) @ concat (map (split_on CHR ''/'') ns)"
    by (subst split_on_join) simp_all
  also have "concat (map (split_on CHR ''/'') ns) = ns"
    using assms(2) by (induction ns) (auto simp: plain_name_def split_on_id)
  finally have "clean_comps True (split_on CHR ''/'' ?s) = cs @ ns"
    using assms by (auto simp: split_on_path_of clean_comps_append_plain clean_comps_plain)
  with rooted show ?thesis
    by (simp add: filepath_join_def filepath_clean_def path_of_def Let_def)
qed

lemma abs_path_join:
  assumes "abs_path s" and "list_all plain_name ns"
  shows "filepath_join (s # ns) = path_of (comps s @ ns)"
    and "abs_path (filepath_join (s # ns))"
    and "comps (filepath_join (s # ns)) = comps s @ ns"
proof -
  obtain cs where cs: "list_all plain_name cs" and s: "s = path_of cs"
    using assms(1) by (auto simp: abs_path_def)
  show j: "filepath_join (s # ns) = path_of (comps s @ ns)"
    using cs assms(2) by (simp add: s filepath_join_path_of)
  have "list_all plain_name (comps s @ ns)" using cs assms(2) by (simp add: s)
  then show "abs_path (filepath_join (s # ns))" and "comps (filepath_join (s # ns)) = comps s @ ns"
    unfolding j by (auto simp: abs_path_def simp del: list_all_append)
qed

lemma abs_path_path_of: "abs_path s \<Longrightarrow> path_of (comps s) = s"
  by (auto simp: abs_path_def)

lemma abs_path_plain: "abs_path s \<Longrightarrow> list_all plain_name (comps s)"
  by (auto simp: abs_path_def)

lemma abs_path_of_plain: "list_all plain_name cs \<Longrightarrow> abs_path (path_of cs)"
  by (auto simp: abs_path_def)

lemma join_with_snoc: "cs \<noteq> [] \<Longrightarrow> join_with sep (cs @ [n]) = join_with sep cs @ sep @ n"
  by (induction sep cs rule: join_with.induct) auto

lemma path_of_snoc: "path_of (cs @ [n]) = (if cs = [] then ''/'' @ n else path_of cs @ ''/'' @ n)"
  by (simp add: path_of_def join_with_snoc)

lemma dropWhile_rev_name:
  "CHR ''/'' \<notin> set n \<Longrightarrow> dropWhile (\<lambda>c. c \<noteq> CHR ''/'') (rev n @ CHR ''/'' # t) = CHR ''/'' # t"
  by (subst dropWhile_append2) auto

lemma filepath_base_path_of:
  assumes "list_all plain_name cs" and "plain_name n"
  shows "filepath_base (path_of (cs @ [n])) = n"
proof -
  have nz: "n \<noteq> []" and ns: "CHR ''/'' \<notin> set n" using assms(2) by (auto simp: plain_name_def)
  obtain b c where n: "n = b @ [c]" using nz by (cases n rule: rev_cases) auto
  have "dropWhile (\<lambda>c. c = CHR ''/'') (rev (path_of (cs @ [n]))) = rev (path_of (cs @ [n]))"
    using ns by (auto simp: path_of_snoc n)
  moreover have "last (split_on CHR ''/'' (path_of (cs @ [n]))) = n"
    using assms by (simp add: split_on_path_of)
  ultimately show ?thesis by (simp add: filepath_base_def path_of_def Let_def)
qed

lemma filepath_dir_path_of:
  assumes "list_all plain_name cs" and "plain_name n"
  shows "filepath_dir (path_of (cs @ [n])) = path_of cs"
proof (cases "cs = []")
  case True
  have "rev (dropWhile (\<lambda>c. c \<noteq> CHR ''/'') (rev (path_of (cs @ [n])))) = ''/''"
    using dropWhile_rev_name [of n "[]"] assms(2) True by (simp add: path_of_def plain_name_def)
  moreover have "filepath_clean ''/'' = path_of []"
    by (simp add: filepath_clean_def is_rooted_def clean_comps_def path_of_def Let_def)
  ultimately show ?thesis by (simp only: filepath_dir_def True)
next
  case False
  have "filepath_dir (path_of (cs @ [n])) = filepath_clean (path_of cs @ ''/'')"
    using False assms(2)
    by (simp add: filepath_dir_def path_of_snoc dropWhile_rev_name plain_name_def)
  also have "split_on CHR ''/'' (path_of cs @ ''/'') = ([] # cs) @ [[]]"
    using split_on_append [of "CHR ''/''" "path_of cs" "[]"] assms(1) False
    by (simp add: split_on_path_of)
  then have "clean_comps True (split_on CHR ''/'' (path_of cs @ ''/'')) = cs"
    using assms(1) by (simp add: clean_comps_def foldl_push_plain)
  moreover have "is_rooted (path_of cs @ ''/'')" by (simp add: is_rooted_def path_of_def)
  ultimately show ?thesis by (simp add: filepath_clean_def path_of_def Let_def)
qed

text \<open>Numbers are plain names, and a text added to a plain name leaves it one.\<close>

lemma plain_name_digits [simp]: "plain_name (nat_digits n)"
proof -
  obtain c cs where c: "nat_digits n = c # cs" by (cases "nat_digits n") auto
  have "digit_val c \<noteq> None" using nat_digits_digits [of c n] c by simp
  then have "c \<noteq> CHR ''.''" by (auto simp: digit_val_def Let_def)
  moreover have "CHR ''/'' \<notin> set (nat_digits n)" using nat_digits_digits [of "CHR ''/''" n] by auto
  ultimately show ?thesis using c by (auto simp: plain_name_def)
qed

lemma plain_name_append:
  "CHR ''/'' \<notin> set a \<Longrightarrow> CHR ''/'' \<notin> set b \<Longrightarrow> 2 < length a + length b \<Longrightarrow> plain_name (a @ b)"
  by (auto simp: plain_name_def append_eq_Cons_conv)

end
