(* ===== verification/World.thy ===== *)
theory World
  imports Go_Text "HOL-Library.Word" "HOL-Library.AList"
begin

text \<open>
  The machine the program runs on: the file tree, mounts, advisory locks, project quotas,
  and what the sources use of Go's packages \<open>os\<close>, \<open>os/exec\<close> and \<open>syscall\<close> on them.

  \<^item> The tree maps component lists to nodes, as an association list so that directories
    can be listed. \<open>nodes w\<close> is its lookup function; proofs see the tree through it.
  \<^item> Any system call may fail: \<open>faults\<close> is a schedule that the calls consume, one entry
    each; \<open>Some (e, k)\<close> makes the call fail with \<open>e\<close>, after a part of its effect that \<open>k\<close>
    measures where the call can fail half way (a write, a recursive removal). An empty
    schedule injects no more faults. A theorem for every world holds for every schedule.
  \<^item> External programs are not modelled: \<open>execs\<close> is the schedule of their outcomes and
    \<open>events\<close> the record of their invocations and of the metrics sent.

  Directories on the way to a name are not symbolic links in this tree, and a file is
  opened for writing only under a name that is no symbolic link (\<open>ELOOP\<close> otherwise):
  the store's components use links only inside the links directory.
\<close>

section \<open>State\<close>

record attr =
  mode :: nat
  owner_uid :: int
  owner_gid :: int
  projid :: "32 word"
  xattrs :: "(string \<times> string) list"

datatype node =
    Dir attr
  | Regular attr string
  | Symlink string
  | CharDev attr nat
  | BlockDev attr nat

datatype lock_mode = LOCK_EX | LOCK_SH

datatype exec_result = ExecOk string | ExecFail string

datatype event =
    Exec string "string list"
  | Metric string
  | Usage string int
  | Mounted string string string \<comment> \<open>source, mount point, data\<close>
  | Streamed string \<comment> \<open>a blob opened by a fetcher\<close>

record world =
  tree :: "(path \<times> node) list"
  faults :: "(errno \<times> nat) option list"
  mount_points :: "path list"
  workdir :: path
  umask :: nat
  ruid :: int
  rgid :: int
  euid :: int
  flocks :: "(path \<times> lock_mode) list"
  quotas :: "(32 word \<times> (64 word \<times> 64 word)) list" \<comment> \<open>blocks: hard limit, in use\<close>
  execs :: "exec_result list"
  events :: "event list"
  nonces :: "int list" \<comment> \<open>clock readings and random numbers\<close>
  search_path :: "string list" \<comment> \<open>\<open>$PATH\<close>\<close>
  pid :: int
  argv0 :: string
  tmpdir :: string \<comment> \<open>\<open>$TMPDIR\<close>\<close>
  statfs_type :: int \<comment> \<open>what statfs says of the store's file system\<close>
  statfs_bsize :: "64 word"
  statfs_blocks :: "64 word"
  statfs_bfree :: "64 word"
  source_quota :: int \<comment> \<open>\<open>imageQuota\<close> of the layer source, the one component that has state of its own\<close>

type_synonym 'a sys = "(world, 'a) io"

definition nodes :: "world \<Rightarrow> path \<Rightarrow> node option" where
  "nodes w = map_of (tree w)"

definition put :: "path \<Rightarrow> node \<Rightarrow> world \<Rightarrow> world" where
  "put p n w = w\<lparr>tree := (p, n) # filter (\<lambda>(q, _). q \<noteq> p) (tree w)\<rparr>"

definition prune :: "(path \<Rightarrow> bool) \<Rightarrow> world \<Rightarrow> world" where
  "prune D w = w\<lparr>tree := filter (\<lambda>(q, _). \<not> D q) (tree w)\<rparr>"

definition move :: "path \<Rightarrow> path \<Rightarrow> world \<Rightarrow> world" where
  "move a b w = w\<lparr>tree :=
     map (\<lambda>(q, n). if prefix a q then (b @ drop (length a) q, n) else (q, n))
       (filter (\<lambda>(q, _). \<not> prefix b q) (tree w))\<rparr>"

definition child_names :: "world \<Rightarrow> path \<Rightarrow> string list" where
  "child_names w p =
     sort (remdups (map (last \<circ> fst) (filter (\<lambda>(q, _). q \<noteq> [] \<and> butlast q = p) (tree w))))"

definition is_dir :: "world \<Rightarrow> path \<Rightarrow> bool" where
  "is_dir w p = (case nodes w p of Some (Dir _) \<Rightarrow> True | _ \<Rightarrow> False)"

fun is_dir_node :: "node \<Rightarrow> bool" where
  "is_dir_node (Dir _) = True"
| "is_dir_node _ = False"

definition new_attr :: "world \<Rightarrow> nat \<Rightarrow> attr" where
  "new_attr w perm = \<lparr>mode = perm - Bit_Operations.and perm (umask w), owner_uid = euid w,
     owner_gid = rgid w, projid = 0, xattrs = []\<rparr>"

fun map_attr :: "(attr \<Rightarrow> attr) \<Rightarrow> node \<Rightarrow> node" where
  "map_attr f (Dir a) = Dir (f a)"
| "map_attr f (Regular a c) = Regular (f a) c"
| "map_attr f (Symlink t) = Symlink t"
| "map_attr f (CharDev a d) = CharDev (f a) d"
| "map_attr f (BlockDev a d) = BlockDev (f a) d"

text \<open>Where a name leads, and why a name is absent.\<close>

definition at_path :: "world \<Rightarrow> string \<Rightarrow> path" where
  "at_path w p = (if is_rooted p then comps p
     else clean_comps True (workdir w @ split_on CHR ''/'' p))"

definition absent_errno :: "world \<Rightarrow> path \<Rightarrow> errno" where
  "absent_errno w p =
     (if list_ex (\<lambda>i. case nodes w (take i p) of None \<Rightarrow> False | Some n \<Rightarrow> \<not> is_dir_node n) [0..<length p]
      then ENOTDIR else ENOENT)"

fun follow :: "nat \<Rightarrow> world \<Rightarrow> path \<Rightarrow> errno + node" where
  "follow 0 w q = Inl ELOOP"
| "follow (Suc k) w q =
     (case nodes w q of
        None \<Rightarrow> Inl (absent_errno w q)
      | Some (Symlink t) \<Rightarrow>
          follow k w (if is_rooted t then comps t
                      else clean_comps True (butlast q @ split_on CHR ''/'' t))
      | Some n \<Rightarrow> Inr n)"

definition stat_node :: "world \<Rightarrow> path \<Rightarrow> errno + node" where
  "stat_node w q = follow (Suc 39) w q"

section \<open>System calls\<close>

definition faulty :: "(errno \<Rightarrow> nat \<Rightarrow> 'a sys) \<Rightarrow> 'a sys \<Rightarrow> 'a sys" where
  "faulty f m = (\<lambda>w. case faults w of
      [] \<Rightarrow> m w
    | None # fs \<Rightarrow> m (w\<lparr>faults := fs\<rparr>)
    | Some (e, k) # fs \<Rightarrow> f e k (w\<lparr>faults := fs\<rparr>))"

definition sysfail :: "string \<Rightarrow> string \<Rightarrow> errno \<Rightarrow> nat \<Rightarrow> 'a sys" where
  "sysfail op p e k = throw (PathErr op p e)"

definition os_stat :: "string \<Rightarrow> node sys" where
  "os_stat p = faulty (sysfail ''stat'' p) (\<lambda>w.
     case stat_node w (at_path w p) of
       Inl e \<Rightarrow> (Inl (PathErr ''stat'' p e), w)
     | Inr n \<Rightarrow> (Inr n, w))"

definition os_lstat :: "string \<Rightarrow> node sys" where
  "os_lstat p = faulty (sysfail ''lstat'' p) (\<lambda>w.
     case nodes w (at_path w p) of
       None \<Rightarrow> (Inl (PathErr ''lstat'' p (absent_errno w (at_path w p))), w)
     | Some n \<Rightarrow> (Inr n, w))"

definition os_read_dir :: "string \<Rightarrow> string list sys" where
  "os_read_dir p = faulty (sysfail ''open'' p) (\<lambda>w.
     case stat_node w (at_path w p) of
       Inl e \<Rightarrow> (Inl (PathErr ''open'' p e), w)
     | Inr n \<Rightarrow> if is_dir_node n then (Inr (child_names w (at_path w p)), w)
               else (Inl (PathErr ''readdirent'' p ENOTDIR), w))"

definition os_read_file :: "string \<Rightarrow> string sys" where
  "os_read_file p = faulty (sysfail ''open'' p) (\<lambda>w.
     case stat_node w (at_path w p) of
       Inl e \<Rightarrow> (Inl (PathErr ''open'' p e), w)
     | Inr (Regular _ c) \<Rightarrow> (Inr c, w)
     | Inr (Dir _) \<Rightarrow> (Inl (PathErr ''read'' p EISDIR), w)
     | Inr _ \<Rightarrow> (Inr [], w))"

text \<open>Opening to read, without reading.\<close>

definition os_open :: "string \<Rightarrow> unit sys" where
  "os_open p = faulty (sysfail ''open'' p) (\<lambda>w.
     case stat_node w (at_path w p) of
       Inl e \<Rightarrow> (Inl (PathErr ''open'' p e), w)
     | Inr _ \<Rightarrow> (Inr (), w))"

text \<open>\<open>os.OpenFile\<close> with \<open>O_CREATE\<close>, \<open>O_WRONLY\<close> and, if \<open>trunc\<close>, \<open>O_TRUNC\<close>.\<close>

definition open_create :: "bool \<Rightarrow> string \<Rightarrow> nat \<Rightarrow> unit sys" where
  "open_create trunc p perm = faulty (sysfail ''open'' p) (\<lambda>w.
     let q = at_path w p in
     case nodes w q of
       Some (Regular a c) \<Rightarrow> (Inr (), if trunc then put q (Regular a []) w else w)
     | Some (Dir _) \<Rightarrow> (Inl (PathErr ''open'' p EISDIR), w)
     | Some _ \<Rightarrow> (Inl (PathErr ''open'' p ELOOP), w)
     | None \<Rightarrow> if is_dir w (butlast q) then (Inr (), put q (Regular (new_attr w perm) []) w)
               else (Inl (PathErr ''open'' p (absent_errno w q)), w))"

text \<open>The same with \<open>O_EXCL\<close>: the file must be new.\<close>

definition open_excl :: "string \<Rightarrow> nat \<Rightarrow> unit sys" where
  "open_excl p perm = faulty (sysfail ''open'' p) (\<lambda>w.
     let q = at_path w p in
     if nodes w q \<noteq> None then (Inl (PathErr ''open'' p EEXIST), w)
     else if is_dir w (butlast q) then (Inr (), put q (Regular (new_attr w perm) []) w)
     else (Inl (PathErr ''open'' p (absent_errno w q)), w))"

definition append_to :: "path \<Rightarrow> string \<Rightarrow> world \<Rightarrow> world" where
  "append_to q s w = (case nodes w q of Some (Regular a c) \<Rightarrow> put q (Regular a (c @ s)) w | _ \<Rightarrow> w)"

definition write_all :: "string \<Rightarrow> string \<Rightarrow> unit sys" where
  "write_all p s = faulty
     (\<lambda>e k w. (Inl (PathErr ''write'' p e), append_to (at_path w p) (take k s) w))
     (\<lambda>w. (Inr (), append_to (at_path w p) s w))"

definition os_write_file :: "string \<Rightarrow> string \<Rightarrow> nat \<Rightarrow> unit sys" where
  "os_write_file p s perm = checked (open_create True p perm) throw (\<lambda>_. write_all p s)"

text \<open>Permission bits, named after their octal digits.\<close>

definition perm_0600 :: nat where "perm_0600 = 6 * 64"
definition perm_0644 :: nat where "perm_0644 = 6 * 64 + 4 * 8 + 4"
definition perm_0666 :: nat where "perm_0666 = 6 * 64 + 6 * 8 + 6"
definition perm_0700 :: nat where "perm_0700 = 7 * 64"
definition perm_0755 :: nat where "perm_0755 = 7 * 64 + 5 * 8 + 5"

definition os_create :: "string \<Rightarrow> unit sys" where
  "os_create p = open_create True p perm_0666"

definition os_mkdir :: "string \<Rightarrow> nat \<Rightarrow> unit sys" where
  "os_mkdir p perm = faulty (sysfail ''mkdir'' p) (\<lambda>w.
     let q = at_path w p in
     if nodes w q \<noteq> None then (Inl (PathErr ''mkdir'' p EEXIST), w)
     else if is_dir w (butlast q) then (Inr (), put q (Dir (new_attr w perm)) w)
     else (Inl (PathErr ''mkdir'' p (absent_errno w q)), w))"

text \<open>\<open>os.MkdirAll\<close>: the missing directories from the top down; one that exists is kept.\<close>

definition mkdir_missing :: "nat \<Rightarrow> path \<Rightarrow> unit sys" where
  "mkdir_missing perm q = checked (os_lstat (path_of q))
     (\<lambda>e. if is_not_exist e then os_mkdir (path_of q) perm else throw e)
     (\<lambda>n. if is_dir_node n then ret () else throw (PathErr ''mkdir'' (path_of q) ENOTDIR))"

definition os_mkdir_all :: "string \<Rightarrow> nat \<Rightarrow> unit sys" where
  "os_mkdir_all p perm = (\<lambda>w.
     for_each (map (\<lambda>i. take i (at_path w p)) [1..<Suc (length (at_path w p))]) (mkdir_missing perm) w)"

definition os_remove :: "string \<Rightarrow> unit sys" where
  "os_remove p = faulty (sysfail ''remove'' p) (\<lambda>w.
     let q = at_path w p in
     case nodes w q of
       None \<Rightarrow> (Inl (PathErr ''remove'' p (absent_errno w q)), w)
     | Some n \<Rightarrow>
         if is_dir_node n \<and> q \<in> set (mount_points w) then (Inl (PathErr ''remove'' p EBUSY), w)
         else if is_dir_node n \<and> child_names w q \<noteq> [] then (Inl (PathErr ''remove'' p ENOTEMPTY), w)
         else (Inr (), prune (\<lambda>r. r = q) w))"

definition mounted_below :: "world \<Rightarrow> path \<Rightarrow> path list" where
  "mounted_below w q = filter (prefix q) (mount_points w)"

text \<open>
  \<open>os.RemoveAll\<close> removes the deepest entries first; a fault stops it after \<open>k\<close> of them. A
  mount point in the subtree, its contents and the directories above it stay.
\<close>

definition removable :: "world \<Rightarrow> path \<Rightarrow> path \<Rightarrow> bool" where
  "removable w q r \<longleftrightarrow>
     prefix q r \<and> \<not> list_ex (\<lambda>m. prefix r m \<or> prefix m r) (mounted_below w q)"

definition removal_order :: "world \<Rightarrow> path \<Rightarrow> path list" where
  "removal_order w q = rev (sort_key length (filter (removable w q) (map fst (tree w))))"

definition os_remove_all :: "string \<Rightarrow> unit sys" where
  "os_remove_all p = faulty
     (\<lambda>e k w. (Inl (PathErr ''unlinkat'' p e),
        (let victims = take k (removal_order w (at_path w p)) in prune (\<lambda>r. r \<in> set victims) w)))
     (\<lambda>w. let q = at_path w p in
        (if mounted_below w q = [] then Inr () else Inl (PathErr ''unlinkat'' p EBUSY),
         prune (removable w q) w))"

text \<open>\<open>os.Rename\<close> refuses to replace any directory, as Go's wrapper of the system call does.\<close>

definition os_rename :: "string \<Rightarrow> string \<Rightarrow> unit sys" where
  "os_rename a b = faulty (sysfail ''rename'' a) (\<lambda>w.
     let p = at_path w a; q = at_path w b in
     case nodes w p of
       None \<Rightarrow> (Inl (PathErr ''rename'' a (absent_errno w p)), w)
     | Some n \<Rightarrow>
         if p = q then (Inr (), w)
         else if is_dir w q then (Inl (PathErr ''rename'' a EEXIST), w)
         else if prefix p q then (Inl (PathErr ''rename'' a EINVAL), w)
         else if \<not> is_dir w (butlast q) then (Inl (PathErr ''rename'' a (absent_errno w q)), w)
         else if is_dir_node n \<and> nodes w q \<noteq> None then (Inl (PathErr ''rename'' a ENOTDIR), w)
         else (Inr (), move p q w))"

definition os_symlink :: "string \<Rightarrow> string \<Rightarrow> unit sys" where
  "os_symlink target p = faulty (sysfail ''symlink'' p) (\<lambda>w.
     let q = at_path w p in
     if nodes w q \<noteq> None then (Inl (PathErr ''symlink'' p EEXIST), w)
     else if is_dir w (butlast q) then (Inr (), put q (Symlink target) w)
     else (Inl (PathErr ''symlink'' p (absent_errno w q)), w))"

text \<open>Changes of attributes; \<open>os.Chmod\<close> and \<open>os.Chown\<close> of a name that is no link.\<close>

definition change_attr :: "string \<Rightarrow> string \<Rightarrow> (attr \<Rightarrow> attr) \<Rightarrow> unit sys" where
  "change_attr op p f = faulty (sysfail op p) (\<lambda>w.
     let q = at_path w p in
     case nodes w q of
       None \<Rightarrow> (Inl (PathErr op p (absent_errno w q)), w)
     | Some n \<Rightarrow> (Inr (), put q (map_attr f n) w))"

definition os_chmod :: "string \<Rightarrow> nat \<Rightarrow> unit sys" where
  "os_chmod p m = change_attr ''chmod'' p (\<lambda>a. a\<lparr>mode := m\<rparr>)"

text \<open>The identifier \<open>-1\<close> leaves the owner or the group as it is, as chown(2) does.\<close>

definition os_chown :: "string \<Rightarrow> int \<Rightarrow> int \<Rightarrow> unit sys" where
  "os_chown p u g = change_attr ''chown'' p (\<lambda>a. a\<lparr>
     owner_uid := (if u = - 1 then owner_uid a else u),
     owner_gid := (if g = - 1 then owner_gid a else g)\<rparr>)"

definition os_truncate :: "string \<Rightarrow> nat \<Rightarrow> unit sys" where
  "os_truncate p n = faulty (sysfail ''truncate'' p) (\<lambda>w.
     let q = at_path w p in
     case nodes w q of
       Some (Regular a c) \<Rightarrow>
         (Inr (), put q (Regular a (take n c @ replicate (n - length c) CHR 0x00)) w)
     | Some (Dir _) \<Rightarrow> (Inl (PathErr ''truncate'' p EISDIR), w)
     | Some _ \<Rightarrow> (Inl (PathErr ''truncate'' p EINVAL), w)
     | None \<Rightarrow> (Inl (PathErr ''truncate'' p (absent_errno w q)), w))"

definition os_chdir :: "string \<Rightarrow> unit sys" where
  "os_chdir p = faulty (sysfail ''chdir'' p) (\<lambda>w.
     case stat_node w (at_path w p) of
       Inl e \<Rightarrow> (Inl (PathErr ''chdir'' p e), w)
     | Inr n \<Rightarrow> if is_dir_node n then (Inr (), w\<lparr>workdir := at_path w p\<rparr>)
                else (Inl (PathErr ''chdir'' p ENOTDIR), w))"

definition mknod :: "string \<Rightarrow> (attr \<Rightarrow> node) \<Rightarrow> nat \<Rightarrow> unit sys" where
  "mknod p mk perm = faulty (\<lambda>e k. throw (SysErr e)) (\<lambda>w.
     let q = at_path w p in
     if nodes w q \<noteq> None then (Inl (SysErr EEXIST), w)
     else if is_dir w (butlast q) then (Inr (), put q (mk (new_attr w perm)) w)
     else (Inl (SysErr (absent_errno w q)), w))"

text \<open>
  \<open>open_file\<close> is the identity of the file just opened under a name, what a descriptor stands
  for; \<open>flock\<close> acts on it. The process waits for other processes; a lock
  that conflicts with one it already holds itself is never granted.
\<close>

definition conflicting :: "(path \<times> lock_mode) list \<Rightarrow> path \<Rightarrow> lock_mode \<Rightarrow> bool" where
  "conflicting L q m \<longleftrightarrow> list_ex (\<lambda>(r, m'). r = q \<and> (m = LOCK_EX \<or> m' = LOCK_EX)) L"

definition open_file :: "string \<Rightarrow> path sys" where
  "open_file p = (\<lambda>w. (Inr (at_path w p), w))"

definition flock :: "path \<Rightarrow> lock_mode \<Rightarrow> unit sys" where
  "flock q m = faulty (\<lambda>e k. throw (SysErr e)) (\<lambda>w.
     if conflicting (flocks w) q m then (Inl (Panic ''deadlock''), w)
     else (Inr (), w\<lparr>flocks := (q, m) # flocks w\<rparr>))"

definition release :: "path \<Rightarrow> lock_mode \<Rightarrow> world \<Rightarrow> world" where
  "release q m w = w\<lparr>flocks := remove1 (q, m) (flocks w)\<rparr>"

definition unix_mount :: "string \<Rightarrow> string \<Rightarrow> string \<Rightarrow> unit sys" where
  "unix_mount source p data = faulty (\<lambda>e k. throw (SysErr e)) (\<lambda>w.
     let q = at_path w p in
     if is_dir w q then (Inr (), w\<lparr>mount_points := q # mount_points w,
                                  events := events w @ [Mounted source p data]\<rparr>)
     else (Inl (SysErr (if nodes w q = None then absent_errno w q else ENOTDIR)), w))"

definition unix_unmount :: "string \<Rightarrow> unit sys" where
  "unix_unmount p = faulty (\<lambda>e k. throw (SysErr e)) (\<lambda>w.
     let q = at_path w p in
     if nodes w q = None then (Inl (SysErr (absent_errno w q)), w)
     else if q \<in> set (mount_points w) then (Inr (), w\<lparr>mount_points := remove1 q (mount_points w)\<rparr>)
     else (Inl (SysErr EINVAL), w))"

text \<open>An external program: its exit status and output come from the schedule.\<close>

definition exec_command :: "string \<Rightarrow> string list \<Rightarrow> exec_result sys" where
  "exec_command cmd args = (\<lambda>w.
     let w' = w\<lparr>events := events w @ [Exec cmd args]\<rparr> in
     case execs w of
       [] \<Rightarrow> (Inr (ExecOk []), w')
     | r # rs \<Rightarrow> (Inr r, w'\<lparr>execs := rs\<rparr>))"

definition nonce :: "int sys" where
  "nonce = (\<lambda>w. case nonces w of [] \<Rightarrow> (Inr 0, w) | n # ns \<Rightarrow> (Inr n, w\<lparr>nonces := ns\<rparr>))"

definition emit :: "event \<Rightarrow> unit sys" where
  "emit e = (\<lambda>w. (Inr (), w\<lparr>events := events w @ [e]\<rparr>))"

definition getuid :: "int sys" where
  "getuid = (\<lambda>w. (Inr (ruid w), w))"

definition getgid :: "int sys" where
  "getgid = (\<lambda>w. (Inr (rgid w), w))"

definition exec_output :: "string \<Rightarrow> string list \<Rightarrow> (string \<Rightarrow> goerr) \<Rightarrow> string sys" where
  "exec_output cmd args err = checked (exec_command cmd args) throw (\<lambda>r.
     (case r of ExecOk out \<Rightarrow> ret out | ExecFail out \<Rightarrow> throw (err out)))"

text \<open>\<open>exec.LookPath\<close>.\<close>

definition executable :: "world \<Rightarrow> string \<Rightarrow> bool" where
  "executable w p = (case stat_node w (at_path w p) of
     Inr (Regular a _) \<Rightarrow> Bit_Operations.and (mode a) (64 + 8 + 1) \<noteq> 0 | _ \<Rightarrow> False)"

definition look_path :: "string \<Rightarrow> world \<Rightarrow> string option" where
  "look_path f w =
     (if CHR ''/'' \<in> set f then (if executable w f then Some f else None)
      else find (executable w) (map (\<lambda>d. filepath_join [d, f]) (search_path w)))"

definition lookup_path :: "string \<Rightarrow> string option sys" where
  "lookup_path f = (\<lambda>w. (Inr (look_path f w), w))"

definition geteuid :: "int sys" where
  "geteuid = (\<lambda>w. (Inr (euid w), w))"

definition getpid :: "int sys" where
  "getpid = (\<lambda>w. (Inr (pid w), w))"

record statfs_t =
  f_type :: int
  f_bsize :: "64 word"
  f_blocks :: "64 word"
  f_bfree :: "64 word"

definition statfs :: "string \<Rightarrow> statfs_t sys" where
  "statfs p = faulty (\<lambda>e k. throw (SysErr e)) (\<lambda>w.
     case stat_node w (at_path w p) of
       Inl e \<Rightarrow> (Inl (SysErr e), w)
     | Inr _ \<Rightarrow> (Inr \<lparr>f_type = statfs_type w, f_bsize = statfs_bsize w, f_blocks = statfs_blocks w,
                    f_bfree = statfs_bfree w\<rparr>, w))"

text \<open>Extended attributes, and the project id of a directory.\<close>

definition lsetxattr :: "string \<Rightarrow> string \<Rightarrow> string \<Rightarrow> unit sys" where
  "lsetxattr p name v = change_attr ''lsetxattr'' p (\<lambda>a. a\<lparr>xattrs := AList.update name v (xattrs a)\<rparr>)"

fun node_attr :: "node \<Rightarrow> attr option" where
  "node_attr (Dir a) = Some a"
| "node_attr (Regular a _) = Some a"
| "node_attr (Symlink _) = None"
| "node_attr (CharDev a _) = Some a"
| "node_attr (BlockDev a _) = Some a"

text \<open>\<open>opendir\<close> gives the directory a name leads to; the ioctls act on it.\<close>

definition c_opendir :: "string \<Rightarrow> path option sys" where
  "c_opendir p = faulty (\<lambda>e k. ret None) (\<lambda>w.
     (Inr (if is_dir w (at_path w p) then Some (at_path w p) else None), w))"

definition ioctl_getxattr :: "path \<Rightarrow> 32 word sys" where
  "ioctl_getxattr d = faulty (\<lambda>e k. throw (SysErr e)) (\<lambda>w.
     case nodes w d of Some (Dir a) \<Rightarrow> (Inr (projid a), w) | _ \<Rightarrow> (Inl (SysErr ENOENT), w))"

definition ioctl_setxattr :: "path \<Rightarrow> 32 word \<Rightarrow> unit sys" where
  "ioctl_setxattr d i = faulty (\<lambda>e k. throw (SysErr e)) (\<lambda>w.
     case nodes w d of Some (Dir a) \<Rightarrow> (Inr (), put d (Dir (a\<lparr>projid := i\<rparr>)) w) | _ \<Rightarrow> (Inl (SysErr ENOENT), w))"

text \<open>\<open>quotactl\<close> on the block device under a name: hard limit and usage in blocks of 512 bytes.\<close>

definition is_block_dev :: "world \<Rightarrow> string \<Rightarrow> bool" where
  "is_block_dev w p = (case stat_node w (at_path w p) of Inr (BlockDev _ _) \<Rightarrow> True | _ \<Rightarrow> False)"

definition quotactl_get :: "string \<Rightarrow> 32 word \<Rightarrow> (64 word \<times> 64 word) sys" where
  "quotactl_get dev i = faulty (\<lambda>e k. throw (SysErr e)) (\<lambda>w.
     if \<not> is_block_dev w dev then (Inl (SysErr EINVAL), w)
     else case map_of (quotas w) i of
         Some q \<Rightarrow> (Inr q, w)
       | None \<Rightarrow> (Inl (SysErr ENOENT), w))"

definition quotactl_set :: "string \<Rightarrow> 32 word \<Rightarrow> 64 word \<Rightarrow> unit sys" where
  "quotactl_set dev i hard = faulty (\<lambda>e k. throw (SysErr e)) (\<lambda>w.
     if \<not> is_block_dev w dev then (Inl (SysErr EINVAL), w)
     else (Inr (), w\<lparr>quotas := AList.update i
            (hard, case map_of (quotas w) i of Some (_, used) \<Rightarrow> used | None \<Rightarrow> 0) (quotas w)\<rparr>))"

text \<open>
  The two ways the sources treat a missing file: \<open>if os.IsNotExist(err)\<close>, where any other
  outcome goes on, and \<open>if err != nil && !os.IsNotExist(err)\<close>.
\<close>

definition if_missing :: "'a sys \<Rightarrow> (goerr \<Rightarrow> 'b sys) \<Rightarrow> 'b sys \<Rightarrow> 'b sys" where
  "if_missing m h k = checked m (\<lambda>e. if is_not_exist e then h e else k) (\<lambda>_. k)"

definition unless_missing :: "'a sys \<Rightarrow> (goerr \<Rightarrow> 'b sys) \<Rightarrow> 'b sys \<Rightarrow> 'b sys" where
  "unless_missing m h k = checked m (\<lambda>e. if is_not_exist e then k else h e) (\<lambda>_. k)"

text \<open>A map is ranged over in an order of the run time's choice.\<close>

fun shuffle :: "nat \<Rightarrow> 'a list \<Rightarrow> 'a list" where
  "shuffle n [] = []"
| "shuffle n (x # xs) =
     (let ys = shuffle (n div Suc (length xs)) xs; i = n mod Suc (length xs) in
      take i ys @ x # drop i ys)"

definition ranged :: "'a list \<Rightarrow> 'a list sys" where
  "ranged xs = checked nonce throw (\<lambda>n. ret (shuffle (nat n) xs))"

end
