(* ===== verification/World_Facts.thy ===== *)
theory World_Facts
  imports World "HOL-Library.Multiset"
begin

text \<open>
  What the system calls do, as lemmas: the node at each path after a call, the ways a call
  can return (collection \<open>sys_cases\<close>), how a call runs when no fault is scheduled
  (collection \<open>sys_ok\<close>), and which invariants it keeps (in \<open>keeps_intro\<close>).

  \<open>frozen P v\<close> says that the nodes at the paths in \<open>P\<close> are those of \<open>v\<close>; an operation that
  keeps it for every \<open>v\<close> does not touch \<open>P\<close>. \<open>on_tree I\<close> and \<open>off_tree I\<close> say that an
  invariant looks only at the tree, or only at the rest of the machine.
\<close>

named_theorems sys_cases "how a system call can return"
named_theorems sys_ok "how a system call runs when no fault is scheduled"

section \<open>The tree\<close>

lemma put_fields [simp]:
  "faults (put p n w) = faults w" "mount_points (put p n w) = mount_points w"
  "workdir (put p n w) = workdir w" "umask (put p n w) = umask w" "ruid (put p n w) = ruid w"
  "rgid (put p n w) = rgid w" "euid (put p n w) = euid w" "flocks (put p n w) = flocks w"
  "quotas (put p n w) = quotas w" "execs (put p n w) = execs w" "events (put p n w) = events w"
  "nonces (put p n w) = nonces w"
  "search_path (put p n w) = search_path w" "pid (put p n w) = pid w" "argv0 (put p n w) = argv0 w" "tmpdir (put p n w) = tmpdir w"
  "statfs_type (put p n w) = statfs_type w" "statfs_bsize (put p n w) = statfs_bsize w"
  "statfs_blocks (put p n w) = statfs_blocks w" "statfs_bfree (put p n w) = statfs_bfree w"
  by (simp_all add: put_def)

lemma prune_fields [simp]:
  "faults (prune D w) = faults w" "mount_points (prune D w) = mount_points w"
  "workdir (prune D w) = workdir w" "umask (prune D w) = umask w" "ruid (prune D w) = ruid w"
  "rgid (prune D w) = rgid w" "euid (prune D w) = euid w" "flocks (prune D w) = flocks w"
  "quotas (prune D w) = quotas w" "execs (prune D w) = execs w" "events (prune D w) = events w"
  "nonces (prune D w) = nonces w"
  "search_path (prune D w) = search_path w" "pid (prune D w) = pid w" "argv0 (prune D w) = argv0 w" "tmpdir (prune D w) = tmpdir w"
  "statfs_type (prune D w) = statfs_type w" "statfs_bsize (prune D w) = statfs_bsize w"
  "statfs_blocks (prune D w) = statfs_blocks w" "statfs_bfree (prune D w) = statfs_bfree w"
  by (simp_all add: prune_def)

lemma move_fields [simp]:
  "faults (move a b w) = faults w" "mount_points (move a b w) = mount_points w"
  "workdir (move a b w) = workdir w" "umask (move a b w) = umask w" "ruid (move a b w) = ruid w"
  "rgid (move a b w) = rgid w" "euid (move a b w) = euid w" "flocks (move a b w) = flocks w"
  "quotas (move a b w) = quotas w" "execs (move a b w) = execs w" "events (move a b w) = events w"
  "nonces (move a b w) = nonces w"
  "search_path (move a b w) = search_path w" "pid (move a b w) = pid w" "argv0 (move a b w) = argv0 w" "tmpdir (move a b w) = tmpdir w"
  "statfs_type (move a b w) = statfs_type w" "statfs_bsize (move a b w) = statfs_bsize w"
  "statfs_blocks (move a b w) = statfs_blocks w" "statfs_bfree (move a b w) = statfs_bfree w"
  by (simp_all add: move_def)

lemma nodes_tree_cong: "tree w = tree w' \<Longrightarrow> nodes w = nodes w'"
  by (simp add: nodes_def)

lemma nodes_upd [simp]:
  "nodes (w\<lparr>faults := f\<rparr>) = nodes w" "nodes (w\<lparr>mount_points := m\<rparr>) = nodes w"
  "nodes (w\<lparr>workdir := d\<rparr>) = nodes w" "nodes (w\<lparr>flocks := l\<rparr>) = nodes w"
  "nodes (w\<lparr>quotas := q\<rparr>) = nodes w" "nodes (w\<lparr>execs := x\<rparr>) = nodes w"
  "nodes (w\<lparr>events := y\<rparr>) = nodes w" "nodes (w\<lparr>nonces := z\<rparr>) = nodes w"
  by (simp_all add: nodes_def)

lemma map_of_filter_key: "map_of (filter (\<lambda>(q, _). Q q) t) p = (if Q p then map_of t p else None)"
  by (induction t) auto

lemma nodes_put [simp]: "nodes (put p n w) = (nodes w)(p \<mapsto> n)"
  using map_of_filter_key [of "\<lambda>q. q \<noteq> p" "tree w"]
  by (auto simp: nodes_def put_def fun_eq_iff)

lemma nodes_prune [simp]: "nodes (prune D w) = (\<lambda>q. if D q then None else nodes w q)"
  using map_of_filter_key [of "\<lambda>q. \<not> D q" "tree w"]
  by (auto simp: nodes_def prune_def fun_eq_iff)

lemma map_of_rekey:
  "(\<And>x. x \<in> fst ` set t \<Longrightarrow> f x = p \<longleftrightarrow> x = q) \<Longrightarrow>
     map_of (map (\<lambda>(x, n). (f x, n)) t) p = map_of t q"
proof (induction t)
  case (Cons y t)
  have "map_of (map (\<lambda>(x, n). (f x, n)) t) p = map_of t q"
    by (rule Cons.IH) (use Cons.prems in auto)
  moreover have "f (fst y) = p \<longleftrightarrow> fst y = q" using Cons.prems [of "fst y"] by simp
  ultimately show ?case by (cases y) auto
qed simp

lemma prefix_drop: "prefix a q \<Longrightarrow> a @ drop (length a) q = q"
  by (auto simp: prefix_def)

lemma nodes_move:
  assumes "\<not> prefix a b" and "\<not> prefix b a"
  shows "nodes (move a b w) r =
    (if prefix b r then nodes w (a @ drop (length b) r) else if prefix a r then None else nodes w r)"
proof -
  let ?t = "filter (\<lambda>(q, _). \<not> prefix b q) (tree w)"
  let ?f = "\<lambda>q. if prefix a q then b @ drop (length a) q else q"
  have eq: "tree (move a b w) = map (\<lambda>(x, n). (?f x, n)) ?t"
    by (auto simp: move_def intro!: map_cong)
  have keys: "\<not> prefix b x" if "x \<in> fst ` set ?t" for x using that by auto
  have sep: "\<not> (prefix a r \<and> prefix b r)"
    using assms prefix_same_cases by blast
  show ?thesis
  proof (cases "prefix b r")
    case True
    have "map_of (map (\<lambda>(x, n). (?f x, n)) ?t) r = map_of ?t (a @ drop (length b) r)"
    proof (rule map_of_rekey)
      fix x assume "x \<in> fst ` set ?t"
      with True keys [of x] show "?f x = r \<longleftrightarrow> x = a @ drop (length b) r"
        by (auto simp: prefix_def)
    qed
    also have "\<not> prefix b (a @ drop (length b) r)"
      using assms by (metis append_Nil2 drop_append prefix_prefix prefixE prefixI prefix_same_cases)
    then have "map_of ?t (a @ drop (length b) r) = map_of (tree w) (a @ drop (length b) r)"
      using map_of_filter_key [of "\<lambda>q. \<not> prefix b q" "tree w"] by simp
    finally show ?thesis using True by (simp add: nodes_def eq)
  next
    case False
    show ?thesis
    proof (cases "prefix a r")
      case True
      have "map_of (map (\<lambda>(x, n). (?f x, n)) ?t) r = None"
        using True False by (auto simp: map_of_eq_None_iff prefix_def split: if_splits)
      then show ?thesis using True False by (simp add: nodes_def eq)
    next
      case nota: False
      have "map_of (map (\<lambda>(x, n). (?f x, n)) ?t) r = map_of ?t r"
        by (rule map_of_rekey) (use False nota in \<open>auto simp: prefix_def\<close>)
      also have "\<dots> = map_of (tree w) r"
        using map_of_filter_key [of "\<lambda>q. \<not> prefix b q" "tree w"] False by simp
      finally show ?thesis using False nota by (simp add: nodes_def eq)
    qed
  qed
qed

lemma child_names_iff: "n \<in> set (child_names w p) \<longleftrightarrow> nodes w (p @ [n]) \<noteq> None"
proof -
  have "n \<in> set (child_names w p) \<longleftrightarrow> (\<exists>q \<in> fst ` set (tree w). q \<noteq> [] \<and> butlast q = p \<and> last q = n)"
    by (force simp: child_names_def)
  also have "\<dots> \<longleftrightarrow> p @ [n] \<in> fst ` set (tree w)"
    by (metis append_butlast_last_id butlast_snoc last_snoc snoc_eq_iff_butlast)
  finally show ?thesis by (simp add: nodes_def map_of_eq_None_iff)
qed

lemma distinct_child_names [simp]: "distinct (child_names w p)"
  by (simp add: child_names_def)

lemma child_names_upd [simp]:
  "child_names (w\<lparr>faults := f\<rparr>) = child_names w"
  by (simp add: child_names_def fun_eq_iff)

lemma is_dir_iff: "is_dir w p \<longleftrightarrow> (\<exists>a. nodes w p = Some (Dir a))"
  by (auto simp: is_dir_def split: option.splits node.splits)

lemma is_dir_node_iff: "is_dir_node n \<longleftrightarrow> (\<exists>a. n = Dir a)"
  by (cases n) auto

lemma is_dir_nodes_cong: "nodes w p = nodes w' p \<Longrightarrow> is_dir w p = is_dir w' p"
  by (simp add: is_dir_def)

lemma is_dir_upd [simp]: "is_dir (w\<lparr>faults := f\<rparr>) p = is_dir w p"
  by (simp add: is_dir_def)

lemma absent_errno_upd [simp]: "absent_errno (w\<lparr>faults := f\<rparr>) p = absent_errno w p"
  by (simp add: absent_errno_def)

lemma at_path_rooted [simp]: "is_rooted p \<Longrightarrow> at_path w p = comps p"
  by (simp add: at_path_def)

lemma is_rooted_abs: "abs_path p \<Longrightarrow> is_rooted p"
  by (auto simp: abs_path_def)

lemma at_path_upd [simp]: "at_path (w\<lparr>faults := f\<rparr>) p = at_path w p"
  by (simp add: at_path_def)

lemma stat_node_None [simp]: "nodes w q = None \<Longrightarrow> stat_node w q = Inl (absent_errno w q)"
  unfolding stat_node_def by (subst follow.simps) simp

lemma stat_node_Dir [simp]: "nodes w q = Some (Dir a) \<Longrightarrow> stat_node w q = Inr (Dir a)"
  unfolding stat_node_def by (subst follow.simps) simp

lemma stat_node_Regular [simp]:
  "nodes w q = Some (Regular a c) \<Longrightarrow> stat_node w q = Inr (Regular a c)"
  unfolding stat_node_def by (subst follow.simps) simp

lemma stat_node_CharDev [simp]:
  "nodes w q = Some (CharDev a d) \<Longrightarrow> stat_node w q = Inr (CharDev a d)"
  unfolding stat_node_def by (subst follow.simps) simp

lemma stat_node_BlockDev [simp]: "nodes w q = Some (BlockDev a d) \<Longrightarrow> stat_node w q = Inr (BlockDev a d)"
  unfolding stat_node_def by (subst follow.simps) simp

lemma follow_cong: "nodes w = nodes w' \<Longrightarrow> follow k w q = follow k w' q"
  by (induction k arbitrary: q) (auto simp: absent_errno_def split: option.splits node.splits)

lemma stat_node_upd [simp]: "stat_node (w\<lparr>faults := f\<rparr>) q = stat_node w q"
  unfolding stat_node_def by (rule follow_cong) simp

text \<open>A name that is found is not absent; an absent one is \<open>ENOENT\<close> under directories.\<close>

lemma absent_errno_cases: "absent_errno w p = ENOENT \<or> absent_errno w p = ENOTDIR"
  by (simp add: absent_errno_def)

section \<open>How a call can return\<close>

lemma faulty_cases:
  assumes "faulty f m w = (r, w')"
  obtains (run) fs where "m (w\<lparr>faults := fs\<rparr>) = (r, w')"
    | (fault) e k fs where "f e k (w\<lparr>faults := fs\<rparr>) = (r, w')"
  using assms by (auto simp: faulty_def split: list.splits option.splits prod.splits)
    (metis world.surjective world.update_convs(2))

lemma os_stat_cases [sys_cases]:
  "os_stat p w = (r, w') \<Longrightarrow>
     (\<exists>fs. w' = w\<lparr>faults := fs\<rparr>) \<and>
     (case r of Inr n \<Rightarrow> stat_node w (at_path w p) = Inr n | Inl e \<Rightarrow> (\<exists>x. e = PathErr ''stat'' p x))"
  unfolding os_stat_def by (erule faulty_cases) (auto simp: sysfail_def split: sum.splits)

lemma os_lstat_cases [sys_cases]:
  "os_lstat p w = (r, w') \<Longrightarrow>
     (\<exists>fs. w' = w\<lparr>faults := fs\<rparr>) \<and>
     (case r of Inr n \<Rightarrow> nodes w (at_path w p) = Some n | Inl e \<Rightarrow> (\<exists>x. e = PathErr ''lstat'' p x))"
  unfolding os_lstat_def by (erule faulty_cases) (auto simp: sysfail_def split: option.splits)

lemma os_read_dir_cases [sys_cases]:
  "os_read_dir p w = (r, w') \<Longrightarrow>
     (\<exists>fs. w' = w\<lparr>faults := fs\<rparr>) \<and>
     (case r of Inr ns \<Rightarrow> ns = child_names w (at_path w p) | Inl e \<Rightarrow> (\<exists>op x. e = PathErr op p x))"
  unfolding os_read_dir_def
  by (erule faulty_cases) (auto simp: sysfail_def split: sum.splits if_splits)

lemma os_read_file_cases [sys_cases]:
  "os_read_file p w = (r, w') \<Longrightarrow>
     (\<exists>fs. w' = w\<lparr>faults := fs\<rparr>) \<and>
     (case r of
        Inr c \<Rightarrow> (\<exists>n. stat_node w (at_path w p) = Inr n \<and> c = (case n of Regular a c' \<Rightarrow> c' | _ \<Rightarrow> []) \<and> \<not> is_dir_node n)
      | Inl e \<Rightarrow> (\<exists>op x. e = PathErr op p x))"
  unfolding os_read_file_def
  by (erule faulty_cases) (auto simp: sysfail_def split: sum.splits node.splits)

lemma os_open_cases [sys_cases]:
  "os_open p w = (r, w') \<Longrightarrow>
     (\<exists>fs. w' = w\<lparr>faults := fs\<rparr>) \<and>
     (case r of Inr _ \<Rightarrow> (\<exists>n. stat_node w (at_path w p) = Inr n) | Inl e \<Rightarrow> (\<exists>op x. e = PathErr op p x))"
  unfolding os_open_def by (erule faulty_cases) (auto simp: sysfail_def split: sum.splits)

lemma os_mkdir_cases [sys_cases]:
  assumes "os_mkdir p perm w = (r, w')"
  shows "(\<exists>e fs. r = Inl (PathErr ''mkdir'' p e) \<and> w' = w\<lparr>faults := fs\<rparr>) \<or>
    (\<exists>a fs. r = Inr () \<and> nodes w (at_path w p) = None \<and> is_dir w (butlast (at_path w p)) \<and>
       w' = put (at_path w p) (Dir a) (w\<lparr>faults := fs\<rparr>))"
  using assms unfolding os_mkdir_def
  by (elim faulty_cases) (auto simp: sysfail_def Let_def split: if_splits)

lemma os_symlink_cases [sys_cases]:
  assumes "os_symlink t p w = (r, w')"
  shows "(\<exists>e fs. r = Inl (PathErr ''symlink'' p e) \<and> w' = w\<lparr>faults := fs\<rparr>) \<or>
    (\<exists>fs. r = Inr () \<and> nodes w (at_path w p) = None \<and> is_dir w (butlast (at_path w p)) \<and>
       w' = put (at_path w p) (Symlink t) (w\<lparr>faults := fs\<rparr>))"
  using assms unfolding os_symlink_def
  by (elim faulty_cases) (auto simp: sysfail_def Let_def split: if_splits)

lemma open_create_cases [sys_cases]:
  assumes "open_create t p perm w = (r, w')"
  shows "(\<exists>e fs. r = Inl (PathErr ''open'' p e) \<and> w' = w\<lparr>faults := fs\<rparr>) \<or>
    (\<exists>a fs. r = Inr () \<and> nodes w (at_path w p) = None \<and> is_dir w (butlast (at_path w p)) \<and>
       w' = put (at_path w p) (Regular a []) (w\<lparr>faults := fs\<rparr>)) \<or>
    (\<exists>a c fs. r = Inr () \<and> nodes w (at_path w p) = Some (Regular a c) \<and>
       w' = (if t then put (at_path w p) (Regular a []) (w\<lparr>faults := fs\<rparr>) else w\<lparr>faults := fs\<rparr>))"
  using assms unfolding open_create_def
  by (elim faulty_cases) (auto simp: sysfail_def Let_def split: if_splits option.splits node.splits)

lemma open_excl_cases [sys_cases]:
  assumes "open_excl p perm w = (r, w')"
  shows "(\<exists>e fs. r = Inl (PathErr ''open'' p e) \<and> w' = w\<lparr>faults := fs\<rparr>) \<or>
    (\<exists>a fs. r = Inr () \<and> nodes w (at_path w p) = None \<and> is_dir w (butlast (at_path w p)) \<and>
       w' = put (at_path w p) (Regular a []) (w\<lparr>faults := fs\<rparr>))"
  using assms unfolding open_excl_def
  by (elim faulty_cases) (auto simp: sysfail_def Let_def split: if_splits)

lemma write_all_cases [sys_cases]:
  assumes "write_all p s w = (r, w')"
  shows "(\<exists>e k fs. r = Inl (PathErr ''write'' p e) \<and>
       w' = append_to (at_path w p) (take k s) (w\<lparr>faults := fs\<rparr>)) \<or>
    (\<exists>fs. r = Inr () \<and> w' = append_to (at_path w p) s (w\<lparr>faults := fs\<rparr>))"
  using assms unfolding write_all_def by (elim faulty_cases) auto

lemma os_remove_cases [sys_cases]:
  assumes "os_remove p w = (r, w')"
  shows "(\<exists>e fs. r = Inl (PathErr ''remove'' p e) \<and> w' = w\<lparr>faults := fs\<rparr>) \<or>
    (\<exists>n fs. r = Inr () \<and> nodes w (at_path w p) = Some n \<and>
       (is_dir_node n \<longrightarrow> child_names w (at_path w p) = []) \<and>
       w' = prune (\<lambda>r. r = at_path w p) (w\<lparr>faults := fs\<rparr>))"
  using assms unfolding os_remove_def
  by (elim faulty_cases) (auto simp: sysfail_def Let_def split: if_splits option.splits)

lemma removable_upd: "removable (w\<lparr>faults := fs\<rparr>) q = removable w q"
  by (simp add: removable_def mounted_below_def fun_eq_iff)

lemma os_remove_all_cases [sys_cases]:
  assumes "os_remove_all p w = (r, w')"
  shows "(\<exists>e D fs. r = Inl (PathErr ''unlinkat'' p e) \<and> (\<forall>q. D q \<longrightarrow> removable w (at_path w p) q) \<and>
       w' = prune D (w\<lparr>faults := fs\<rparr>)) \<or>
    (\<exists>fs. r = Inr () \<and> mounted_below w (at_path w p) = [] \<and>
       w' = prune (prefix (at_path w p)) (w\<lparr>faults := fs\<rparr>))"
  using assms unfolding os_remove_all_def
proof (elim faulty_cases)
  fix fs
  assume "(let q = at_path (w\<lparr>faults := fs\<rparr>) p in
      (if mounted_below (w\<lparr>faults := fs\<rparr>) q = [] then Inr () else Inl (PathErr ''unlinkat'' p EBUSY),
       prune (removable (w\<lparr>faults := fs\<rparr>) q) (w\<lparr>faults := fs\<rparr>))) = (r, w')"
  moreover have "removable (w\<lparr>faults := fs\<rparr>) q = removable w q" for q by (rule removable_upd)
  moreover have "mounted_below w q = [] \<Longrightarrow> removable w q = prefix q" for q
    by (auto simp: removable_def fun_eq_iff)
  moreover have "mounted_below (w\<lparr>faults := fs\<rparr>) q = mounted_below w q" for q
    by (simp add: mounted_below_def)
  ultimately show ?thesis
    by (cases "mounted_below w (at_path w p) = []") (auto simp: Let_def)
next
  fix e k fs
  let ?D = "\<lambda>q. q \<in> set (take k (removal_order (w\<lparr>faults := fs\<rparr>) (at_path w p)))"
  assume "(Inl (PathErr ''unlinkat'' p e),
      let victims = take k (removal_order (w\<lparr>faults := fs\<rparr>) (at_path (w\<lparr>faults := fs\<rparr>) p))
      in prune (\<lambda>r. r \<in> set victims) (w\<lparr>faults := fs\<rparr>)) = (r, w')"
  then have "r = Inl (PathErr ''unlinkat'' p e) \<and> w' = prune ?D (w\<lparr>faults := fs\<rparr>)"
    by (simp add: Let_def)
  moreover have "\<forall>q. ?D q \<longrightarrow> removable w (at_path w p) q"
  proof (intro allI impI)
    fix q
    assume "?D q"
    then have "q \<in> set (removal_order (w\<lparr>faults := fs\<rparr>) (at_path w p))" by (rule in_set_takeD)
    then show "removable w (at_path w p) q"
      unfolding removal_order_def removable_upd set_rev set_sort set_filter by blast
  qed
  ultimately show ?thesis by (intro disjI1 exI [of _ e] exI [of _ ?D] exI [of _ fs]) simp
qed

lemma os_rename_cases [sys_cases]:
  assumes "os_rename a b w = (r, w')"
  shows "(\<exists>e fs. r = Inl (PathErr ''rename'' a e) \<and> w' = w\<lparr>faults := fs\<rparr>) \<or>
    (\<exists>fs. r = Inr () \<and> at_path w a = at_path w b \<and> nodes w (at_path w a) \<noteq> None \<and> w' = w\<lparr>faults := fs\<rparr>) \<or>
    (\<exists>n fs. r = Inr () \<and> nodes w (at_path w a) = Some n \<and> \<not> is_dir w (at_path w b) \<and>
       \<not> prefix (at_path w a) (at_path w b) \<and> is_dir w (butlast (at_path w b)) \<and>
       (is_dir_node n \<longrightarrow> nodes w (at_path w b) = None) \<and>
       w' = move (at_path w a) (at_path w b) (w\<lparr>faults := fs\<rparr>))"
  using assms unfolding os_rename_def
  by (elim faulty_cases) (auto simp: sysfail_def Let_def split: if_splits option.splits)

lemma change_attr_cases [sys_cases]:
  assumes "change_attr op p f w = (r, w')"
  shows "(\<exists>e fs. r = Inl (PathErr op p e) \<and> w' = w\<lparr>faults := fs\<rparr>) \<or>
    (\<exists>n fs. r = Inr () \<and> nodes w (at_path w p) = Some n \<and>
       w' = put (at_path w p) (map_attr f n) (w\<lparr>faults := fs\<rparr>))"
  using assms unfolding change_attr_def
  by (elim faulty_cases) (auto simp: sysfail_def Let_def split: option.splits)

lemma os_truncate_cases [sys_cases]:
  assumes "os_truncate p n w = (r, w')"
  shows "(\<exists>e fs. r = Inl (PathErr ''truncate'' p e) \<and> w' = w\<lparr>faults := fs\<rparr>) \<or>
    (\<exists>a c fs. r = Inr () \<and> nodes w (at_path w p) = Some (Regular a c) \<and>
       w' = put (at_path w p) (Regular a (take n c @ replicate (n - length c) CHR 0x00)) (w\<lparr>faults := fs\<rparr>))"
  using assms unfolding os_truncate_def
  by (elim faulty_cases) (auto simp: sysfail_def Let_def split: option.splits node.splits)

lemma mknod_cases [sys_cases]:
  assumes "mknod p mk perm w = (r, w')"
  shows "(\<exists>e fs. r = Inl (SysErr e) \<and> w' = w\<lparr>faults := fs\<rparr>) \<or>
    (\<exists>a fs. r = Inr () \<and> nodes w (at_path w p) = None \<and> is_dir w (butlast (at_path w p)) \<and>
       w' = put (at_path w p) (mk a) (w\<lparr>faults := fs\<rparr>))"
  using assms unfolding mknod_def
  by (elim faulty_cases) (auto simp: Let_def split: if_splits)

lemma flock_cases [sys_cases]:
  assumes "flock q m w = (r, w')"
  shows "(\<exists>e fs. r = Inl e \<and> (\<forall>op p x. e \<noteq> PathErr op p x) \<and> w' = w\<lparr>faults := fs\<rparr>) \<or>
    (\<exists>fs. r = Inr () \<and> \<not> conflicting (flocks w) q m \<and> w' = w\<lparr>faults := fs, flocks := (q, m) # flocks w\<rparr>)"
  using assms unfolding flock_def
  by (elim faulty_cases) (auto simp: conflicting_def split: if_splits)

lemma unix_mount_cases [sys_cases]:
  assumes "unix_mount src p d w = (r, w')"
  shows "(\<exists>e fs. r = Inl (SysErr e) \<and> w' = w\<lparr>faults := fs\<rparr>) \<or>
    (\<exists>fs. r = Inr () \<and> is_dir w (at_path w p) \<and>
       w' = w\<lparr>faults := fs, mount_points := at_path w p # mount_points w,
              events := events w @ [Mounted src p d]\<rparr>)"
  using assms unfolding unix_mount_def
  by (elim faulty_cases) (auto simp: Let_def split: if_splits)

lemma unix_unmount_cases [sys_cases]:
  assumes "unix_unmount p w = (r, w')"
  shows "(\<exists>e fs. r = Inl (SysErr e) \<and> w' = w\<lparr>faults := fs\<rparr>) \<or>
    (\<exists>fs. r = Inr () \<and> at_path w p \<in> set (mount_points w) \<and>
       w' = w\<lparr>faults := fs, mount_points := remove1 (at_path w p) (mount_points w)\<rparr>)"
  using assms unfolding unix_unmount_def
  by (elim faulty_cases) (auto simp: Let_def split: if_splits)

lemma os_chdir_cases [sys_cases]:
  assumes "os_chdir p w = (r, w')"
  shows "(\<exists>e fs. r = Inl (PathErr ''chdir'' p e) \<and> w' = w\<lparr>faults := fs\<rparr>) \<or>
    (\<exists>fs. r = Inr () \<and> w' = w\<lparr>faults := fs, workdir := at_path w p\<rparr>)"
  using assms unfolding os_chdir_def
  by (elim faulty_cases) (auto simp: sysfail_def split: sum.splits if_splits)

section \<open>Frames\<close>

definition frozen :: "(path \<Rightarrow> bool) \<Rightarrow> world \<Rightarrow> world \<Rightarrow> bool" where
  "frozen P v w \<longleftrightarrow> (\<forall>p. P p \<longrightarrow> nodes w p = nodes v p)"

definition off_tree :: "(world \<Rightarrow> bool) \<Rightarrow> bool" where
  "off_tree I \<longleftrightarrow> (\<forall>w t fs. I w \<longrightarrow> I (w\<lparr>tree := t, faults := fs\<rparr>))"

definition on_tree :: "(world \<Rightarrow> bool) \<Rightarrow> bool" where
  "on_tree I \<longleftrightarrow> (\<forall>w w'. nodes w = nodes w' \<longrightarrow> I w \<longrightarrow> I w')"

definition only_tree :: "'a sys \<Rightarrow> bool" where
  "only_tree m \<longleftrightarrow> (\<forall>w r w'. m w = (r, w') \<longrightarrow> (\<exists>t fs. w' = w\<lparr>tree := t, faults := fs\<rparr>))"

lemma frozen_refl [simp]: "frozen P w w"
  by (simp add: frozen_def)

lemma frozenD: "frozen P v w \<Longrightarrow> P p \<Longrightarrow> nodes w p = nodes v p"
  by (simp add: frozen_def)

lemma frozen_mono: "frozen P v w \<Longrightarrow> (\<And>p. Q p \<Longrightarrow> P p) \<Longrightarrow> frozen Q v w"
  by (simp add: frozen_def)

lemma on_tree_frozen [intro!, simp]: "on_tree (frozen P v)"
  by (simp add: on_tree_def frozen_def)

lemma frozen_upd [simp]:
  "frozen P v (w\<lparr>faults := f\<rparr>) = frozen P v w" "frozen P (v\<lparr>faults := f\<rparr>) w = frozen P v w"
  by (simp_all add: frozen_def)

lemma off_treeD: "off_tree I \<Longrightarrow> I w \<Longrightarrow> I (w\<lparr>tree := t, faults := fs\<rparr>)"
  by (auto simp: off_tree_def)

lemma on_treeD: "on_tree I \<Longrightarrow> I w \<Longrightarrow> nodes w' = nodes w \<Longrightarrow> I w'"
  unfolding on_tree_def by metis

lemma keeps_off_tree:
  assumes "off_tree I" and "only_tree m"
  shows "keeps I m"
proof (rule keepsI)
  fix w r w'
  assume "I w" and "m w = (r, w')"
  obtain t fs where "w' = w\<lparr>tree := t, faults := fs\<rparr>"
    using assms(2) \<open>m w = (r, w')\<close> unfolding only_tree_def by blast
  with assms(1) \<open>I w\<close> show "I w'" by (simp add: off_treeD)
qed

lemma append_to_fields [simp]:
  "faults (append_to p s w) = faults w" "mount_points (append_to p s w) = mount_points w"
  "workdir (append_to p s w) = workdir w" "umask (append_to p s w) = umask w"
  "ruid (append_to p s w) = ruid w" "rgid (append_to p s w) = rgid w"
  "euid (append_to p s w) = euid w" "flocks (append_to p s w) = flocks w"
  "quotas (append_to p s w) = quotas w" "execs (append_to p s w) = execs w"
  "events (append_to p s w) = events w" "nonces (append_to p s w) = nonces w"
  "search_path (append_to p s w) = search_path w" "pid (append_to p s w) = pid w" "argv0 (append_to p s w) = argv0 w" "tmpdir (append_to p s w) = tmpdir w"
  "statfs_type (append_to p s w) = statfs_type w" "statfs_bsize (append_to p s w) = statfs_bsize w"
  "statfs_blocks (append_to p s w) = statfs_blocks w" "statfs_bfree (append_to p s w) = statfs_bfree w"
  by (simp_all add: append_to_def split: option.split node.split)

text \<open>The shapes a call's effect on the tree has.\<close>

inductive tree_step :: "world \<Rightarrow> world \<Rightarrow> bool" where
  unchanged: "tree_step w (w\<lparr>faults := fs\<rparr>)"
| put: "tree_step w (put p n (w\<lparr>faults := fs\<rparr>))"
| prune: "tree_step w (prune D (w\<lparr>faults := fs\<rparr>))"
| move: "tree_step w (move a b (w\<lparr>faults := fs\<rparr>))"
| append: "tree_step w (append_to p s (w\<lparr>faults := fs\<rparr>))"

lemma tree_step_tree:
  assumes "tree_step w w'"
  obtains t fs where "w' = w\<lparr>tree := t, faults := fs\<rparr>"
proof -
  from assms have "w' = w\<lparr>tree := tree w', faults := faults w'\<rparr>"
    by (induction rule: tree_step.induct)
      (simp_all add: put_def prune_def move_def append_to_def split: option.split node.split)
  then show thesis by (rule that)
qed

lemma only_treeI:
  "(\<And>w r w'. m w = (r, w') \<Longrightarrow> tree_step w w') \<Longrightarrow> only_tree m"
  unfolding only_tree_def by (metis tree_step_tree)

lemma tree_step_calls:
  "os_stat p w = (r1, w') \<Longrightarrow> tree_step w w'" "os_lstat p w = (r2, w') \<Longrightarrow> tree_step w w'"
  "os_read_dir p w = (r3, w') \<Longrightarrow> tree_step w w'"
  "os_read_file p w = (r4, w') \<Longrightarrow> tree_step w w'" "os_open p w = (r5, w') \<Longrightarrow> tree_step w w'"
  "os_mkdir p perm w = (r5, w') \<Longrightarrow> tree_step w w'"
  "os_symlink t p w = (r5, w') \<Longrightarrow> tree_step w w'"
  "open_create b p perm w = (r5, w') \<Longrightarrow> tree_step w w'"
  "write_all p s w = (r5, w') \<Longrightarrow> tree_step w w'" "os_remove p w = (r5, w') \<Longrightarrow> tree_step w w'"
  "os_remove_all p w = (r5, w') \<Longrightarrow> tree_step w w'" "os_rename p q w = (r5, w') \<Longrightarrow> tree_step w w'"
  "change_attr op p f w = (r5, w') \<Longrightarrow> tree_step w w'"
  "os_truncate p k w = (r5, w') \<Longrightarrow> tree_step w w'"
  "mknod p mk perm w = (r5, w') \<Longrightarrow> tree_step w w'" "open_excl p perm w = (r5, w') \<Longrightarrow> tree_step w w'"
  by (drule sys_cases, elim conjE exE disjE; auto intro: tree_step.intros)+

lemmas only_tree_calls [simp] = tree_step_calls [THEN only_treeI]

text \<open>Operations composed of such calls.\<close>

lemma only_treeD:
  "only_tree m \<Longrightarrow> m w = (r, w') \<Longrightarrow> \<exists>t fs. w' = w\<lparr>tree := t, faults := fs\<rparr>"
  by (auto simp: only_tree_def)

lemma only_tree_iff_keeps:
  "only_tree m \<longleftrightarrow> (\<forall>v. keeps (\<lambda>w. \<exists>t fs. w = v\<lparr>tree := t, faults := fs\<rparr>) m)"
proof
  assume "only_tree m"
  then show "\<forall>v. keeps (\<lambda>w. \<exists>t fs. w = v\<lparr>tree := t, faults := fs\<rparr>) m"
    by (intro allI keepsI) (elim exE, hypsubst, drule (1) only_treeD, force)
next
  assume *: "\<forall>v. keeps (\<lambda>w. \<exists>t fs. w = v\<lparr>tree := t, faults := fs\<rparr>) m"
  have "\<exists>t fs. w' = w\<lparr>tree := t, faults := fs\<rparr>" if "m w = (r, w')" for w r w'
  proof -
    have "w = w\<lparr>tree := tree w, faults := faults w\<rparr>" by simp
    then show ?thesis using * that by (blast dest: keepsD)
  qed
  then show "only_tree m" by (simp add: only_tree_def)
qed

lemma only_tree_flow [simp]:
  "only_tree (ret x)" "only_tree (throw e)" "only_tree (wrapping s e)" "only_tree (give_back r)"
  "only_tree m \<Longrightarrow> (\<And>e. only_tree (h e)) \<Longrightarrow> (\<And>x. only_tree (k x)) \<Longrightarrow> only_tree (checked m h k)"
  "only_tree m \<Longrightarrow> only_tree n \<Longrightarrow> only_tree (logged m n)"
  "only_tree m \<Longrightarrow> (\<And>r. only_tree (d r)) \<Longrightarrow> only_tree (deferred m d)"
  "only_tree m \<Longrightarrow> (\<And>r. only_tree (d r)) \<Longrightarrow> only_tree (observed m d)"
  "(\<And>x. x \<in> set xs \<Longrightarrow> only_tree (f x)) \<Longrightarrow> only_tree (for_each xs f)"
  by (simp_all add: only_tree_iff_keeps keeps_intro)

lemma only_tree_composed [simp]:
  "only_tree (os_write_file p s perm)" "only_tree (os_create p)" "only_tree (os_chmod p m)"
  "only_tree (os_chown p u g)" "only_tree (mkdir_missing perm q)"
  by (simp_all add: os_write_file_def os_create_def os_chmod_def os_chown_def mkdir_missing_def)

lemma only_tree_mkdir_all [simp]: "only_tree (os_mkdir_all p perm)"
proof (rule only_tree_def [THEN iffD2], intro allI impI)
  fix w r w'
  assume "os_mkdir_all p perm w = (r, w')"
  then show "\<exists>t fs. w' = w\<lparr>tree := t, faults := fs\<rparr>"
    unfolding os_mkdir_all_def by (rule only_treeD [rotated]) simp
qed

text \<open>Calls that only read keep what looks only at the tree.\<close>

lemma keeps_on_tree [keeps_intro]:
  assumes "on_tree I"
  shows "keeps I (os_stat p)" "keeps I (os_lstat p)" "keeps I (os_read_dir p)"
    "keeps I (os_read_file p)" "keeps I (os_open p)"
  by (rule keepsI, drule sys_cases, elim conjE exE, rule on_treeD [OF assms]; simp)+

lemma keeps_machine [keeps_intro]:
  assumes "on_tree I"
  shows "keeps I (flock q m)" "keeps I (open_file p)" "keeps I (unix_mount a p d)" "keeps I (unix_unmount p)"
    "keeps I (os_chdir p)" "keeps I (exec_command c args)" "keeps I nonce" "keeps I (emit ev)"
    "keeps I getuid" "keeps I getgid"
proof -
  show "keeps I (open_file p)"
    by (rule keepsI) (simp add: open_file_def)
  show "keeps I (flock q m)" "keeps I (unix_mount a p d)" "keeps I (unix_unmount p)"
    "keeps I (os_chdir p)"
    by (rule keepsI, drule sys_cases, elim disjE conjE exE; rule on_treeD [OF assms]; simp)+
  show "keeps I (exec_command c args)"
  proof (rule keepsI)
    fix w r w'
    assume "I w" and "exec_command c args w = (r, w')"
    moreover from this have "nodes w' = nodes w"
      by (auto simp: exec_command_def Let_def split: list.splits)
    ultimately show "I w'" using assms on_treeD by blast
  qed
  show "keeps I nonce" "keeps I (emit ev)" "keeps I getuid" "keeps I getgid"
    by (rule keepsI, erule on_treeD [OF assms];
        auto simp: nonce_def emit_def getuid_def getgid_def split: list.splits)+
qed

text \<open>A call keeps the nodes it cannot reach.\<close>

definition misses :: "(path \<Rightarrow> bool) \<Rightarrow> string \<Rightarrow> bool" where
  "misses P p \<longleftrightarrow> is_rooted p \<and> \<not> P (comps p)"

definition misses_below :: "(path \<Rightarrow> bool) \<Rightarrow> string \<Rightarrow> bool" where
  "misses_below P p \<longleftrightarrow> is_rooted p \<and> (\<forall>q. prefix (comps p) q \<longrightarrow> \<not> P q)"

definition misses_above :: "(path \<Rightarrow> bool) \<Rightarrow> string \<Rightarrow> bool" where
  "misses_above P p \<longleftrightarrow> is_rooted p \<and> (\<forall>q. q \<noteq> [] \<longrightarrow> prefix q (comps p) \<longrightarrow> \<not> P q)"

lemma misses_below_misses: "misses_below P p \<Longrightarrow> misses P p"
  by (simp add: misses_def misses_below_def)

lemma nodes_append_to_other: "p \<noteq> q \<Longrightarrow> nodes (append_to q s w) p = nodes w p"
  by (simp add: append_to_def split: option.split node.split)

text \<open>\<open>touches m D\<close>: only the nodes at paths in \<open>D\<close> can change.\<close>

definition touches :: "'a sys \<Rightarrow> (world \<Rightarrow> path \<Rightarrow> bool) \<Rightarrow> bool" where
  "touches m D \<longleftrightarrow> (\<forall>w r w' q. m w = (r, w') \<longrightarrow> \<not> D w q \<longrightarrow> nodes w' q = nodes w q)"

lemma keeps_touches:
  assumes "touches m D" and "\<And>w q. P q \<Longrightarrow> \<not> D w q"
  shows "keeps (frozen P v) m"
proof (rule keepsI)
  fix w r w'
  assume "frozen P v w" and "m w = (r, w')"
  moreover have "nodes w' q = nodes w q" if "P q" for q
    using assms(1) assms(2) [OF that] \<open>m w = (r, w')\<close> unfolding touches_def by blast
  ultimately show "frozen P v w'" by (simp add: frozen_def)
qed

lemma touches_calls:
  "touches (os_mkdir p perm) (\<lambda>w q. q = at_path w p)" "touches (os_symlink t p) (\<lambda>w q. q = at_path w p)"
  "touches (open_create b p perm) (\<lambda>w q. q = at_path w p)"
  "touches (write_all p s) (\<lambda>w q. q = at_path w p)" "touches (os_remove p) (\<lambda>w q. q = at_path w p)"
  "touches (change_attr op p f) (\<lambda>w q. q = at_path w p)"
  "touches (os_truncate p k) (\<lambda>w q. q = at_path w p)" "touches (mknod p mk perm) (\<lambda>w q. q = at_path w p)"
  "touches (open_excl p perm) (\<lambda>w q. q = at_path w p)"
  unfolding touches_def
  by (intro allI impI, drule sys_cases, elim disjE conjE exE;
      simp add: nodes_append_to_other split: if_splits)+

lemma touches_remove_all: "touches (os_remove_all p) (\<lambda>w q. prefix (at_path w p) q)"
  unfolding touches_def
  by (intro allI impI, drule os_remove_all_cases, elim disjE conjE exE;
      auto simp: removable_def)

lemma keeps_frozen_calls [keeps_intro]:
  assumes "misses P p"
  shows "keeps (frozen P v) (os_mkdir p perm)" "keeps (frozen P v) (os_symlink t p)"
    "keeps (frozen P v) (open_create b p perm)" "keeps (frozen P v) (write_all p s)"
    "keeps (frozen P v) (os_remove p)" "keeps (frozen P v) (change_attr op p f)"
    "keeps (frozen P v) (os_truncate p k)" "keeps (frozen P v) (mknod p mk perm)"
    "keeps (frozen P v) (open_excl p perm)"
  using assms by (auto intro!: touches_calls [THEN keeps_touches] simp: misses_def)

lemma keeps_frozen_composed [keeps_intro]:
  assumes "misses P p"
  shows "keeps (frozen P v) (os_write_file p s perm)" "keeps (frozen P v) (os_create p)"
    "keeps (frozen P v) (os_chmod p m)" "keeps (frozen P v) (os_chown p u g)"
  unfolding os_write_file_def os_create_def os_chmod_def os_chown_def
  by (intro keeps_intro assms)+

lemma keeps_frozen_mkdir_all [keeps_intro]:
  assumes "abs_path p" and "misses_above P p"
  shows "keeps (frozen P v) (os_mkdir_all p perm)"
proof -
  have "keeps (frozen P v) (mkdir_missing perm q)" if q: "q \<noteq> []" "prefix q (comps p)" for q
  proof -
    have "list_all plain_name q"
      using abs_path_plain [OF assms(1)] q(2) by (auto simp: prefix_def)
    then have "misses P (path_of q)" using assms(2) q by (simp add: misses_def misses_above_def)
    then show ?thesis unfolding mkdir_missing_def by (intro keeps_intro) auto
  qed
  then have "keeps (frozen P v) (mkdir_missing perm q)"
    if q: "q \<in> set (map (\<lambda>i. take i (comps p)) [1..<Suc (length (comps p))])" for q
  proof -
    obtain i where "q = take i (comps p)" and "1 \<le> i" and "i < Suc (length (comps p))"
      using q by (auto simp del: upt_Suc)
    then have "q \<noteq> []" and "prefix q (comps p)" by (auto simp: take_is_prefix)
    then show ?thesis using \<open>\<And>q. q \<noteq> [] \<Longrightarrow> prefix q (comps p) \<Longrightarrow> keeps (frozen P v) (mkdir_missing perm q)\<close>
      by blast
  qed
  then have "keeps (frozen P v)
      (for_each (map (\<lambda>i. take i (comps p)) [1..<Suc (length (comps p))]) (mkdir_missing perm))"
    by (intro keeps_intro)
  moreover have "is_rooted p" using assms(2) by (simp add: misses_above_def)
  ultimately show ?thesis by (auto simp: os_mkdir_all_def intro!: keepsI dest: keepsD)
qed

lemma keeps_frozen_remove_all [keeps_intro]:
  "misses_below P p \<Longrightarrow> keeps (frozen P v) (os_remove_all p)"
  by (rule touches_remove_all [THEN keeps_touches]) (auto simp: misses_below_def)

lemma nodes_move_other:
  assumes "\<not> prefix a r" and "\<not> prefix b r"
  shows "nodes (move a b w) r = nodes w r"
proof -
  let ?f = "\<lambda>q. if prefix a q then b @ drop (length a) q else q"
  let ?t = "filter (\<lambda>(q, _). \<not> prefix b q) (tree w)"
  have eq: "tree (move a b w) = map (\<lambda>(x, n). (?f x, n)) ?t"
    by (auto simp: move_def intro!: map_cong)
  have "map_of (map (\<lambda>(x, n). (?f x, n)) ?t) r = map_of ?t r"
    by (rule map_of_rekey) (use assms in \<open>auto simp: prefix_def\<close>)
  also have "\<dots> = map_of (tree w) r"
    using map_of_filter_key [of "\<lambda>q. \<not> prefix b q" "tree w"] assms(2) by simp
  finally show ?thesis by (simp add: nodes_def eq)
qed

lemma touches_rename:
  "touches (os_rename a b) (\<lambda>w q. prefix (at_path w a) q \<or> prefix (at_path w b) q)"
  unfolding touches_def
  by (intro allI impI, drule os_rename_cases, elim disjE conjE exE; simp add: nodes_move_other)

lemma keeps_frozen_rename [keeps_intro]:
  "misses_below P a \<Longrightarrow> misses_below P b \<Longrightarrow> keeps (frozen P v) (os_rename a b)"
  by (rule touches_rename [THEN keeps_touches]) (auto simp: misses_below_def)

section \<open>The remaining combinators\<close>

lemma keeps_missing [keeps_intro]:
  "keeps I m \<Longrightarrow> (\<And>e. keeps I (h e)) \<Longrightarrow> keeps I k \<Longrightarrow> keeps I (if_missing m h k)"
  "keeps I m \<Longrightarrow> (\<And>e. keeps I (h e)) \<Longrightarrow> keeps I k \<Longrightarrow> keeps I (unless_missing m h k)"
  by (simp_all add: if_missing_def unless_missing_def keeps_intro)

lemma keeps_ranged [keeps_intro]: "keeps I nonce \<Longrightarrow> keeps I (ranged xs)"
  by (simp add: ranged_def keeps_intro)

lemma if_missing_InrE:
  assumes "if_missing m h k w = (Inr y, w2)" and "\<And>e v. h e v \<noteq> (Inr y, w2)"
  obtains r w1 where "m w = (r, w1)" and "k w1 = (Inr y, w2)"
    and "case r of Inl e \<Rightarrow> \<not> is_not_exist e | Inr _ \<Rightarrow> True"
  using assms unfolding if_missing_def
  by (auto elim!: checked_InrE split: if_splits)

lemma unless_missing_InrE:
  assumes "unless_missing m h k w = (Inr y, w2)" and "\<And>e v. h e v \<noteq> (Inr y, w2)"
  obtains r w1 where "m w = (r, w1)" and "k w1 = (Inr y, w2)"
    and "case r of Inl e \<Rightarrow> is_not_exist e | Inr _ \<Rightarrow> True"
  using assms unfolding unless_missing_def
  by (auto elim!: checked_InrE split: if_splits)

lemma mset_shuffle [simp]: "mset (shuffle n xs) = mset xs"
proof (induction n xs rule: shuffle.induct)
  case (2 n x xs)
  let ?ys = "shuffle (n div Suc (length xs)) xs" and ?i = "n mod Suc (length xs)"
  have "mset (take ?i ?ys) + mset (drop ?i ?ys) = mset ?ys"
    by (metis append_take_drop_id mset_append)
  then show ?case using 2 by (simp add: Let_def)
qed simp

lemma set_shuffle [simp]: "set (shuffle n xs) = set xs"
  by (metis mset_shuffle set_mset_mset)

lemma distinct_shuffle [simp]: "distinct (shuffle n xs) = distinct xs"
  by (metis mset_shuffle mset_eq_imp_distinct_iff)

lemma ranged_Inr: "ranged xs w = (r, w') \<Longrightarrow> \<exists>n. r = Inr (shuffle n xs) \<and> nodes w' = nodes w"
  by (auto simp: ranged_def nonce_def checked_def split: list.splits)

text \<open>An invariant that looks only at some paths is kept by what misses them.\<close>

lemma keeps_via_frozen:
  assumes "\<And>w w'. frozen P w w' \<Longrightarrow> I w \<Longrightarrow> I w'" and "\<And>v. keeps (frozen P v) m"
  shows "keeps I m"
  by (rule keepsI) (metis assms frozen_refl keepsD)

lemma stat_node_Symlink:
  "nodes w q = Some (Symlink t) \<Longrightarrow> is_rooted t \<Longrightarrow> nodes w (comps t) = Some (Dir a) \<Longrightarrow>
     stat_node w q = Inr (Dir a)"
  "nodes w q = Some (Symlink t) \<Longrightarrow> is_rooted t \<Longrightarrow> nodes w (comps t) = None \<Longrightarrow>
     stat_node w q = Inl (absent_errno w (comps t))"
proof -
  have two: "stat_node w q = follow (Suc (Suc 38)) w q" by (simp add: stat_node_def)
  show "nodes w q = Some (Symlink t) \<Longrightarrow> is_rooted t \<Longrightarrow> nodes w (comps t) = Some (Dir a) \<Longrightarrow>
     stat_node w q = Inr (Dir a)"
    unfolding two follow.simps(2) by simp
  show "nodes w q = Some (Symlink t) \<Longrightarrow> is_rooted t \<Longrightarrow> nodes w (comps t) = None \<Longrightarrow>
     stat_node w q = Inl (absent_errno w (comps t))"
    unfolding two follow.simps(2) by simp
qed

text \<open>Regular files on a machine without faults.\<close>

lemma stat_regular [sys_ok]: "nodes w q = Some (Regular a c) \<Longrightarrow> at_path w p = q \<Longrightarrow> faults w = [] \<Longrightarrow>
    os_stat p w = (Inr (Regular a c), w)"
  by (simp add: os_stat_def faulty_def)

lemma open_regular [sys_ok]: "nodes w q = Some (Regular a c) \<Longrightarrow> at_path w p = q \<Longrightarrow> faults w = [] \<Longrightarrow>
    os_open p w = (Inr (), w)"
  by (simp add: os_open_def faulty_def)

lemma read_regular [sys_ok]: "nodes w q = Some (Regular a c) \<Longrightarrow> at_path w p = q \<Longrightarrow> faults w = [] \<Longrightarrow>
    os_read_file p w = (Inr c, w)"
  by (simp add: os_read_file_def faulty_def)

section \<open>A machine to try things on\<close>

definition root_attr :: attr where
  "root_attr = \<lparr>mode = perm_0755, owner_uid = 0, owner_gid = 0, projid = 0, xattrs = []\<rparr>"

definition blank :: world where
  "blank = \<lparr>tree = [([], Dir root_attr)], faults = [], mount_points = [], workdir = [], umask = 0,
     ruid = 0, rgid = 0, euid = 0, flocks = [], quotas = [], execs = [], events = [], nonces = [],
     search_path = [''/bin''], pid = 42, argv0 = ''/bin/grootfs'', tmpdir = ''/tmp'',
     statfs_type = 0x58465342, statfs_bsize = 4096, statfs_blocks = 1000, statfs_bfree = 400,
     source_quota = 0\<rparr>"

end
