(* ===== verification/Groot_Types.thy ===== *)
theory Groot_Types
  imports World_Facts
begin

text \<open>
  The data shared by the components: the structs of package \<open>groot\<close> and the names of
  package \<open>store\<close>. The OCI image configuration is a type of another module; the model
  carries the parts the sources read, the layers' diff ids and the environment.
\<close>

definition GlobalLockKey :: string where "GlobalLockKey = ''global-groot-lock''"
definition GCLockKey :: string where "GCLockKey = ''groot-gc-lock''"
definition MetricImageCreationTime :: string where "MetricImageCreationTime = ''ImageCreationTime''"
definition MetricImageDeletionTime :: string where "MetricImageDeletionTime = ''ImageDeletionTime''"
definition MetricImageStatsTime :: string where "MetricImageStatsTime = ''ImageStatsTime''"
definition MetricImageCleanTime :: string where "MetricImageCleanTime = ''ImageCleanTime''"
definition MetricDiskCachePercentage :: string where
  "MetricDiskCachePercentage = ''DiskCachePercentage''"
definition MetricDiskCommittedPercentage :: string where
  "MetricDiskCommittedPercentage = ''DiskCommittedPercentage''"
definition MetricDiskPurgeableCachePercentage :: string where
  "MetricDiskPurgeableCachePercentage = ''DiskPurgeableCachePercentage''"

record oci_image =
  diff_ids :: "string list"
  image_env :: "string list"

record MountInfo =
  Destination :: string
  mount_type :: string
  Source :: string
  Options :: "string list"

record ImageInfo =
  Rootfs :: string
  info_image :: oci_image
  Mounts :: "MountInfo list"
  info_path :: string

record IDMappingSpec =
  HostID :: int
  NamespaceID :: int
  map_size :: int

record IDMappings =
  UIDMappings :: "IDMappingSpec list"
  GIDMappings :: "IDMappingSpec list"

record BaseImageSpec =
  base_disk_limit :: int
  base_exclude :: bool
  base_uid_mappings :: "IDMappingSpec list"
  base_gid_mappings :: "IDMappingSpec list"
  base_owner_uid :: int
  base_owner_gid :: int

record LayerInfo =
  BlobID :: string
  ChainID :: string
  DiffID :: string
  ParentChainID :: string
  layer_size :: int
  BaseDirectory :: string
  URLs :: "string list"
  MediaType :: string

record BaseImageInfo =
  LayerInfos :: "LayerInfo list"
  base_config :: oci_image

record ImageSpec =
  spec_id :: string
  spec_mount :: bool
  spec_disk_limit :: int
  spec_exclude :: bool
  BaseVolumeIDs :: "string list"
  spec_base_image :: oci_image
  spec_owner_uid :: int
  spec_owner_gid :: int

record DiskUsage =
  TotalBytesUsed :: int
  ExclusiveBytesUsed :: int
  QuotaSizeBytes :: int
  CommittedSpaceBytes :: int

type_synonym VolumeStats = DiskUsage

text \<open>The standard input of a re-executed program is its text.\<close>

record ReexecSpec =
  Stdin :: string
  ChrootDir :: string
  ExtraFiles :: "string list"
  Args :: "string list"
  CloneUserns :: bool

type_synonym reexecer = "string \<Rightarrow> ReexecSpec \<Rightarrow> string sys"

text \<open>Package \<open>store\<close>.\<close>

definition ImageDirName :: string where "ImageDirName = ''images''"
definition VolumesDirName :: string where "VolumesDirName = ''volumes''"
definition LocksDirName :: string where "LocksDirName = ''locks''"
definition MetaDirName :: string where "MetaDirName = ''meta''"
definition TempDirName :: string where "TempDirName = ''tmp''"
definition DefaultStorePath :: string where "DefaultStorePath = ''/var/lib/grootfs''"

definition StoreFolders :: "string list" where
  "StoreFolders = [ImageDirName, VolumesDirName, MetaDirName, LocksDirName, TempDirName,
     filepath_join [MetaDirName, ''dependencies'']]"

lemmas store_names = ImageDirName_def VolumesDirName_def LocksDirName_def MetaDirName_def
  TempDirName_def

lemma plain_store_names [simp]:
  "plain_name ImageDirName" "plain_name VolumesDirName" "plain_name LocksDirName"
  "plain_name MetaDirName" "plain_name TempDirName"
  by (simp_all add: store_names plain_name_def)

lemma join_comps:
  assumes "abs_path s" and "list_all plain_name ns"
  shows "comps (filepath_join (s # ns)) = comps s @ ns" and "is_rooted (filepath_join (s # ns))"
  using abs_path_join [OF assms] by (simp_all add: is_rooted_abs)

end
