(* ===== verification/Mount.thy ===== *)
theory Mount
  imports Groot_Types
begin

text \<open>
  Packages \<open>store/filesystems\<close>, \<open>store/filesystems/mount\<close> and \<open>store/filesystems/loopback\<close>:
  checks of the store's file system, the two unmounters and direct IO on the loop device.
  \<open>rootful_loop\<close> is the retry loop with the attempts left as its argument; it starts at 50.
\<close>

section \<open>mount\<close>

definition mountpoint_says_no :: string where "mountpoint_says_no = ''is not a mountpoint''"

definition isMountPoint :: "string \<Rightarrow> bool sys" where
  "isMountPoint p = checked (exec_command ''/bin/mountpoint'' [p @ ''/'']) throw (\<lambda>r.
     (case r of
        ExecOk _ \<Rightarrow> ret True
      | ExecFail cmdOutput \<Rightarrow>
          if contains cmdOutput mountpoint_says_no then ret False
          else if_missing (os_stat p) (\<lambda>_. ret False) (throw (Msg ''exit status 1''))))"

definition rootless_unmount :: "string \<Rightarrow> unit sys" where
  "rootless_unmount p = checked (isMountPoint p) throw (\<lambda>mounted.
     if mounted then throw (Msg (p @ '' is a mountpoint and cannot be unmounted when running rootless''))
     else ret ())"

fun rootful_loop :: "nat \<Rightarrow> goerr option \<Rightarrow> string \<Rightarrow> unit sys" where
  "rootful_loop 0 err p = (case err of None \<Rightarrow> ret () | Some e \<Rightarrow> throw e)"
| "rootful_loop (Suc n) err p = checked (unix_unmount p)
     (\<lambda>e. if is_not_exist e then ret () else if e = SysErr EINVAL then ret ()
          else rootful_loop n (Some e) p)
     (\<lambda>_. ret ())"

definition rootful_unmount :: "string \<Rightarrow> unit sys" where
  "rootful_unmount p = rootful_loop 50 None p"

section \<open>filesystems\<close>

definition XfsType :: int where "XfsType = 0x58465342"

definition filesystemCode :: "string \<Rightarrow> goerr + int" where
  "filesystemCode filesystem =
     (if filesystem = ''xfs'' then Inr XfsType
      else Inl (Msg (''filesystem '' @ filesystem @ '' is not supported'')))"

definition newline :: char where "newline = CHR 0x0A"

fun check_lines :: "string \<Rightarrow> string \<Rightarrow> string list \<Rightarrow> string list \<Rightarrow> unit sys" where
  "check_lines filesystem p options [] = ret ()"
| "check_lines filesystem p options (mountPoint # ls) =
     (if \<not> contains mountPoint (filesystem @ '' '' @ p) then check_lines filesystem p options ls
      else (case find (\<lambda>option. \<not> contains mountPoint option) options of
          Some option \<Rightarrow> throw (Msg (option @ '' option missing at the mount point '' @ mountPoint))
        | None \<Rightarrow> ret ()))"

definition checkMountOptions :: "string \<Rightarrow> string \<Rightarrow> string list \<Rightarrow> unit sys" where
  "checkMountOptions p filesystem options =
     checked (os_read_file ''/proc/mounts'') (\<lambda>e. throw (Msg (''Failed to open /proc/mounts: '' @ error_text e)))
       (\<lambda>mounts. check_lines filesystem p options (split_on newline mounts))"

definition CheckFSPath :: "string \<Rightarrow> string \<Rightarrow> string list \<Rightarrow> unit sys" where
  "CheckFSPath p filesystem options =
     checked (statfs p) (wrapping ''Failed to detect type of filesystem'') (\<lambda>st.
     (case filesystemCode filesystem of
        Inl e \<Rightarrow> throw e
      | Inr fsType \<Rightarrow>
          if f_type st \<noteq> fsType then
            throw (Msg (''Store path filesystem ('' @ p @ '') is incompatible with native driver (must be XFS mountpoint)''))
          else checkMountOptions p filesystem options))"

section \<open>loopback\<close>

definition FindAssociatedLoopDevice :: "string \<Rightarrow> string sys" where
  "FindAssociatedLoopDevice p =
     checked (os_stat p) throw (\<lambda>_.
     checked (exec_output ''losetup'' [''-j'', p]
         (\<lambda>out. Wrapped (''finding attached loop device: '' @ out) (Msg ''exit status 1''))) throw (\<lambda>output.
     if output = [] then throw (Msg (''no loop device associated with path '' @ p))
     else let losetupColumns = split_on CHR '':'' output in
       if length losetupColumns = 3 then ret (losetupColumns ! 0)
       else throw (Msg (''unexpected losetup output: '' @ output))))"

definition LOOP_SET_DIRECT_IO :: string where "LOOP_SET_DIRECT_IO = ''LOOP_SET_DIRECT_IO''"

definition setDirectIO :: "string \<Rightarrow> int \<Rightarrow> unit sys" where
  "setDirectIO dev enable =
     checked (os_open dev) throw (\<lambda>_.
     faulty (\<lambda>e k. throw (Msg (''failed to set direct-io to '' @ itoa enable @ '' on loop device: dev '' @ dev)))
       (emit (Exec LOOP_SET_DIRECT_IO [dev, itoa enable])))"

definition EnableDirectIO :: "string \<Rightarrow> unit sys" where
  "EnableDirectIO dev = setDirectIO dev 1"

definition DisableDirectIO :: "string \<Rightarrow> unit sys" where
  "DisableDirectIO dev = setDirectIO dev 0"

definition DirectIOEnabler_Configure :: "string \<Rightarrow> unit sys" where
  "DirectIOEnabler_Configure p = checked (FindAssociatedLoopDevice p) throw EnableDirectIO"

definition DirectIODisabler_Configure :: "string \<Rightarrow> unit sys" where
  "DirectIODisabler_Configure p = checked (FindAssociatedLoopDevice p) throw DisableDirectIO"

definition NoopDirectIO_Configure :: "string \<Rightarrow> unit sys" where
  "NoopDirectIO_Configure p = ret ()"

section \<open>Properties\<close>

text \<open>The calls of the loop: each failed attempt is one entry of the fault schedule.\<close>

lemma rootful_loop_sound:
  "rootful_loop n err p w = (Inr (), w') \<Longrightarrow> n = 0 \<longrightarrow> err \<noteq> None \<Longrightarrow>
     \<exists>w1 r. unix_unmount p w1 = (r, w') \<and>
       (case r of Inr _ \<Rightarrow> True | Inl e \<Rightarrow> is_not_exist e \<or> e = SysErr EINVAL)"
proof (induction n arbitrary: err w)
  case (Suc n)
  obtain r w1 where u: "unix_unmount p w = (r, w1)" by (cases "unix_unmount p w")
  show ?case
  proof (cases r)
    case (Inr x)
    with Suc.prems(1) u have "unix_unmount p w = (Inr x, w')" by simp
    then show ?thesis by (intro exI [of _ w] exI [of _ "Inr x"]) simp
  next
    case (Inl e)
    with unix_unmount_cases [OF u] have np: "\<not> is_panic e" by auto
    show ?thesis
    proof (cases "is_not_exist e \<or> e = SysErr EINVAL")
      case True
      with Suc.prems(1) u Inl np have "w' = w1" by (auto split: if_splits)
      with u Inl True show ?thesis by (intro exI [of _ w] exI [of _ "Inl e"]) simp
    next
      case False
      with Suc.prems(1) u Inl np have "rootful_loop n (Some e) p w1 = (Inr (), w')" by auto
      then show ?thesis by (rule Suc.IH) simp
    qed
  qed
qed (auto split: option.splits)

lemma rootful_busy:
  "faults w = replicate n (Some (EBUSY, 0)) @ fs \<Longrightarrow>
     rootful_loop n err p w =
       (case (if n = 0 then err else Some (SysErr EBUSY)) of None \<Rightarrow> Inr () | Some e \<Rightarrow> Inl e, w\<lparr>faults := fs\<rparr>)"
proof (induction n arbitrary: err w)
  case (Suc n)
  have "unix_unmount p w = (Inl (SysErr EBUSY), w\<lparr>faults := replicate n (Some (EBUSY, 0)) @ fs\<rparr>)"
    using Suc.prems by (simp add: unix_unmount_def faulty_def)
  then show ?case
    using Suc.IH [of "w\<lparr>faults := replicate n (Some (EBUSY, 0)) @ fs\<rparr>" "Some (SysErr EBUSY)"]
    by (simp add: is_not_exist_def)
qed (simp split: option.split)

text \<open>The rootful unmounter gives up after 50 busy answers with the last error, and a
  51st attempt is never made: the schedule after the 50th entry is left untouched.\<close>

theorem rootful_unmount_bounded:
  assumes "faults w = replicate 50 (Some (EBUSY, 0)) @ fs"
  shows "rootful_unmount p w = (Inl (SysErr EBUSY), w\<lparr>faults := fs\<rparr>)"
  using rootful_busy [of w 50 fs None p] assms by (simp add: rootful_unmount_def)


lemma rootful_unmount_bounded_witness:
  "let w = blank\<lparr>faults := replicate 50 (Some (EBUSY, 0)) @ [Some (EIO, 7)]\<rparr> in
   rootful_unmount ''/m'' w = (Inl (SysErr EBUSY), w\<lparr>faults := [Some (EIO, 7)]\<rparr>)"
  using rootful_unmount_bounded [of "blank\<lparr>faults := replicate 50 (Some (EBUSY, 0)) @ [Some (EIO, 7)]\<rparr>" "[Some (EIO, 7)]" "''/m''"]
  by (simp add: Let_def blank_def)

end
