(* ===== verification/Json.thy ===== *)
theory Json
  imports Go_Text
begin

text \<open>
  What the sources use of \<open>encoding/json\<close>: the text of a value as \<open>Marshal\<close> prints it and
  the parser behind \<open>Decode\<close> and \<open>Unmarshal\<close>. Numbers are integers, the only kind the
  persisted files hold; a number with a fraction or an exponent is an error here, as it is
  in Go when the target is an integer. Text is UTF-8 and bytes from 128 on are copied.
  The round trip \<open>json_roundtrip\<close> is what the persisted state of the store rests on.
\<close>

datatype json =
    JNull
  | JBool bool
  | JNum int
  | JStr string
  | JArr "json list"
  | JObj "(string \<times> json) list"

section \<open>Printing\<close>

definition hex_char :: "nat \<Rightarrow> char" where
  "hex_char d = (if d < 10 then char_of (48 + d) else char_of (87 + d))"

definition quote :: char where "quote = CHR 0x22"
definition backslash :: char where "backslash = CHR 0x5C"

definition escaped :: "char \<Rightarrow> bool" where
  "escaped c \<longleftrightarrow> of_char c < (32 :: nat) \<or> c \<in> {CHR ''<'', CHR ''>'', CHR ''&''}"

definition esc_char :: "char \<Rightarrow> string" where
  "esc_char c =
     (if c = quote \<or> c = backslash then [backslash, c]
      else if c = CHR 0x0A then [backslash, CHR ''n'']
      else if c = CHR 0x0D then [backslash, CHR ''r'']
      else if c = CHR 0x09 then [backslash, CHR ''t'']
      else if escaped c then
        [backslash, CHR ''u'', CHR ''0'', CHR ''0'', hex_char (of_char c div 16), hex_char (of_char c mod 16)]
      else [c])"

definition print_str :: "string \<Rightarrow> string" where
  "print_str s = quote # concat (map esc_char s) @ [quote]"

fun print_json :: "json \<Rightarrow> string" where
  "print_json JNull = ''null''"
| "print_json (JBool True) = ''true''"
| "print_json (JBool False) = ''false''"
| "print_json (JNum i) = itoa i"
| "print_json (JStr s) = print_str s"
| "print_json (JArr xs) = ''['' @ join_with '','' (map print_json xs) @ '']''"
| "print_json (JObj kvs) =
     ''{'' @ join_with '','' (map (\<lambda>(k, v). print_str k @ '':'' @ print_json v) kvs) @ ''}''"

section \<open>Parsing\<close>

definition is_ws :: "char \<Rightarrow> bool" where
  "is_ws c \<longleftrightarrow> c \<in> {CHR '' '', CHR 0x09, CHR 0x0A, CHR 0x0D}"

definition skip_ws :: "string \<Rightarrow> string" where
  "skip_ws s = dropWhile is_ws s"

definition hex_val :: "char \<Rightarrow> nat option" where
  "hex_val c = (let n = of_char c in
     if 48 \<le> n \<and> n \<le> 57 then Some (n - 48)
     else if 97 \<le> n \<and> n \<le> 102 then Some (n - 87)
     else if 65 \<le> n \<and> n \<le> 70 then Some (n - 55) else None)"

definition utf8 :: "nat \<Rightarrow> string" where
  "utf8 n =
     (if n < 128 then [char_of n]
      else if n < 2048 then [char_of (192 + n div 64), char_of (128 + n mod 64)]
      else if 55296 \<le> n \<and> n < 57344 then [char_of (239 :: nat), char_of (191 :: nat), char_of (189 :: nat)]
      else [char_of (224 + n div 4096), char_of (128 + n div 64 mod 64), char_of (128 + n mod 64)])"

definition simple_escape :: "char \<Rightarrow> char option" where
  "simple_escape c =
     (if c = quote \<or> c = backslash \<or> c = CHR ''/'' then Some c
      else if c = CHR ''n'' then Some (CHR 0x0A) else if c = CHR ''r'' then Some (CHR 0x0D)
      else if c = CHR ''t'' then Some (CHR 0x09) else if c = CHR ''b'' then Some (CHR 0x08)
      else if c = CHR ''f'' then Some (CHR 0x0C) else None)"

fun parse_str :: "string \<Rightarrow> (string \<times> string) option" where
  "parse_str [] = None"
| "parse_str (c # cs) =
     (if c = quote then Some ([], cs)
      else if c = backslash then
        (case cs of
           [] \<Rightarrow> None
         | e # es \<Rightarrow>
             if e = CHR ''u'' then
               (case es of
                  a # b # d # f # rest \<Rightarrow>
                    (case (hex_val a, hex_val b, hex_val d, hex_val f) of
                       (Some a', Some b', Some d', Some f') \<Rightarrow>
                         map_option (\<lambda>(s, t). (utf8 (4096 * a' + 256 * b' + 16 * d' + f') @ s, t)) (parse_str rest)
                     | _ \<Rightarrow> None)
                | _ \<Rightarrow> None)
             else (case simple_escape e of None \<Rightarrow> None
                   | Some x \<Rightarrow> map_option (\<lambda>(s, t). (x # s, t)) (parse_str es)))
      else if of_char c < (32 :: nat) then None
      else map_option (\<lambda>(s, t). (c # s, t)) (parse_str cs))"

definition parse_lit :: "string \<Rightarrow> json \<Rightarrow> string \<Rightarrow> (json \<times> string) option" where
  "parse_lit l v s = (if prefix l s then Some (v, drop (length l) s) else None)"

definition is_num_char :: "char \<Rightarrow> bool" where
  "is_num_char c \<longleftrightarrow> digit_val c \<noteq> None"

text \<open>Where an integer literal ends; a fraction or an exponent is refused.\<close>

definition num_end :: "string \<Rightarrow> bool" where
  "num_end t \<longleftrightarrow> (case t of [] \<Rightarrow> True | c # _ \<Rightarrow> c \<notin> {CHR ''.'', CHR ''e'', CHR ''E''})"

definition parse_num :: "string \<Rightarrow> (json \<times> string) option" where
  "parse_num s =
     (let neg = prefix ''-'' s; r = (if neg then tl s else s);
          ds = takeWhile is_num_char r; t = dropWhile is_num_char r in
      case parse_nat ds of
        None \<Rightarrow> None
      | Some n \<Rightarrow> if num_end t \<and> (prefix ''0'' ds \<longrightarrow> ds = ''0'')
                  then Some (JNum (if neg then - int n else int n), t) else None)"

definition expect :: "char \<Rightarrow> string \<Rightarrow> string option" where
  "expect c s = (case skip_ws s of [] \<Rightarrow> None | x # xs \<Rightarrow> if x = c then Some xs else None)"

text \<open>The fuel bounds the number of nested and sibling values; the length of the text is enough.\<close>

fun parse_value :: "nat \<Rightarrow> string \<Rightarrow> (json \<times> string) option"
  and parse_elems :: "nat \<Rightarrow> string \<Rightarrow> (json list \<times> string) option"
  and parse_members :: "nat \<Rightarrow> string \<Rightarrow> ((string \<times> json) list \<times> string) option" where
  "parse_value 0 s = None"
| "parse_value (Suc n) s =
     (case skip_ws s of
        [] \<Rightarrow> None
      | c # cs \<Rightarrow>
          if c = quote then map_option (\<lambda>(x, t). (JStr x, t)) (parse_str cs)
          else if c = CHR ''['' then
            (case expect (CHR '']'') cs of
               Some t \<Rightarrow> Some (JArr [], t)
             | None \<Rightarrow> map_option (\<lambda>(x, t). (JArr x, t)) (parse_elems n cs))
          else if c = CHR ''{'' then
            (case expect (CHR ''}'') cs of
               Some t \<Rightarrow> Some (JObj [], t)
             | None \<Rightarrow> map_option (\<lambda>(x, t). (JObj x, t)) (parse_members n cs))
          else if c = CHR ''n'' then parse_lit ''null'' JNull (c # cs)
          else if c = CHR ''t'' then parse_lit ''true'' (JBool True) (c # cs)
          else if c = CHR ''f'' then parse_lit ''false'' (JBool False) (c # cs)
          else parse_num (c # cs))"
| "parse_elems 0 s = None"
| "parse_elems (Suc n) s =
     (case parse_value n s of
        None \<Rightarrow> None
      | Some (v, t) \<Rightarrow>
          (case expect (CHR '']'') t of
             Some u \<Rightarrow> Some ([v], u)
           | None \<Rightarrow> (case expect (CHR '','') t of
                 None \<Rightarrow> None
               | Some u \<Rightarrow> map_option (\<lambda>(vs, r). (v # vs, r)) (parse_elems n u))))"
| "parse_members 0 s = None"
| "parse_members (Suc n) s =
     (case expect quote s of
        None \<Rightarrow> None
      | Some s1 \<Rightarrow> (case parse_str s1 of
          None \<Rightarrow> None
        | Some (k, s2) \<Rightarrow> (case expect (CHR '':'') s2 of
            None \<Rightarrow> None
          | Some s3 \<Rightarrow> (case parse_value n s3 of
              None \<Rightarrow> None
            | Some (v, t) \<Rightarrow>
                (case expect (CHR ''}'') t of
                   Some u \<Rightarrow> Some ([(k, v)], u)
                 | None \<Rightarrow> (case expect (CHR '','') t of
                       None \<Rightarrow> None
                     | Some u \<Rightarrow> map_option (\<lambda>(vs, r). ((k, v) # vs, r)) (parse_members n u)))))))"

text \<open>\<open>Decoder.Decode\<close> reads one value; \<open>Unmarshal\<close> also refuses what follows it.\<close>

definition json_decode :: "string \<Rightarrow> json option" where
  "json_decode s = map_option fst (parse_value (Suc (length s)) s)"

definition json_unmarshal :: "string \<Rightarrow> json option" where
  "json_unmarshal s =
     (case parse_value (Suc (length s)) s of
        Some (v, t) \<Rightarrow> if skip_ws t = [] then Some v else None
      | None \<Rightarrow> None)"

section \<open>Targets\<close>

text \<open>
  Decoding into Go values: fields are matched without regard to case and the last one wins,
  unknown fields are skipped, \<open>null\<close> leaves the zero value.
\<close>

definition lower :: "char \<Rightarrow> char" where
  "lower c = (if 65 \<le> (of_char c :: nat) \<and> (of_char c :: nat) \<le> 90 then char_of (of_char c + 32 :: nat) else c)"

definition json_field :: "string \<Rightarrow> (string \<times> json) list \<Rightarrow> json" where
  "json_field k kvs =
     (case find (\<lambda>(k', _). map lower k' = map lower k) (rev kvs) of
        None \<Rightarrow> JNull | Some (_, v) \<Rightarrow> v)"

fun as_obj :: "json \<Rightarrow> (string \<times> json) list option" where
  "as_obj (JObj kvs) = Some kvs"
| "as_obj JNull = Some []"
| "as_obj _ = None"

fun as_int64 :: "json \<Rightarrow> int option" where
  "as_int64 (JNum i) = (if in_i64 i then Some i else None)"
| "as_int64 JNull = Some 0"
| "as_int64 _ = None"

fun as_str :: "json \<Rightarrow> string option" where
  "as_str (JStr s) = Some s"
| "as_str JNull = Some []"
| "as_str _ = None"

fun as_strs :: "json \<Rightarrow> string list option" where
  "as_strs (JArr xs) = those (map as_str xs)"
| "as_strs JNull = Some []"
| "as_strs _ = None"

section \<open>The round trip\<close>

lemma hex_val_hex_char: "d < 16 \<Longrightarrow> hex_val (hex_char d) = Some d"
  by (auto simp: hex_val_def hex_char_def Let_def)

lemma parse_str_esc_char:
  "parse_str (esc_char c @ r) = map_option (\<lambda>(s, t). (c # s, t)) (parse_str r)"
proof -
  have low: "of_char c < (128 :: nat)" if "escaped c" using that by (auto simp: escaped_def)
  have "of_char c div 16 < (16 :: nat)" if "escaped c" using low [OF that] by simp
  then show ?thesis
    using low
    by (auto simp: esc_char_def quote_def backslash_def simple_escape_def escaped_def
          hex_val_hex_char utf8_def hex_val_def [of "CHR ''0''"] split: if_splits)
qed

lemma parse_str_print: "parse_str (concat (map esc_char s) @ quote # t) = Some (s, t)"
  by (induction s) (simp_all add: parse_str_esc_char)

lemma parse_str_print_str: "print_str s @ t = quote # u \<Longrightarrow> parse_str u = Some (s, t)"
  using parse_str_print [of s t] by (simp add: print_str_def)

lemma nat_digits_zero: "prefix ''0'' (nat_digits n) \<Longrightarrow> nat_digits n = ''0''"
proof (induction n rule: nat_digits.induct)
  case (1 n)
  show ?case
  proof (cases "n < 10")
    case True
    then have "nat_digits n = [digit_char n]" by (subst nat_digits.simps) simp
    with 1(2) show ?thesis by simp
  next
    case False
    then have split: "nat_digits n = nat_digits (n div 10) @ [digit_char (n mod 10)]"
      by (subst nat_digits.simps) simp
    with 1(2) have "prefix ''0'' (nat_digits (n div 10))"
      by (cases "nat_digits (n div 10)") auto
    with 1(1) False have "nat_digits (n div 10) = ''0''" by blast
    then have "parse_nat ''0'' = Some (n div 10)" by (metis parse_nat_digits)
    then have "n div 10 = 0" by (simp add: parse_nat_def digit_val_def)
    with False show ?thesis by simp
  qed
qed

definition tail_ok :: "string \<Rightarrow> bool" where
  "tail_ok t \<longleftrightarrow> (case t of [] \<Rightarrow> True | c # _ \<Rightarrow> \<not> is_num_char c \<and> c \<notin> {CHR ''.'', CHR ''e'', CHR ''E''})"

lemma parse_num_itoa:
  assumes "tail_ok t"
  shows "parse_num (itoa i @ t) = Some (JNum i, t)"
proof -
  have tk: "takeWhile is_num_char (nat_digits n @ t) = nat_digits n \<and>
      dropWhile is_num_char (nat_digits n @ t) = t" for n
    using assms nat_digits_digits [of _ n]
    by (cases t) (auto simp: takeWhile_append dropWhile_append tail_ok_def is_num_char_def)
  have ne: "num_end t" using assms by (auto simp: tail_ok_def num_end_def split: list.splits)
  have np: "\<not> prefix ''-'' (nat_digits n @ t)" for n
    using nat_digits_Cons [of n] by (cases "nat_digits n") auto
  show ?thesis
    using tk ne np nat_digits_zero by (auto simp: parse_num_def itoa_def Let_def)
qed

lemma itoa_hd: "\<exists>c cs. itoa i = c # cs \<and> (c = CHR ''-'' \<or> digit_val c \<noteq> None)"
proof (cases "nat_digits (nat i)")
  case (Cons c cs)
  then show ?thesis using nat_digits_digits [of c "nat i"] by (simp add: itoa_def)
qed simp

fun cost :: "json \<Rightarrow> nat" where
  "cost (JArr xs) = Suc (sum_list (map (\<lambda>x. Suc (cost x)) xs))"
| "cost (JObj kvs) = Suc (sum_list (map (\<lambda>(k, v). Suc (cost v)) kvs))"
| "cost j = 1"

lemma length_join_with:
  "length (join_with [c] xs) + 1 = sum_list (map (\<lambda>x. Suc (length x)) xs) \<or> xs = []"
  by (induction "[c]" xs rule: join_with.induct) auto

lemma sum_list_le: "(\<And>x. x \<in> set xs \<Longrightarrow> f x \<le> (g x :: nat)) \<Longrightarrow> sum_list (map f xs) \<le> sum_list (map g xs)"
  by (rule sum_list_mono)

lemma literal_size: "Suc 0 \<le> length (print_json (JBool b))" "Suc 0 \<le> length (itoa i)"
  using itoa_hd [of i] by (cases b, auto)+

lemma cost_le: "cost j \<le> length (print_json j)"
proof (induction j rule: cost.induct)
  case (1 xs)
  have "sum_list (map (\<lambda>x. Suc (cost x)) xs) \<le> sum_list (map (\<lambda>x. Suc (length x)) (map print_json xs))"
    unfolding map_map comp_def by (rule sum_list_le) (use 1 in auto)
  with length_join_with [of "CHR '',''" "map print_json xs"] show ?case by auto
next
  case (2 kvs)
  let ?f = "\<lambda>(k, v). print_str k @ '':'' @ print_json v"
  have "sum_list (map (\<lambda>(k, v). Suc (cost v)) kvs) \<le> sum_list (map (\<lambda>x. Suc (length x)) (map ?f kvs))"
    unfolding map_map comp_def by (rule sum_list_le) (use 2 in fastforce)
  with length_join_with [of "CHR '',''" "map ?f kvs"] show ?case by auto
qed (simp_all add: print_str_def literal_size)

text \<open>The first character of a printed value is no blank and closes nothing.\<close>

lemma print_json_hd:
  obtains c cs where "print_json j = c # cs" and "\<not> is_ws c" and "c \<noteq> CHR '']''" and "c \<noteq> CHR ''}''"
proof -
  have "\<exists>c cs. print_json j = c # cs \<and> \<not> is_ws c \<and> c \<noteq> CHR '']'' \<and> c \<noteq> CHR ''}''"
  proof (cases j)
    case (JNum i)
    then show ?thesis using itoa_hd [of i]
      by (auto simp: is_ws_def digit_val_def Let_def split: if_splits)
  next
    case (JBool b) then show ?thesis by (cases b) (auto simp: is_ws_def)
  qed (auto simp: is_ws_def print_str_def quote_def)
  then show thesis using that by blast
qed

lemma expect_hit [simp]: "\<not> is_ws c \<Longrightarrow> expect c (c # t) = Some t"
  by (simp add: expect_def skip_ws_def)

lemma expect_miss [simp]: "\<not> is_ws d \<Longrightarrow> d \<noteq> c \<Longrightarrow> expect c (d # t) = None"
  by (simp add: expect_def skip_ws_def)

lemma punct_not_ws [simp]:
  "\<not> is_ws CHR '','' " "\<not> is_ws CHR '']''" "\<not> is_ws CHR ''}''" "\<not> is_ws CHR '':''"
  "\<not> is_ws quote" "\<not> is_ws CHR ''[''" "\<not> is_ws CHR ''{''"
  by (simp_all add: is_ws_def quote_def)

lemma tail_ok_punct [simp]:
  "tail_ok (CHR '','' # t)" "tail_ok (CHR '']'' # t)" "tail_ok (CHR ''}'' # t)" "tail_ok []"
  by (simp_all add: tail_ok_def is_num_char_def digit_val_def Let_def)

definition reads_back :: "nat \<Rightarrow> json \<Rightarrow> bool" where
  "reads_back n j \<longleftrightarrow> (\<forall>t. tail_ok t \<longrightarrow> parse_value n (print_json j @ t) = Some (j, t))"

lemma parse_elems_print:
  assumes "\<And>x m. x \<in> set xs \<Longrightarrow> cost x \<le> m \<Longrightarrow> reads_back m x"
  shows "xs \<noteq> [] \<Longrightarrow> sum_list (map (\<lambda>x. Suc (cost x)) xs) \<le> n \<Longrightarrow>
    parse_elems n (join_with '','' (map print_json xs) @ CHR '']'' # t) = Some (xs, t)"
  using assms
proof (induction xs arbitrary: n)
  case (Cons x xs)
  then obtain m where n: "n = Suc m" by (cases n) auto
  with Cons have x: "reads_back m x" by auto
  show ?case
  proof (cases xs)
    case Nil
    with x show ?thesis by (simp add: n reads_back_def)
  next
    case (Cons y ys)
    have "parse_elems m (join_with '','' (map print_json xs) @ CHR '']'' # t) = Some (xs, t)"
      by (rule Cons.IH) (use Cons.prems n Cons in auto)
    with x Cons show ?thesis by (simp add: n reads_back_def)
  qed
qed simp

lemma parse_members_print:
  assumes "\<And>k x m. (k, x) \<in> set kvs \<Longrightarrow> cost x \<le> m \<Longrightarrow> reads_back m x"
  shows "kvs \<noteq> [] \<Longrightarrow> sum_list (map (\<lambda>(k, x). Suc (cost x)) kvs) \<le> n \<Longrightarrow>
    parse_members n (join_with '','' (map (\<lambda>(k, v). print_str k @ '':'' @ print_json v) kvs) @ CHR ''}'' # t) = Some (kvs, t)"
  using assms
proof (induction kvs arbitrary: n)
  case (Cons p kvs)
  obtain k x where p: "p = (k, x)" by (cases p)
  from Cons obtain m where n: "n = Suc m" by (cases n) (auto simp: p)
  have x: "reads_back m x" using Cons.prems(3) [of k x m] Cons.prems(2) by (simp add: p n)
  show ?case
  proof (cases kvs)
    case Nil
    with x show ?thesis by (simp add: n p reads_back_def print_str_def parse_str_print)
  next
    case (Cons y ys)
    obtain k' y' where y: "y = (k', y')" by (cases y)
    have "parse_members m (join_with '','' (map (\<lambda>(k, v). print_str k @ '':'' @ print_json v) kvs) @ CHR ''}'' # t) = Some (kvs, t)"
      by (rule Cons.IH) (use Cons.prems n p Cons in auto)
    with x Cons y show ?thesis by (simp add: n p reads_back_def print_str_def parse_str_print)
  qed
qed simp

lemma reads_back_cost: "cost j \<le> n \<Longrightarrow> reads_back n j"
proof (induction j arbitrary: n)
  case JNull
  then show ?case by (cases n) (auto simp: reads_back_def skip_ws_def is_ws_def quote_def parse_lit_def)
next
  case (JBool b)
  then show ?case
    by (cases n; cases b) (auto simp: reads_back_def skip_ws_def is_ws_def quote_def parse_lit_def)
next
  case (JNum i)
  obtain c cs where c: "itoa i = c # cs" "c = CHR ''-'' \<or> digit_val c \<noteq> None" using itoa_hd by blast
  then have "\<not> is_ws c" "c \<noteq> quote" "c \<noteq> CHR ''[''" "c \<noteq> CHR ''{''" "c \<noteq> CHR ''n''" "c \<noteq> CHR ''t''" "c \<noteq> CHR ''f''"
    by (auto simp: is_ws_def quote_def digit_val_def Let_def)
  moreover from c have "parse_num (c # cs @ t) = Some (JNum i, t)" if "tail_ok t" for t
    using parse_num_itoa [OF that, of i] by simp
  ultimately show ?case using JNum c by (cases n) (auto simp: reads_back_def skip_ws_def)
next
  case (JStr s)
  then show ?case
    by (cases n) (auto simp: reads_back_def print_str_def skip_ws_def parse_str_print)
next
  case (JArr xs)
  then obtain m where n: "n = Suc m" by (cases n) auto
  show ?case
  proof (cases xs)
    case Nil
    then show ?thesis by (simp add: n reads_back_def skip_ws_def quote_def)
  next
    case (Cons y ys)
    obtain c cs where c: "print_json y = c # cs" "\<not> is_ws c" "c \<noteq> CHR '']''" by (rule print_json_hd)
    then have "expect CHR '']'' (join_with '','' (map print_json xs) @ r) = None" for r
      by (cases ys) (simp_all add: Cons)
    moreover have "parse_elems m (join_with '','' (map print_json xs) @ CHR '']'' # t) = Some (xs, t)" for t
      by (rule parse_elems_print) (use JArr n Cons in auto)
    ultimately show ?thesis by (simp add: n reads_back_def skip_ws_def quote_def)
  qed
next
  case (JObj kvs)
  then obtain m where n: "n = Suc m" by (cases n) auto
  let ?ps = "map (\<lambda>(k, v). print_str k @ '':'' @ print_json v) kvs"
  show ?case
  proof (cases kvs)
    case Nil
    then show ?thesis by (simp add: n reads_back_def skip_ws_def quote_def)
  next
    case (Cons y ys)
    have "expect CHR ''}'' (join_with '','' ?ps @ r) = None" for r
      by (cases y; cases ys) (simp_all add: Cons print_str_def quote_def is_ws_def)
    moreover have "parse_members m (join_with '','' ?ps @ CHR ''}'' # t) = Some (kvs, t)" for t
    proof (rule parse_members_print)
      show "reads_back q x" if "(k, x) \<in> set kvs" and "cost x \<le> q" for k x q
        using JObj.IH [of "(k, x)" x q] that by simp
    qed (use JObj.prems n Cons in auto)
    ultimately show ?thesis by (simp add: n reads_back_def skip_ws_def quote_def)
  qed
qed

theorem json_roundtrip:
  "tail_ok t \<Longrightarrow> json_decode (print_json j @ t) = Some j"
  "json_unmarshal (print_json j) = Some j"
proof -
  have "reads_back (Suc (length (print_json j @ t))) j" for t
    by (rule reads_back_cost) (use cost_le [of j] in simp)
  then show "tail_ok t \<Longrightarrow> json_decode (print_json j @ t) = Some j"
    by (simp add: json_decode_def reads_back_def)
  have "reads_back (Suc (length (print_json j))) j"
    by (rule reads_back_cost) (use cost_le [of j] in simp)
  then have "parse_value (Suc (length (print_json j))) (print_json j @ []) = Some (j, [])"
    unfolding reads_back_def using tail_ok_punct(4) by blast
  then show "json_unmarshal (print_json j) = Some j"
    by (simp add: json_unmarshal_def skip_ws_def)
qed

lemma those_map_Some [simp]: "(\<And>x. x \<in> set xs \<Longrightarrow> f x = Some (g x)) \<Longrightarrow> those (map f xs) = Some (map g xs)"
  by (induction xs) simp_all

lemma as_strs_strs [simp]: "as_strs (JArr (map JStr ids)) = Some ids"
  by (induction ids) simp_all

lemma json_decode_print [simp]: "json_decode (print_json j) = Some j"
  using json_roundtrip(1) [of "[]" j] by simp

end
