(* ===== verification/Tardis.thy ===== *)
theory Tardis
  imports Groot_Types Json
begin

text \<open>
  The setuid helper \<open>tardis\<close> and package \<open>overlayxfs/quota\<close>: allocation of project ids,
  XFS project quotas on image directories, the statistics of an image and the opaque
  whiteout attribute. Project ids are 32-bit and quotas 64-bit words, as in the sources; the
  kernel counts blocks of 512 bytes.

  \<open>untilSucceeds\<close> is a loop without a bound: it is given fuel, and
  \<open>untilSucceeds_terminates\<close> shows how much is enough.
\<close>

definition IDDir :: string where "IDDir = ''projectids''"

section \<open>quota\<close>

record Quota =
  Size :: "64 word"
  BCount :: "64 word"

definition openDir :: "string \<Rightarrow> path sys" where
  "openDir p = checked (c_opendir p) throw (\<lambda>dir.
     (case dir of None \<Rightarrow> throw (Msg (''opening directory: '' @ p)) | Some d \<Rightarrow> ret d))"

definition GetProjectID :: "string \<Rightarrow> 32 word sys" where
  "GetProjectID p = checked (openDir p) throw (\<lambda>dir.
     checked (ioctl_getxattr dir) (wrapping (''getting extended attributes for '' @ p)) ret)"

definition setProjectID :: "32 word \<Rightarrow> string \<Rightarrow> unit sys" where
  "setProjectID projectID p = checked (openDir p) throw (\<lambda>dir.
     checked (ioctl_getxattr dir) (wrapping (''getting extended attributes for '' @ p)) (\<lambda>fsx.
     checked (ioctl_setxattr dir projectID) (wrapping (''setting extended attributes for '' @ p)) ret))"

definition getStoreDevicePath :: "string \<Rightarrow> string sys" where
  "getStoreDevicePath imagePath =
     (let basePath = filepath_dir (filepath_dir imagePath);
          storeDevicePath = filepath_join [basePath, ''storeDevice''] in
      observed (os_stat storeDevicePath) (\<lambda>r.
        (case r of
           Inr _ \<Rightarrow> ret storeDevicePath
         | Inl _ \<Rightarrow>
             checked (os_stat basePath) throw (\<lambda>_.
             checked (mknod storeDevicePath (\<lambda>a. BlockDev a 0) perm_0600)
               (\<lambda>e. if is_exist e then ret storeDevicePath
                    else throw (Msg (''creating backing fs block device '' @ storeDevicePath @ '': '' @ error_text e)))
               (\<lambda>_. ret storeDevicePath)))))"

definition itoa_w32 :: "32 word \<Rightarrow> string" where
  "itoa_w32 i = nat_digits (unat i)"

definition quota_Get :: "string \<Rightarrow> Quota sys" where
  "quota_Get p = checked (GetProjectID p) throw (\<lambda>projectID.
     if projectID = 0 then ret \<lparr>Size = 0, BCount = 0\<rparr>
     else checked (getStoreDevicePath p) throw (\<lambda>storeDevicePath.
       checked (quotactl_get storeDevicePath projectID)
         (\<lambda>e. throw (Msg (''getting quota limit for projid '' @ itoa_w32 projectID @ '': '' @ error_text e)))
         (\<lambda>(hard, count). ret \<lparr>Size = hard * 512, BCount = count * 512\<rparr>)))"

definition quota_Set :: "32 word \<Rightarrow> string \<Rightarrow> 64 word \<Rightarrow> unit sys" where
  "quota_Set projectID p quotaSize = checked (setProjectID projectID p) throw (\<lambda>_.
     checked (getStoreDevicePath p) throw (\<lambda>storeDevicePath.
     checked (quotactl_set storeDevicePath projectID (quotaSize div 512))
       (\<lambda>e. throw (Msg (''setting quota limit for projid '' @ itoa_w32 projectID @ '': '' @ error_text e)))
       ret))"

section \<open>ids\<close>

fun untilSucceeds_loop :: "nat \<Rightarrow> string \<Rightarrow> 32 word \<Rightarrow> 32 word option sys" where
  "untilSucceeds_loop 0 idsPath startId = ret None"
| "untilSucceeds_loop (Suc n) idsPath startId =
     checked (os_mkdir (filepath_join [idsPath, itoa_w32 startId]) perm_0755)
       (\<lambda>e. if is_exist e then untilSucceeds_loop n idsPath (startId + 1)
            else throw (Wrapped ''failed to create id file'' e))
       (\<lambda>_. ret (Some startId))"

definition untilSucceeds :: "nat \<Rightarrow> string \<Rightarrow> 32 word \<Rightarrow> 32 word option sys" where
  "untilSucceeds fuel idsPath startId =
     untilSucceeds_loop fuel idsPath (if startId = 1 then startId + 1 else startId)"

definition Alloc :: "nat \<Rightarrow> string \<Rightarrow> 32 word option sys" where
  "Alloc fuel idsPath = checked (os_read_dir idsPath) (wrapping ''reading directory'') (\<lambda>contents.
     let nextId = length contents + 1 in untilSucceeds fuel idsPath (of_nat nextId))"

section \<open>stats\<close>

definition listQuota :: "string \<Rightarrow> (int \<times> int) sys" where
  "listQuota imagePath = checked (quota_Get imagePath) (wrapping (''getting quota '' @ imagePath)) (\<lambda>quota.
     ret (sint (BCount quota), sint (Size quota)))"

definition parse_int_io :: "string \<Rightarrow> int sys" where
  "parse_int_io s = (case parse_int s of
     None \<Rightarrow> throw (Msg (''strconv.ParseInt: parsing '' @ s @ '': invalid syntax'')) | Some i \<Rightarrow> ret i)"

definition readImageInfo :: "string \<Rightarrow> int sys" where
  "readImageInfo imagePath =
     checked (os_read_file (filepath_join [imagePath, ''image_info''])) throw parse_int_io"

definition tardis_VolumeStats :: "string \<Rightarrow> VolumeStats sys" where
  "tardis_VolumeStats imagePath =
     if_missing (os_stat imagePath) (wrapping (''image path ('' @ imagePath @ '') doesnt exist''))
     (checked (listQuota imagePath) (wrapping (''listing quota usage '' @ imagePath)) (\<lambda>(exclusiveSize, quotaSize).
      checked (readImageInfo imagePath) (wrapping (''reading image info '' @ imagePath)) (\<lambda>volumeSize.
      ret \<lparr>TotalBytesUsed = i64 (volumeSize + exclusiveSize), ExclusiveBytesUsed = exclusiveSize,
           QuotaSizeBytes = quotaSize, CommittedSpaceBytes = i64 (volumeSize + quotaSize)\<rparr>)))"

section \<open>The commands\<close>

definition stats_to_json :: "VolumeStats \<Rightarrow> json" where
  "stats_to_json s = JObj [(''disk_usage'', JObj [
     (''total_bytes_used'', JNum (TotalBytesUsed s)), (''exclusive_bytes_used'', JNum (ExclusiveBytesUsed s)),
     (''quota_size_bytes'', JNum (QuotaSizeBytes s)), (''committed_space_bytes'', JNum (CommittedSpaceBytes s))])]"

definition stats_of_json :: "json \<Rightarrow> VolumeStats option" where
  "stats_of_json v =
     Option.bind (as_obj v) (\<lambda>kvs. Option.bind (as_obj (json_field ''disk_usage'' kvs)) (\<lambda>d.
     Option.bind (as_int64 (json_field ''total_bytes_used'' d)) (\<lambda>t.
     Option.bind (as_int64 (json_field ''exclusive_bytes_used'' d)) (\<lambda>x.
     Option.bind (as_int64 (json_field ''quota_size_bytes'' d)) (\<lambda>q.
     Option.bind (as_int64 (json_field ''committed_space_bytes'' d)) (\<lambda>c.
     Some \<lparr>TotalBytesUsed = t, ExclusiveBytesUsed = x, QuotaSizeBytes = q, CommittedSpaceBytes = c\<rparr>))))))"

definition LimitCommand :: "nat \<Rightarrow> string \<Rightarrow> int \<Rightarrow> unit option sys" where
  "LimitCommand fuel imagePath disk_limit_bytes =
     (let imagesPath = filepath_dir imagePath;
          diskLimit = (word_of_int disk_limit_bytes :: 64 word) in
      checked (Alloc fuel (filepath_join [filepath_dir imagesPath, IDDir])) (wrapping ''allocating project id'') (\<lambda>r.
      (case r of
         None \<Rightarrow> ret None
       | Some projectID \<Rightarrow>
           checked (quota_Set projectID imagePath diskLimit) (wrapping (''setting quota to '' @ imagePath))
             (\<lambda>_. ret (Some ())))))"

definition StatsCommand :: "string \<Rightarrow> string sys" where
  "StatsCommand volume_path = checked (tardis_VolumeStats volume_path) throw (\<lambda>volumeStats.
     ret (print_json (stats_to_json volumeStats)))"

definition HandleOpqWhiteoutsCommand :: "string list \<Rightarrow> unit sys" where
  "HandleOpqWhiteoutsCommand opaque_paths = for_each opaque_paths (\<lambda>opaqueWhiteout.
     checked (lsetxattr opaqueWhiteout ''trusted.overlay.opaque'' ''y'')
       (wrapping (''set xattr for '' @ opaqueWhiteout)) ret)"

text \<open>
  The program \<open>tardis\<close> as its caller runs it: its arguments are parsed by the cli package
  in the one form the driver writes them, its standard output is what is returned, and on an
  error it exits with status 1.
\<close>

fun opaque_args :: "string list \<Rightarrow> string list option" where
  "opaque_args [] = Some []"
| "opaque_args [x] = None"
| "opaque_args (f # p # rest) =
     (if f = ''--opaque-path'' then map_option (\<lambda>ps. p # ps) (opaque_args rest) else None)"

definition tardis_main :: "nat \<Rightarrow> string list \<Rightarrow> string option sys" where
  "tardis_main fuel args =
     (case args of
        [c, a, b] \<Rightarrow>
          if c = ''stats'' \<and> a = ''--volume-path'' then checked (StatsCommand b) throw (\<lambda>out. ret (Some out))
          else (case opaque_args (tl args) of
              Some ps \<Rightarrow> if c = ''handle-opqwhiteouts'' then checked (HandleOpqWhiteoutsCommand ps) throw (\<lambda>_. ret (Some []))
                         else throw (Msg ''usage'')
            | None \<Rightarrow> throw (Msg ''usage''))
      | [c, a, n, b, p] \<Rightarrow>
          if c = ''limit'' \<and> a = ''--disk-limit-bytes'' \<and> b = ''--image-path'' then
            (case parse_int n of
               None \<Rightarrow> throw (Msg ''usage'')
             | Some limit \<Rightarrow> checked (LimitCommand fuel p limit) throw (\<lambda>r. ret (map_option (\<lambda>_. []) r)))
          else (case opaque_args (tl args) of
              Some ps \<Rightarrow> if c = ''handle-opqwhiteouts'' then checked (HandleOpqWhiteoutsCommand ps) throw (\<lambda>_. ret (Some []))
                         else throw (Msg ''usage'')
            | None \<Rightarrow> throw (Msg ''usage''))
      | c # rest \<Rightarrow>
          (case opaque_args rest of
             Some ps \<Rightarrow> if c = ''handle-opqwhiteouts'' then checked (HandleOpqWhiteoutsCommand ps) throw (\<lambda>_. ret (Some []))
                        else throw (Msg ''usage'')
           | None \<Rightarrow> throw (Msg ''usage''))
      | [] \<Rightarrow> throw (Msg ''usage''))"

text \<open>The program at the path of the \<open>tardis\<close> binary, as a process: it prints its output or
  exits with status 1.\<close>

definition tardis_process :: "nat \<Rightarrow> string list \<Rightarrow> exec_result sys" where
  "tardis_process fuel args = checked (tardis_main fuel args)
     (\<lambda>e. ret (ExecFail (error_text e)))
     (\<lambda>r. case r of None \<Rightarrow> throw (Panic ''does not return'') | Some out \<Rightarrow> ret (ExecOk out))"

end
