(* ===== verification/Overlay.thy ===== *)
theory Overlay
  imports Mount Tardis
begin

text \<open>
  \<open>store/filesystems/overlayxfs/driver.go\<close>: volumes, images and the store's file system.

  A volume \<open>id\<close> is a directory \<open>volumes/id\<close>, a file \<open>l/id\<close> that holds a short name, the
  symbolic link \<open>l/<short name>\<close> to the directory, and the file \<open>meta/volume-id\<close> with its
  size. An image is a directory with the upper, work and root directories of an overlay
  mount and two small files with sizes.

  The interfaces a driver is given are fields of its record: the unmounter, the direct IO
  switch, the program at the path of the \<open>tardis\<close> binary (its exit status and standard
  output) and the short id generator of another module, a function of a random number.
\<close>

definition UpperDir :: string where "UpperDir = ''diff''"
definition WorkDir :: string where "WorkDir = ''workdir''"
definition RootfsDir :: string where "RootfsDir = ''rootfs''"
definition imageInfoName :: string where "imageInfoName = ''image_info''"
definition imageQuotaName :: string where "imageQuotaName = ''image_quota''"
definition WhiteoutDevice :: string where "WhiteoutDevice = ''whiteout_dev''"
definition LinksDirName :: string where "LinksDirName = ''l''"
definition MinQuota :: int where "MinQuota = 1024 * 256"

record driver =
  drv_store :: string
  tardisBinPath :: string
  unmounter :: "string \<Rightarrow> unit sys"
  directIO :: "string \<Rightarrow> unit sys"
  tardis_program :: "string list \<Rightarrow> exec_result sys"
  shortid :: "int \<Rightarrow> goerr + string"

record VolumeMeta =
  meta_size :: int

record ImageDriverSpec =
  img_volumes :: "string list"
  img_mount :: bool
  ImagePath :: string
  img_disk_limit :: int
  ExclusiveDiskLimit :: bool
  img_owner_uid :: int
  img_owner_gid :: int

section \<open>Paths\<close>

definition volume_path :: "driver \<Rightarrow> string \<Rightarrow> string" where
  "volume_path d i = filepath_join [drv_store d, VolumesDirName, i]"

definition link_path :: "driver \<Rightarrow> string \<Rightarrow> string" where
  "link_path d i = filepath_join [drv_store d, LinksDirName, i]"

definition volumeMetaFilePath :: "driver \<Rightarrow> string \<Rightarrow> string" where
  "volumeMetaFilePath d i = filepath_join [drv_store d, MetaDirName, ''volume-'' @ i]"

section \<open>Running tardis\<close>

definition tardisInPath :: "driver \<Rightarrow> bool sys" where
  "tardisInPath d = checked (lookup_path (tardisBinPath d)) throw (\<lambda>r. ret (r \<noteq> None))"

definition hasSUID :: "driver \<Rightarrow> bool sys" where
  "hasSUID d = checked (lookup_path (tardisBinPath d)) throw (\<lambda>r.
     (case r of
        None \<Rightarrow> ret False
      | Some p \<Rightarrow> observed (os_stat p) (\<lambda>st.
          (case st of
             Inl _ \<Rightarrow> throw (Panic ''nil pointer dereference'')
           | Inr n \<Rightarrow> ret (case node_attr n of Some a \<Rightarrow> Bit_Operations.and (mode a) 2048 \<noteq> 0 | None \<Rightarrow> False)))))"

definition runTardis :: "driver \<Rightarrow> string list \<Rightarrow> string sys" where
  "runTardis d args =
     checked (tardisInPath d) throw (\<lambda>inPath.
     if \<not> inPath then throw (Msg ''tardis was not found in the $PATH'') else
     checked (hasSUID d) throw (\<lambda>suid.
     checked geteuid throw (\<lambda>uid.
     if \<not> suid \<and> uid \<noteq> 0 then throw (Msg ''missing the setuid bit on tardis'') else
     checked (tardis_program d args) throw (\<lambda>r.
     (case r of
        ExecFail out \<Rightarrow> throw (Wrapped ('' '' @ out) (Msg ''exit status 1''))
      | ExecOk out \<Rightarrow> ret out)))))"

text \<open>On failure \<open>runTardis\<close> returns a nil buffer, which prints itself like this.\<close>

definition nil_buffer :: string where "nil_buffer = ''<nil>''"

section \<open>Volumes\<close>

definition VolumePath :: "driver \<Rightarrow> string \<Rightarrow> string sys" where
  "VolumePath d i = checked (os_stat (volume_path d i))
     (wrapping (''volume does not exist `'' @ i @ ''`'')) (\<lambda>_. ret (volume_path d i))"

definition generateShortishID :: "driver \<Rightarrow> string sys" where
  "generateShortishID d = checked nonce throw (\<lambda>n. checked getpid throw (\<lambda>p.
     (case shortid d n of Inl e \<Rightarrow> throw e | Inr i \<Rightarrow> ret (i @ itoa p))))"

definition CreateVolume :: "driver \<Rightarrow> string \<Rightarrow> string \<Rightarrow> string sys" where
  "CreateVolume d parentID i =
     checked (os_mkdir (volume_path d i) perm_0755) (wrapping ''creating volume'') (\<lambda>_.
     checked (generateShortishID d) (wrapping ''generating short id'') (\<lambda>shortID.
     checked (os_symlink (volume_path d i) (link_path d shortID)) (wrapping ''creating volume symlink'') (\<lambda>_.
     checked (os_write_file (link_path d i) shortID perm_0644) (wrapping ''creating link file'') (\<lambda>_.
     checked (os_chmod (volume_path d i) perm_0755) (wrapping ''changing volume permissions'') (\<lambda>_.
     ret (volume_path d i))))))"

definition removeVolumeLink :: "driver \<Rightarrow> string \<Rightarrow> unit sys" where
  "removeVolumeLink d linkInfoPath =
     checked (os_read_file linkInfoPath)
       (\<lambda>e. if is_not_exist e then ret ()
            else wrapping (''getting volume symlink location from ('' @ linkInfoPath @ '')'') e)
       (\<lambda>shortID.
         let linkPath = link_path d shortID in
         unless_missing (os_remove linkPath) (wrapping (''removing symlink '' @ linkPath))
         (unless_missing (os_remove linkInfoPath) (wrapping (''removing symlink information file '' @ linkInfoPath))
         (ret ())))"

definition DestroyVolume :: "driver \<Rightarrow> string \<Rightarrow> unit sys" where
  "DestroyVolume d i =
     checked (removeVolumeLink d (link_path d i)) throw (\<lambda>_.
     logged (os_remove (volumeMetaFilePath d i))
     (checked (os_remove_all (volume_path d i)) (wrapping (''destroying volume ('' @ i @ '')'')) ret))"

definition Volumes :: "driver \<Rightarrow> string list sys" where
  "Volumes d = checked (os_read_dir (filepath_join [drv_store d, VolumesDirName]))
     (wrapping ''failed to list volumes'') ret"

definition MoveVolume :: "driver \<Rightarrow> string \<Rightarrow> string \<Rightarrow> unit sys" where
  "MoveVolume d from to =
     if_missing (os_stat from) (wrapping ''source volume doesnt exist'')
     (let oldLinkFile = link_path d (filepath_base from);
          newLinkFile = link_path d (filepath_base to) in
      checked (os_read_file oldLinkFile) (wrapping (''reading link id for volume '' @ to)) (\<lambda>shortID.
      checked (os_rename oldLinkFile newLinkFile) (wrapping ''moving link file'') (\<lambda>_.
      checked (os_remove (link_path d shortID)) (wrapping ''removing symlink'') (\<lambda>_.
      checked (os_symlink to (link_path d shortID)) (wrapping ''updating volume symlink'') (\<lambda>_.
      checked (os_rename from to) (\<lambda>e. if is_exist e then ret () else wrapping ''moving volume'' e) ret)))))"

definition HandleOpaqueWhiteouts :: "driver \<Rightarrow> string \<Rightarrow> string list \<Rightarrow> unit sys" where
  "HandleOpaqueWhiteouts d i opaqueWhiteouts =
     (if length opaqueWhiteouts = 0 then ret ()
      else checked (VolumePath d i) throw (\<lambda>volumePath.
        let args = concat (map (\<lambda>p. [''--opaque-path'', filepath_dir (filepath_join [volumePath, p])]) opaqueWhiteouts) in
        checked (runTardis d (''handle-opqwhiteouts'' # args))
          (wrapping (''handle opaque whiteouts: '' @ nil_buffer)) (\<lambda>_. ret ())))"

definition meta_to_json :: "VolumeMeta \<Rightarrow> json" where
  "meta_to_json m = JObj [(''Size'', JNum (meta_size m))]"

definition meta_of_json :: "json \<Rightarrow> VolumeMeta option" where
  "meta_of_json v = Option.bind (as_obj v) (\<lambda>kvs.
     Option.bind (as_int64 (json_field ''Size'' kvs)) (\<lambda>n. Some \<lparr>meta_size = n\<rparr>))"

definition WriteVolumeMeta :: "driver \<Rightarrow> string \<Rightarrow> VolumeMeta \<Rightarrow> unit sys" where
  "WriteVolumeMeta d i metadata =
     checked (os_create (volumeMetaFilePath d i)) (wrapping ''creating metadata file'') (\<lambda>_.
     checked (write_all (volumeMetaFilePath d i) (print_json (meta_to_json metadata) @ [CHR 0x0A]))
       (wrapping ''writing metadata file'') ret)"

definition moveVolumeMeta :: "driver \<Rightarrow> string \<Rightarrow> string \<Rightarrow> unit sys" where
  "moveVolumeMeta d volID newVolID = os_rename (volumeMetaFilePath d volID) (volumeMetaFilePath d newVolID)"

definition gc_name :: "string \<Rightarrow> string" where
  "gc_name i = ''gc.'' @ i"

definition MarkVolumeArtifacts :: "driver \<Rightarrow> string \<Rightarrow> unit sys" where
  "MarkVolumeArtifacts d i =
     checked (VolumePath d i) (wrapping ''fetching-volume-path'') (\<lambda>volumePath.
     let gcVolID = gc_name i; gcVolumePath = replace_first volumePath i gcVolID in
     checked (MoveVolume d volumePath gcVolumePath) throw (\<lambda>_.
     checked (moveVolumeMeta d i gcVolID) (wrapping ''renaming volume metadata'') ret))"

definition VolumeSize :: "driver \<Rightarrow> string \<Rightarrow> int sys" where
  "VolumeSize d i =
     checked (os_open (volumeMetaFilePath d i)) throw (\<lambda>_.
     checked (os_read_file (volumeMetaFilePath d i)) throw (\<lambda>data.
     (case Option.bind (json_decode data) meta_of_json of
        None \<Rightarrow> throw (Msg ''invalid JSON'')
      | Some metadata \<Rightarrow> ret (meta_size metadata))))"

definition tab :: char where "tab = CHR 0x09"

definition calculatePathSize :: "string \<Rightarrow> int sys" where
  "calculatePathSize p =
     checked (exec_output ''du'' [''-bs'', p] (\<lambda>err. Wrapped (''du failed: '' @ err) (Msg ''exit status 1''))) throw (\<lambda>out.
     let usageString = hd (split_on tab out) in parse_int_io usageString)"

definition GenerateVolumeMeta :: "driver \<Rightarrow> string \<Rightarrow> unit sys" where
  "GenerateVolumeMeta d i =
     checked (VolumePath d i) throw (\<lambda>volumePath.
     checked (calculatePathSize volumePath) throw (\<lambda>n.
     WriteVolumeMeta d i \<lparr>meta_size = n\<rparr>))"

section \<open>Images\<close>

fun getLowerDirs_loop :: "driver \<Rightarrow> string list \<Rightarrow> string list \<Rightarrow> int \<Rightarrow> (string list \<times> int) sys" where
  "getLowerDirs_loop d [] paths acc = ret (paths, acc)"
| "getLowerDirs_loop d (v # vs) paths acc =
     if_missing (os_stat (volume_path d v)) (wrapping ''base volume path does not exist'')
     (checked (VolumeSize d v) (wrapping (''calculating base volume size for volume '' @ v)) (\<lambda>volumeSize.
      checked (os_read_file (link_path d v)) (wrapping (''reading link id for '' @ volume_path d v)) (\<lambda>shortID.
      getLowerDirs_loop d vs (paths @ [filepath_join [LinksDirName, shortID]]) (i64 (acc + volumeSize)))))"

definition getLowerDirs :: "driver \<Rightarrow> string list \<Rightarrow> (string list \<times> int) sys" where
  "getLowerDirs d volumeIDs = getLowerDirs_loop d (rev volumeIDs) [] 0"

definition effective_limit :: "ImageDriverSpec \<Rightarrow> int \<Rightarrow> int option" where
  "effective_limit spec volumeSize =
     (let diskLimit = (if ExclusiveDiskLimit spec then img_disk_limit spec
                       else i64 (img_disk_limit spec - volumeSize)) in
      if \<not> ExclusiveDiskLimit spec \<and> diskLimit < 0 then None
      else Some (if diskLimit < MinQuota then MinQuota else diskLimit))"

definition applyDiskLimit :: "driver \<Rightarrow> ImageDriverSpec \<Rightarrow> int \<Rightarrow> unit sys" where
  "applyDiskLimit d spec volumeSize =
     (if img_disk_limit spec = 0 then ret ()
      else (case effective_limit spec volumeSize of
          None \<Rightarrow> throw (Msg ''disk limit is smaller than volume size'')
        | Some diskLimit \<Rightarrow>
            checked (runTardis d [''limit'', ''--disk-limit-bytes'', itoa diskLimit, ''--image-path'', ImagePath spec])
              (wrapping (''apply disk limit: '' @ nil_buffer)) (\<lambda>_.
            checked (os_write_file (filepath_join [ImagePath spec, imageQuotaName]) (itoa diskLimit) perm_0600)
              (wrapping ''writing image quota'') ret)))"

definition createImageDirectories :: "(string \<times> string) list \<Rightarrow> int \<Rightarrow> int \<Rightarrow> unit sys" where
  "createImageDirectories directories ownerUID ownerGID = checked (ranged directories) throw (\<lambda>dirs.
     for_each dirs (\<lambda>(name, directory).
       checked (os_mkdir directory perm_0755) (wrapping (''creating '' @ name @ '' folder'')) (\<lambda>_.
       checked (os_chmod directory perm_0755) (wrapping (''chmoding '' @ name @ '' folder'')) (\<lambda>_.
       checked (os_chown directory ownerUID ownerGID) (wrapping (''chowning '' @ name @ '' folder'')) ret))))"

definition formatMountData :: "driver \<Rightarrow> string list \<Rightarrow> string \<Rightarrow> string \<Rightarrow> bool \<Rightarrow> string" where
  "formatMountData d lowerDirs workDir upperDir absolute =
     (let dirs = (if absolute then map (\<lambda>l. filepath_join [drv_store d, l]) lowerDirs else lowerDirs) in
      ''lowerdir='' @ join_with '':'' dirs @ '',upperdir='' @ upperDir @ '',workdir='' @ workDir)"

definition mountImage :: "string \<Rightarrow> string \<Rightarrow> unit sys" where
  "mountImage rootfsDir mountData =
     checked (unix_mount ''overlay'' rootfsDir mountData) (wrapping ''mounting overlay'') ret"

definition CreateImage :: "driver \<Rightarrow> ImageDriverSpec \<Rightarrow> MountInfo sys" where
  "CreateImage d spec =
     if_missing (os_stat (ImagePath spec)) (wrapping ''image path does not exist'')
     (checked (getLowerDirs d (img_volumes spec)) (wrapping ''generating lowerdir paths failed'') (\<lambda>(baseVolumePaths, baseVolumeSize).
      checked (applyDiskLimit d spec baseVolumeSize) (wrapping ''applying disk limits'') (\<lambda>_.
      let upperDir = filepath_join [ImagePath spec, UpperDir];
          workDir = filepath_join [ImagePath spec, WorkDir];
          rootfsDir = filepath_join [ImagePath spec, RootfsDir] in
      checked (createImageDirectories [(''upperdir'', upperDir), (''workdir'', workDir), (''rootfs'', rootfsDir)]
                 (img_owner_uid spec) (img_owner_gid spec)) throw (\<lambda>_.
      checked (os_chdir (drv_store d)) (wrapping ''failed to change directory to the store path'') (\<lambda>_.
      checked (if img_mount spec then mountImage rootfsDir (formatMountData d baseVolumePaths workDir upperDir False)
               else ret ()) throw (\<lambda>_.
      let imageInfoFileName = filepath_join [ImagePath spec, imageInfoName] in
      checked (os_write_file imageInfoFileName (itoa baseVolumeSize) perm_0600)
        (wrapping (''writing image info '' @ imageInfoFileName)) (\<lambda>_.
      ret \<lparr>Destination = ''/'', mount_type = ''overlay'', Source = ''overlay'',
           Options = [formatMountData d baseVolumePaths workDir upperDir True]\<rparr>))))))) "

definition ensureImageDestroyed :: "driver \<Rightarrow> string \<Rightarrow> unit sys" where
  "ensureImageDestroyed d imagePath =
     (let rootfs = filepath_join [imagePath, RootfsDir] in
      checked (unmounter d rootfs) (wrapping (''unmount rootfs path '' @ rootfs @ '' failed'')) (\<lambda>_.
      os_remove_all imagePath))"

definition DestroyImage :: "driver \<Rightarrow> string \<Rightarrow> unit sys" where
  "DestroyImage d imagePath =
     observed (GetProjectID imagePath) (\<lambda>r.
       let projectID = (case r of Inl _ \<Rightarrow> 0 | Inr i \<Rightarrow> i) in
       checked (ensureImageDestroyed d imagePath) (wrapping ''deleting image path'') (\<lambda>_.
       if projectID \<noteq> 0 then
         logged (os_remove_all (filepath_join [drv_store d, IDDir, itoa_w32 projectID])) (ret ())
       else ret ()))"

definition FetchStats :: "driver \<Rightarrow> string \<Rightarrow> VolumeStats sys" where
  "FetchStats d imagePath =
     checked (runTardis d [''stats'', ''--volume-path'', imagePath]) (wrapping (''fetch stats: '' @ nil_buffer)) (\<lambda>output.
     (case Option.bind (json_unmarshal output) stats_of_json of
        None \<Rightarrow> throw (Wrapped (''fetch stats: '' @ output) (Msg ''invalid JSON''))
      | Some stats \<Rightarrow> ret stats))"

section \<open>The store's file system\<close>

definition formatFilesystem :: "string \<Rightarrow> unit sys" where
  "formatFilesystem filesystemPath =
     checked (exec_output ''mkfs.xfs'' [''-f'', filesystemPath]
        (\<lambda>_. Msg ''Formatting XFS filesystem: exit status 1'')) throw (\<lambda>_. ret ())"

definition mountFilesystem :: "string \<Rightarrow> string \<Rightarrow> string \<Rightarrow> unit sys" where
  "mountFilesystem source destination option =
     (let allOpts = trim_char (option @ '',loop,pquota,noatime'') CHR '','' in
      checked (exec_output ''mount'' [''-o'', allOpts, ''-t'', ''xfs'', source, destination]
        (\<lambda>output. Msg (''exit status 1: '' @ output))) throw (\<lambda>_. ret ()))"

definition MountFilesystem :: "string \<Rightarrow> string \<Rightarrow> unit sys" where
  "MountFilesystem filesystemPath storePath =
     checked (mountFilesystem filesystemPath storePath []) (wrapping ''Mounting filesystem'') ret"

definition InitFilesystem :: "string \<Rightarrow> string \<Rightarrow> unit sys" where
  "InitFilesystem filesystemPath storePath =
     observed (mountFilesystem filesystemPath storePath ''remount'') (\<lambda>r.
       (case r of
          Inr _ \<Rightarrow> ret ()
        | Inl _ \<Rightarrow> checked (formatFilesystem filesystemPath) throw (\<lambda>_.
            MountFilesystem filesystemPath storePath)))"

definition DeInitFilesystem :: "driver \<Rightarrow> string \<Rightarrow> unit sys" where
  "DeInitFilesystem d storePath =
     checked (unmounter d storePath) (wrapping ''unmounting store path'') ret"

definition createWhiteoutDevice :: "string \<Rightarrow> int \<Rightarrow> int \<Rightarrow> unit sys" where
  "createWhiteoutDevice storePath ownerUID ownerGID =
     (let whiteoutDevicePath = filepath_join [storePath, WhiteoutDevice] in
      if_missing (os_stat whiteoutDevicePath)
        (\<lambda>_. checked (checked (mknod whiteoutDevicePath (\<lambda>a. CharDev a 0) 0)
                 (\<lambda>e. if \<not> is_exist e then wrapping (''failed to create whiteout device '' @ whiteoutDevicePath) e
                      else ret ()) ret) throw (\<lambda>_.
             checked (os_chown whiteoutDevicePath ownerUID ownerGID)
               (wrapping (''changing store owner to '' @ itoa ownerUID @ '':'' @ itoa ownerGID @ '' for path '' @ whiteoutDevicePath)) ret))
        (ret ()))"

definition validateWhiteoutDevice :: "string \<Rightarrow> unit sys" where
  "validateWhiteoutDevice storePath =
     (let p = filepath_join [storePath, WhiteoutDevice];
          invalid = Msg (''the whiteout device file is not a valid device: '' @ p) in
      checked (os_stat p) (\<lambda>e. if \<not> is_exist e then throw e else throw invalid) (\<lambda>st.
        (case st of
           CharDev a dev \<Rightarrow> if dev \<noteq> 0 then throw invalid else ret ()
         | _ \<Rightarrow> throw invalid)))"

definition createStoreDirectory :: "string \<Rightarrow> int \<Rightarrow> int \<Rightarrow> unit sys" where
  "createStoreDirectory p ownerUID ownerGID =
     checked (os_mkdir_all p perm_0755) (wrapping ''creating directory'') (\<lambda>_.
     checked (os_chmod p perm_0755) (wrapping ''chmoding directory'') (\<lambda>_.
     checked (os_chown p ownerUID ownerGID) (wrapping ''creating directory'') ret))"

definition ConfigureStore :: "driver \<Rightarrow> string \<Rightarrow> string \<Rightarrow> int \<Rightarrow> int \<Rightarrow> unit sys" where
  "ConfigureStore d storePath backingStorePath ownerUID ownerGID =
     checked (createWhiteoutDevice storePath ownerUID ownerGID) (wrapping ''Creating whiteout device'') (\<lambda>_.
     checked (validateWhiteoutDevice storePath) (wrapping ''Invalid whiteout device'') (\<lambda>_.
     checked (createStoreDirectory (filepath_join [storePath, LinksDirName]) ownerUID ownerGID)
       (wrapping ''Create links directory'') (\<lambda>_.
     checked (createStoreDirectory (filepath_join [storePath, IDDir]) ownerUID ownerGID)
       (wrapping ''Create ids directory'') (\<lambda>_.
     checked (os_stat backingStorePath)
       (\<lambda>e. if is_not_exist e then ret () else throw e)
       (\<lambda>_. checked (directIO d backingStorePath)
          (\<lambda>e. throw (Msg (''enabling direct-io on '' @ backingStorePath @ '': '' @ error_text e))) ret)))))"

definition ValidateFileSystem :: "string \<Rightarrow> unit sys" where
  "ValidateFileSystem p = checked (CheckFSPath p ''xfs'' [''noatime'', ''prjquota''])
     (wrapping ''overlay-xfs filesystem validation'') ret"

section \<open>The driver in a user namespace\<close>

record DriverSpec =
  spec_type :: string
  spec_store_path :: string
  SuidBinaryPath :: string

definition Marshal :: "driver \<Rightarrow> string" where
  "Marshal d = print_json (JObj [(''type'', JStr ''overlay-xfs''), (''store_path'', JStr (drv_store d)),
     (''suid_binary_path'', JStr (tardisBinPath d))])"

definition driver_spec_of_json :: "json \<Rightarrow> DriverSpec option" where
  "driver_spec_of_json v = Option.bind (as_obj v) (\<lambda>kvs.
     Option.bind (as_str (json_field ''type'' kvs)) (\<lambda>t.
     Option.bind (as_str (json_field ''store_path'' kvs)) (\<lambda>s.
     Option.bind (as_str (json_field ''suid_binary_path'' kvs)) (\<lambda>b.
     Some \<lparr>spec_type = t, spec_store_path = s, SuidBinaryPath = b\<rparr>))))"

text \<open>The outside world of a driver, which \<open>specToDriver\<close> links in again.\<close>

definition specToDriver :: "(string list \<Rightarrow> exec_result sys) \<Rightarrow> (int \<Rightarrow> goerr + string) \<Rightarrow> DriverSpec \<Rightarrow> goerr + driver" where
  "specToDriver tardis sid spec =
     (if spec_type spec = ''overlay-xfs'' then
        Inr \<lparr>drv_store = spec_store_path spec, tardisBinPath = SuidBinaryPath spec,
             unmounter = rootless_unmount, directIO = NoopDirectIO_Configure,
             tardis_program = tardis, shortid = sid\<rparr>
      else Inl (Msg (''invalid filesystem spec: '' @ spec_type spec @ '' not recognized'')))"

text \<open>The functions registered with the sandbox; the first argument is the command's name.\<close>

definition sandboxed_driver :: "(string list \<Rightarrow> exec_result sys) \<Rightarrow> (int \<Rightarrow> goerr + string) \<Rightarrow> string \<Rightarrow> goerr + driver" where
  "sandboxed_driver tardis sid json_text =
     (case Option.bind (json_unmarshal json_text) driver_spec_of_json of
        None \<Rightarrow> Inl (Wrapped ''unmarshaling driver spec'' (Msg ''invalid JSON''))
      | Some spec \<Rightarrow> (case specToDriver tardis sid spec of
          Inl e \<Rightarrow> Inl (Wrapped ''creating fsdriver'' e) | Inr d \<Rightarrow> Inr d))"

definition destroy_volume_command :: "(string list \<Rightarrow> exec_result sys) \<Rightarrow> (int \<Rightarrow> goerr + string) \<Rightarrow> string list \<Rightarrow> unit sys" where
  "destroy_volume_command tardis sid args =
     (if length args \<noteq> 3 then throw (Msg ''drivers json or id not specified'')
      else (case sandboxed_driver tardis sid (args ! 1) of
          Inl e \<Rightarrow> throw e
        | Inr d \<Rightarrow> checked (DestroyVolume d (args ! 2)) (wrapping ''destroying volume'') ret))"

definition destroy_image_command :: "(string list \<Rightarrow> exec_result sys) \<Rightarrow> (int \<Rightarrow> goerr + string) \<Rightarrow> string list \<Rightarrow> unit sys" where
  "destroy_image_command tardis sid args =
     (if length args \<noteq> 3 then throw (Msg ''drivers json or path not specified'')
      else (case sandboxed_driver tardis sid (args ! 1) of
          Inl e \<Rightarrow> throw e
        | Inr d \<Rightarrow> checked (DestroyImage d (args ! 2)) (wrapping ''destroying image'') ret))"

text \<open>When the re-execution fails it returns no output, so the message ends at the colon.\<close>

definition ns_DestroyVolume :: "driver \<Rightarrow> reexecer \<Rightarrow> bool \<Rightarrow> string \<Rightarrow> unit sys" where
  "ns_DestroyVolume d reexec shouldCloneUserNs i =
     (if \<not> shouldCloneUserNs then DestroyVolume d i
      else checked (reexec ''destroy-volume''
             \<lparr>Stdin = [], ChrootDir = [], ExtraFiles = [], Args = [Marshal d, i], CloneUserns = True\<rparr>)
           (wrapping ''reexecing destroy volume: '') (\<lambda>_. ret ()))"

definition ns_DestroyImage :: "driver \<Rightarrow> reexecer \<Rightarrow> bool \<Rightarrow> string \<Rightarrow> unit sys" where
  "ns_DestroyImage d reexec shouldCloneUserNs p =
     (if \<not> shouldCloneUserNs then DestroyImage d p
      else checked (reexec ''destroy-image''
             \<lparr>Stdin = [], ChrootDir = [], ExtraFiles = [], Args = [Marshal d, p], CloneUserns = True\<rparr>)
           (wrapping ''waiting for destroy image reexec: '') (\<lambda>_. ret ()))"

end
