(* ===== verification/Overlay_Facts.thy ===== *)
theory Overlay_Facts
  imports Overlay
begin

text \<open>
  Which paths the volume operations of the overlay driver touch, and the invariant
  \<open>store_ok\<close> of a store's links and volumes that every one of them keeps, whatever fails:
  link files hold names without a slash, symbolic links in the links directory lead to
  volumes, and what is in the volumes directory is a directory with a plain name.
\<close>

section \<open>Paths\<close>

lemma plain_driver_names [simp]: "plain_name LinksDirName" "plain_name IDDir"
  by (simp_all add: LinksDirName_def IDDir_def plain_name_def)

lemma driver_names_distinct [simp]:
  "LinksDirName \<noteq> VolumesDirName" "VolumesDirName \<noteq> LinksDirName"
  "MetaDirName \<noteq> VolumesDirName" "VolumesDirName \<noteq> MetaDirName"
  "MetaDirName \<noteq> LinksDirName" "LinksDirName \<noteq> MetaDirName"
  "ImageDirName \<noteq> VolumesDirName" "ImageDirName \<noteq> LinksDirName" "ImageDirName \<noteq> MetaDirName"
  "VolumesDirName \<noteq> ImageDirName" "LinksDirName \<noteq> ImageDirName" "MetaDirName \<noteq> ImageDirName"
  by (simp_all add: LinksDirName_def store_names)

definition safe_name :: "string \<Rightarrow> bool" where
  "safe_name c \<longleftrightarrow> CHR ''/'' \<notin> set c \<and> c \<noteq> ''.'' \<and> c \<noteq> ''..''"

lemma safe_name_cases: "safe_name c \<Longrightarrow> c = [] \<or> plain_name c"
  by (auto simp: safe_name_def plain_name_def)

lemma plain_volume_meta [simp]: "plain_name i \<Longrightarrow> plain_name (''volume-'' @ i)"
  by (rule plain_name_append) (auto simp: plain_name_def)

lemma plain_gc_name [simp]: "plain_name i \<Longrightarrow> plain_name (gc_name i)"
  unfolding gc_name_def by (rule plain_name_append) (auto simp: plain_name_def)

lemma volume_path_facts:
  assumes "abs_path (drv_store d)" and "plain_name i"
  shows "comps (volume_path d i) = comps (drv_store d) @ [VolumesDirName, i]"
    and "is_rooted (volume_path d i)"
    and "volume_path d i = path_of (comps (drv_store d) @ [VolumesDirName, i])"
  using abs_path_join [OF assms(1), of "[VolumesDirName, i]"] assms(2)
  by (simp_all add: volume_path_def is_rooted_abs)

lemma meta_path_facts:
  assumes "abs_path (drv_store d)" and "plain_name i"
  shows "comps (volumeMetaFilePath d i) = comps (drv_store d) @ [MetaDirName, ''volume-'' @ i]"
    and "is_rooted (volumeMetaFilePath d i)"
  using join_comps [OF assms(1), of "[MetaDirName, ''volume-'' @ i]"] assms(2) plain_volume_meta [OF assms(2)]
  by (simp_all add: volumeMetaFilePath_def del: plain_volume_meta)

lemma link_path_facts:
  assumes abs_store: "abs_path (drv_store d)" and safe: "safe_name c"
  shows "comps (link_path d c) = comps (drv_store d) @ LinksDirName # (if c = [] then [] else [c])"
    and "is_rooted (link_path d c)"
proof -
  have "comps (link_path d c) = comps (drv_store d) @ LinksDirName # (if c = [] then [] else [c]) \<and> is_rooted (link_path d c)"
  proof (cases "c = []")
    case True
    have s: "split_on CHR ''/'' (join_with ''/'' [drv_store d, LinksDirName, []]) =
        split_on CHR ''/'' (drv_store d) @ [LinksDirName, []]"
      by (subst split_on_join) (simp_all add: LinksDirName_def)
    have ne: "drv_store d \<noteq> []" and r: "is_rooted (drv_store d)"
      using abs_store by (auto simp: abs_path_def path_of_def is_rooted_def)
    then have r': "is_rooted (join_with ''/'' [drv_store d, LinksDirName, []])"
      by (cases "drv_store d") (auto simp: is_rooted_def)
    obtain cs where cs: "list_all plain_name cs" and st: "drv_store d = path_of cs"
      using abs_store by (auto simp: abs_path_def)
    have "clean_comps True (split_on CHR ''/'' (drv_store d) @ [LinksDirName, []]) = cs @ [LinksDirName]"
      using cs by (auto simp: st split_on_path_of clean_comps_def foldl_push_plain LinksDirName_def)
    then have "link_path d [] = path_of (cs @ [LinksDirName])"
      using ne r' s by (simp add: link_path_def filepath_join_def filepath_clean_def path_of_def Let_def)
    then show ?thesis using cs True by (simp add: st)
  next
    case False
    with safe safe_name_cases have "plain_name c" by blast
    with False show ?thesis using join_comps [OF abs_store, of "[LinksDirName, c]"]
      by (simp add: link_path_def)
  qed
  then show "comps (link_path d c) = comps (drv_store d) @ LinksDirName # (if c = [] then [] else [c])"
    and "is_rooted (link_path d c)" by simp_all
qed

lemma link_path_plain:
  assumes "abs_path (drv_store d)" and "plain_name c"
  shows "comps (link_path d c) = comps (drv_store d) @ [LinksDirName, c]" and "is_rooted (link_path d c)"
proof -
  have "safe_name c" and "c \<noteq> []" using assms(2) by (auto simp: plain_name_def safe_name_def)
  then show "comps (link_path d c) = comps (drv_store d) @ [LinksDirName, c]" and "is_rooted (link_path d c)"
    using link_path_facts [OF assms(1), of c] by simp_all
qed

section \<open>The invariant\<close>

fun link_ok :: "driver \<Rightarrow> node option \<Rightarrow> bool" where
  "link_ok d (Some (Regular a c)) = safe_name c"
| "link_ok d (Some (Symlink t)) = (\<exists>x. plain_name x \<and> t = volume_path d x)"
| "link_ok d _ = True"

definition store_ok :: "driver \<Rightarrow> world \<Rightarrow> bool" where
  "store_ok d w \<longleftrightarrow> abs_path (drv_store d) \<and>
     (\<forall>n. link_ok d (nodes w (comps (drv_store d) @ [LinksDirName, n]))) \<and>
     (\<forall>x n. nodes w (comps (drv_store d) @ [VolumesDirName, x]) = Some n \<longrightarrow> plain_name x \<and> is_dir_node n)"

definition in_links :: "driver \<Rightarrow> path \<Rightarrow> bool" where
  "in_links d q \<longleftrightarrow> (\<exists>n. q = comps (drv_store d) @ [LinksDirName, n])"

definition in_volumes :: "driver \<Rightarrow> path \<Rightarrow> bool" where
  "in_volumes d q \<longleftrightarrow> (\<exists>x. q = comps (drv_store d) @ [VolumesDirName, x])"

lemma store_ok_frozen:
  "frozen (\<lambda>q. in_links d q \<or> in_volumes d q) w w' \<Longrightarrow> store_ok d w \<Longrightarrow> store_ok d w'"
  unfolding frozen_def store_ok_def in_links_def in_volumes_def by simp

lemma store_ok_abs: "store_ok d w \<Longrightarrow> abs_path (drv_store d)"
  by (simp add: store_ok_def)

lemma keeps_ok_abs: "(abs_path (drv_store d) \<Longrightarrow> keeps (store_ok d) m) \<Longrightarrow> keeps (store_ok d) m"
  by (cases "abs_path (drv_store d)") (auto intro: keepsI simp: store_ok_def)

lemma store_okI:
  assumes "store_ok d w"
    and "\<And>n. nodes w' (comps (drv_store d) @ [LinksDirName, n]) = nodes w (comps (drv_store d) @ [LinksDirName, n]) \<or>
      link_ok d (nodes w' (comps (drv_store d) @ [LinksDirName, n]))"
    and "\<And>x n. nodes w' (comps (drv_store d) @ [VolumesDirName, x]) = Some n \<Longrightarrow>
      nodes w (comps (drv_store d) @ [VolumesDirName, x]) = Some n \<or> plain_name x \<and> is_dir_node n"
  shows "store_ok d w'"
  using assms unfolding store_ok_def by metis

lemma link_ok_upd: "store_ok d w \<Longrightarrow> link_ok d (nodes w (comps (drv_store d) @ [LinksDirName, n]))"
  by (simp add: store_ok_def)

text \<open>A symbolic link in the links directory leads to a directory or nowhere.\<close>

lemma link_target:
  assumes ok: "store_ok d w" and link: "nodes w (comps (drv_store d) @ [LinksDirName, i]) = Some (Symlink t)"
    and st: "stat_node w (comps (drv_store d) @ [LinksDirName, i]) = Inr n"
  shows "\<exists>a. n = Dir a"
proof -
  obtain x where x: "plain_name x" and t: "t = volume_path d x"
    using link_ok_upd [OF ok, of i] link by auto
  have r: "is_rooted t" and ct: "comps t = comps (drv_store d) @ [VolumesDirName, x]"
    using volume_path_facts [OF store_ok_abs [OF ok] x] by (simp_all add: t)
  show ?thesis
  proof (cases "nodes w (comps t)")
    case None
    with stat_node_Symlink(2) [OF link r] st show ?thesis by simp
  next
    case (Some y)
    with ok have "is_dir_node y" by (auto simp: store_ok_def ct)
    then obtain a where "y = Dir a" by (auto simp: is_dir_node_iff)
    with Some stat_node_Symlink(1) [OF link r] st show ?thesis by simp
  qed
qed

text \<open>What is read from a link file is a name without a slash.\<close>

lemma read_link:
  assumes "store_ok d w" and "plain_name i" and "os_read_file (link_path d i) w = (Inr c, w')"
  shows "safe_name c"
proof -
  let ?q = "comps (drv_store d) @ [LinksDirName, i]"
  have at: "at_path w (link_path d i) = ?q"
    using link_path_plain [OF store_ok_abs [OF assms(1)] assms(2)] by simp
  from os_read_file_cases [OF assms(3)] at obtain n where
    n: "stat_node w ?q = Inr n" "\<not> is_dir_node n" "c = (case n of Regular a c' \<Rightarrow> c' | _ \<Rightarrow> [])"
    by auto
  show ?thesis
  proof (cases "nodes w ?q")
    case (Some m)
    then show ?thesis
      using n link_target [OF assms(1) _ n(1)] link_ok_upd [OF assms(1), of i]
      by (cases m) (auto simp: safe_name_def)
  qed (use n in simp)
qed

lemma hoare_read_link:
  assumes "plain_name i" and "\<And>w. I w \<Longrightarrow> store_ok d w" and "on_tree I"
  shows "hoare I (os_read_file (link_path d i)) (\<lambda>c w. I w \<and> safe_name c) (\<lambda>_. I)"
proof (rule hoareI)
  fix w x w'
  assume "I w" and run: "os_read_file (link_path d i) w = (Inr x, w')"
  then show "I w' \<and> safe_name x"
    using keeps_on_tree(4) [OF assms(3)] read_link [OF assms(2) assms(1) run] by (auto dest: keepsD)
next
  fix w e w'
  assume "I w" and "os_read_file (link_path d i) w = (Inl e, w')"
  then show "I w'" using keeps_on_tree(4) [OF assms(3)] by (auto dest: keepsD)
qed

lemma on_tree_store_ok [simp]: "on_tree (store_ok d)"
  by (auto simp: on_tree_def store_ok_def)

text \<open>The calls the operations are made of keep the invariant.\<close>

lemma keeps_ok_meta [keeps_intro]:
  assumes "plain_name i"
  shows "keeps (store_ok d) (os_remove (volumeMetaFilePath d i))"
    and "keeps (store_ok d) (os_create (volumeMetaFilePath d i))"
    and "keeps (store_ok d) (write_all (volumeMetaFilePath d i) s)"
    and "plain_name j \<Longrightarrow> keeps (store_ok d) (os_rename (volumeMetaFilePath d i) (volumeMetaFilePath d j))"
  by (rule keeps_ok_abs, frule meta_path_facts(1) [OF _ assms(1)], frule meta_path_facts(2) [OF _ assms(1)],
      (auto intro!: keeps_via_frozen [OF store_ok_frozen] keeps_intro
        simp: meta_path_facts misses_def misses_below_def in_links_def in_volumes_def prefix_def) [])+

lemma keeps_ok_remove_link [keeps_intro]:
  assumes "safe_name c"
  shows "keeps (store_ok d) (os_remove (link_path d c))"
proof (rule keepsI)
  fix w r w'
  assume ok: "store_ok d w" and run: "os_remove (link_path d c) w = (r, w')"
  then show "store_ok d w'"
    using os_remove_cases [OF run] link_path_facts [OF store_ok_abs [OF ok] assms]
    by (intro store_okI [OF ok]) (auto split: if_splits)
qed

lemma keeps_ok_symlink [keeps_intro]:
  assumes "safe_name c" and "plain_name x"
  shows "keeps (store_ok d) (os_symlink (volume_path d x) (link_path d c))"
proof (rule keepsI)
  fix w r w'
  assume ok: "store_ok d w" and run: "os_symlink (volume_path d x) (link_path d c) w = (r, w')"
  then show "store_ok d w'"
    using os_symlink_cases [OF run] link_path_facts [OF store_ok_abs [OF ok] assms(1)] assms(2)
    by (intro store_okI [OF ok]) (auto split: if_splits)
qed

lemma keeps_ok_rename_link [keeps_intro]:
  assumes "plain_name a" and "plain_name b"
  shows "keeps (store_ok d) (os_rename (link_path d a) (link_path d b))"
proof (rule keepsI)
  fix w r w'
  assume ok: "store_ok d w" and run: "os_rename (link_path d a) (link_path d b) w = (r, w')"
  let ?p = "comps (drv_store d) @ [LinksDirName, a]" and ?q = "comps (drv_store d) @ [LinksDirName, b]"
  have at: "at_path w (link_path d a) = ?p" "at_path w (link_path d b) = ?q"
    using link_path_plain [OF store_ok_abs [OF ok]] assms by simp_all
  from os_rename_cases [OF run] at have
    "(\<exists>fs. w' = w\<lparr>faults := fs\<rparr>) \<or> (a \<noteq> b \<and> (\<exists>fs. w' = move ?p ?q (w\<lparr>faults := fs\<rparr>)))"
    by auto
  then show "store_ok d w'"
  proof (elim disjE exE conjE)
    fix fs assume "w' = w\<lparr>faults := fs\<rparr>"
    with ok show ?thesis by (simp add: store_ok_def)
  next
    fix fs assume ne: "a \<noteq> b" and w': "w' = move ?p ?q (w\<lparr>faults := fs\<rparr>)"
    have np: "\<not> prefix ?p ?q" "\<not> prefix ?q ?p" using ne by (auto simp: prefix_def)
    show ?thesis
    proof (rule store_okI [OF ok])
      fix n
      have "link_ok d (nodes w ?p)" using ok by (rule link_ok_upd)
      then show "nodes w' (comps (drv_store d) @ [LinksDirName, n]) = nodes w (comps (drv_store d) @ [LinksDirName, n]) \<or>
          link_ok d (nodes w' (comps (drv_store d) @ [LinksDirName, n]))"
        using nodes_move [OF np] by (simp add: w')
    next
      fix x n
      assume "nodes w' (comps (drv_store d) @ [VolumesDirName, x]) = Some n"
      then show "nodes w (comps (drv_store d) @ [VolumesDirName, x]) = Some n \<or> plain_name x \<and> is_dir_node n"
        using nodes_move [OF np] by (auto simp: w' split: if_splits)
    qed
  qed
qed

lemma keeps_ok_rename_volume [keeps_intro]:
  assumes "plain_name a" and "plain_name b"
  shows "keeps (store_ok d) (os_rename (volume_path d a) (volume_path d b))"
proof (rule keepsI)
  fix w r w'
  assume ok: "store_ok d w" and run: "os_rename (volume_path d a) (volume_path d b) w = (r, w')"
  let ?p = "comps (drv_store d) @ [VolumesDirName, a]" and ?q = "comps (drv_store d) @ [VolumesDirName, b]"
  have at: "at_path w (volume_path d a) = ?p" "at_path w (volume_path d b) = ?q"
    using volume_path_facts [OF store_ok_abs [OF ok]] assms by simp_all
  from os_rename_cases [OF run] at have
    "(\<exists>fs. w' = w\<lparr>faults := fs\<rparr>) \<or> (a \<noteq> b \<and> (\<exists>fs. w' = move ?p ?q (w\<lparr>faults := fs\<rparr>)))"
    by auto
  then show "store_ok d w'"
  proof (elim disjE exE conjE)
    fix fs assume "w' = w\<lparr>faults := fs\<rparr>"
    with ok show ?thesis by (simp add: store_ok_def)
  next
    fix fs assume ne: "a \<noteq> b" and w': "w' = move ?p ?q (w\<lparr>faults := fs\<rparr>)"
    have np: "\<not> prefix ?p ?q" "\<not> prefix ?q ?p" using ne by (auto simp: prefix_def)
    show ?thesis
    proof (rule store_okI [OF ok])
      fix n
      show "nodes w' (comps (drv_store d) @ [LinksDirName, n]) = nodes w (comps (drv_store d) @ [LinksDirName, n]) \<or>
          link_ok d (nodes w' (comps (drv_store d) @ [LinksDirName, n]))"
        using nodes_move [OF np] by (simp add: w')
    next
      fix x n
      assume x: "nodes w' (comps (drv_store d) @ [VolumesDirName, x]) = Some n"
      have "nodes w ?p = Some m \<Longrightarrow> is_dir_node m" for m using ok by (auto simp: store_ok_def)
      with x assms(2) show "nodes w (comps (drv_store d) @ [VolumesDirName, x]) = Some n \<or> plain_name x \<and> is_dir_node n"
        using nodes_move [OF np] by (auto simp: w' split: if_splits)
    qed
  qed
qed

lemma keeps_ok_remove_all [keeps_intro]:
  assumes "plain_name i"
  shows "keeps (store_ok d) (os_remove_all (volume_path d i))"
proof (rule keepsI)
  fix w r w'
  assume ok: "store_ok d w" and run: "os_remove_all (volume_path d i) w = (r, w')"
  have "removable w (at_path w (volume_path d i)) q \<Longrightarrow> prefix (at_path w (volume_path d i)) q" for q
    by (simp add: removable_def)
  with os_remove_all_cases [OF run] volume_path_facts [OF store_ok_abs [OF ok] assms] show "store_ok d w'"
    by (intro store_okI [OF ok]) (auto split: if_splits)
qed

end
