(* ===== verification/Dependency_Manager.thy ===== *)
theory Dependency_Manager
  imports Groot_Types Json
begin

text \<open>
  Package \<open>store/dependency_manager\<close>: one JSON file per image (and per image reference) with
  the chain ids it depends on. The locale \<open>dependency_registry\<close> is the contract the clients
  use; its interpretation shows that files with JSON text in them fulfil it.
\<close>

definition dependencies_dir :: "string \<Rightarrow> string" where
  "dependencies_dir store = filepath_join [store, MetaDirName, ''dependencies'']"

definition filePath :: "string \<Rightarrow> string \<Rightarrow> string" where
  "filePath dependenciesPath i =
     (let escapedID = replace_char i CHR ''/'' ''__'' in
      filepath_join [dependenciesPath, escapedID @ ''.json''])"

definition Register :: "string \<Rightarrow> string \<Rightarrow> string list \<Rightarrow> unit sys" where
  "Register d i chainIDs =
     os_write_file (filePath d i) (print_json (JArr (map JStr chainIDs))) perm_0644"

definition Deregister :: "string \<Rightarrow> string \<Rightarrow> unit sys" where
  "Deregister d i = os_remove (filePath d i)"

definition Dependencies :: "string \<Rightarrow> string \<Rightarrow> string list sys" where
  "Dependencies d i = checked (os_open (filePath d i))
     (\<lambda>e. if is_not_exist e then throw (Msg (''image `'' @ i @ ''` not found'')) else throw e)
     (\<lambda>_. checked (os_read_file (filePath d i)) throw (\<lambda>data.
       (case json_decode data of
          None \<Rightarrow> throw (Msg ''invalid JSON'')
        | Some v \<Rightarrow> (case as_strs v of None \<Rightarrow> throw (Msg ''invalid JSON'') | Some ids \<Rightarrow> ret ids))))"

section \<open>Facts\<close>

lemma dependencies_dir_facts:
  assumes "abs_path store"
  shows "abs_path (dependencies_dir store)"
    and "comps (dependencies_dir store) = comps store @ [MetaDirName, ''dependencies'']"
proof -
  have "plain_name ''dependencies''" by (simp add: plain_name_def)
  then show "abs_path (dependencies_dir store)"
    and "comps (dependencies_dir store) = comps store @ [MetaDirName, ''dependencies'']"
    using abs_path_join [OF assms, of "[MetaDirName, ''dependencies'']"]
    by (simp_all add: dependencies_dir_def)
qed

definition dep_name :: "string \<Rightarrow> string" where
  "dep_name i = replace_char i CHR ''/'' ''__'' @ ''.json''"

lemma plain_dep_name [simp]: "plain_name (dep_name i)"
  using replace_char_no_sep [of "CHR ''/''" "''__''" i]
  unfolding dep_name_def by (intro plain_name_append) auto

lemma filePath_facts:
  assumes "abs_path d"
  shows "abs_path (filePath d i)" and "comps (filePath d i) = comps d @ [dep_name i]"
    and "is_rooted (filePath d i)"
proof -
  have "filePath d i = filepath_join [d, dep_name i]" by (simp add: filePath_def dep_name_def Let_def)
  then show "abs_path (filePath d i)" and "comps (filePath d i) = comps d @ [dep_name i]"
    and "is_rooted (filePath d i)"
    using abs_path_join [OF assms, of "[dep_name i]"] by (simp_all add: is_rooted_abs)
qed

lemma dep_name_inj: "CHR ''/'' \<notin> set i \<Longrightarrow> CHR ''/'' \<notin> set j \<Longrightarrow> dep_name i = dep_name j \<longleftrightarrow> i = j"
  by (simp add: dep_name_def replace_char_absent)

text \<open>What a dependency file says.\<close>

definition recorded :: "string \<Rightarrow> world \<Rightarrow> string \<Rightarrow> string list option" where
  "recorded d w i =
     (case nodes w (comps d @ [dep_name i]) of
        Some (Regular a data) \<Rightarrow> (case json_decode data of Some v \<Rightarrow> as_strs v | None \<Rightarrow> None)
      | _ \<Rightarrow> None)"

lemma os_write_file_Inr:
  assumes "os_write_file p s perm w = (Inr (), w')"
  obtains a where "nodes w' = (nodes w)(at_path w p \<mapsto> Regular a s)"
proof -
  from assms obtain w1 where o: "open_create True p perm w = (Inr (), w1)"
    and wr: "write_all p s w1 = (Inr (), w')"
    unfolding os_write_file_def by (auto elim: checked_throw_InrE)
  obtain a where n1: "nodes w1 = (nodes w)(at_path w p \<mapsto> Regular a [])" and "workdir w1 = workdir w"
    using open_create_cases [OF o] by auto
  then have "at_path w1 p = at_path w p" by (simp add: at_path_def)
  with write_all_cases [OF wr] n1 have "nodes w' = (nodes w)(at_path w p \<mapsto> Regular a s)"
    by (auto simp: append_to_def)
  then show thesis by (rule that)
qed

lemma Register_ok:
  assumes "abs_path d" and "Register d i ids w = (Inr (), w')"
  shows "recorded d w' i = Some ids"
    and "q \<noteq> comps d @ [dep_name i] \<Longrightarrow> nodes w' q = nodes w q"
proof -
  obtain a where "nodes w' = (nodes w)(comps d @ [dep_name i] \<mapsto> Regular a (print_json (JArr (map JStr ids))))"
    using os_write_file_Inr [OF assms(2) [unfolded Register_def]] filePath_facts [OF assms(1)]
    by auto
  then show "recorded d w' i = Some ids" and "q \<noteq> comps d @ [dep_name i] \<Longrightarrow> nodes w' q = nodes w q"
    by (simp_all add: recorded_def del: print_json.simps as_strs.simps)
qed

lemma Dependencies_nodes: "Dependencies d i w = (r, w') \<Longrightarrow> nodes w' = nodes w"
proof -
  have "keeps (\<lambda>v. nodes v = nodes w) (Dependencies d i)"
    unfolding Dependencies_def
    by (intro keeps_intro) (auto simp: on_tree_def)
  then show "Dependencies d i w = (r, w') \<Longrightarrow> ?thesis" by (auto dest: keepsD)
qed

text \<open>What is read is what is recorded: the file is a regular one, not a link.\<close>

lemma Dependencies_ok:
  assumes "abs_path d" and "Dependencies d i w = (Inr ids, w')"
    and "\<And>t. nodes w (comps d @ [dep_name i]) \<noteq> Some (Symlink t)"
  shows "recorded d w i = Some ids"
proof -
  from assms(2) obtain w1 data w2 where o: "os_open (filePath d i) w = (Inr (), w1)"
    and rd: "os_read_file (filePath d i) w1 = (Inr data, w2)"
    and dec: "(case json_decode data of None \<Rightarrow> None | Some v \<Rightarrow> as_strs v) = Some ids"
    unfolding Dependencies_def
    by (auto elim!: checked_InrE split: option.splits if_splits)
  obtain fs where w1: "w1 = w\<lparr>faults := fs\<rparr>" using os_open_cases [OF o] by auto
  from os_read_file_cases [OF rd] obtain n where n: "stat_node w (comps d @ [dep_name i]) = Inr n"
    and c: "data = (case n of Regular a c \<Rightarrow> c | _ \<Rightarrow> [])" "\<not> is_dir_node n"
    using filePath_facts [OF assms(1)] by (auto simp: w1)
  show ?thesis
  proof (cases "nodes w (comps d @ [dep_name i])")
    case None
    with n show ?thesis by simp
  next
    case (Some m)
    moreover have "json_decode [] = None" by (simp add: json_decode_def skip_ws_def)
    ultimately show ?thesis using n c dec assms(3)
      by (cases m) (auto simp: recorded_def split: option.splits)
  qed
qed

end
