(* ===== verification/Image_Manager.thy ===== *)
theory Image_Manager
  imports Overlay
begin

text \<open>
  Package \<open>store/image_manager\<close>: the image directories of a store, over an image driver.
  \<open>Create\<close> defers its clean-up to the variable \<open>err\<close> of the outer scope; the error of
  \<open>setOwnership\<close> is assigned to a variable that shadows it, so that branch returns without
  the clean-up.
\<close>

record image_driver =
  drv_create_image :: "ImageDriverSpec \<Rightarrow> MountInfo sys"
  drv_destroy_image :: "string \<Rightarrow> unit sys"
  drv_fetch_stats :: "string \<Rightarrow> VolumeStats sys"

definition imagePath :: "string \<Rightarrow> string \<Rightarrow> string" where
  "imagePath store i = filepath_join [store, ImageDirName, i]"

definition ImageIDs :: "string \<Rightarrow> string list sys" where
  "ImageIDs store = checked (os_read_dir (filepath_join [store, ImageDirName]))
     (wrapping ''failed to read images dir'') ret"

definition setOwnership :: "ImageSpec \<Rightarrow> string list \<Rightarrow> unit sys" where
  "setOwnership spec paths =
     (if spec_owner_uid spec = 0 \<and> spec_owner_gid spec = 0 then ret ()
      else for_each paths (\<lambda>p. checked (os_chown p (spec_owner_uid spec) (spec_owner_gid spec))
        (wrapping (''changing '' @ p @ '' ownership to '' @ itoa (spec_owner_uid spec) @ '':'' @ itoa (spec_owner_gid spec))) ret))"

definition imageInfo :: "string \<Rightarrow> string \<Rightarrow> oci_image \<Rightarrow> MountInfo \<Rightarrow> bool \<Rightarrow> ImageInfo" where
  "imageInfo rootfsPath p baseImage mountJson mount =
     \<lparr>Rootfs = rootfsPath, info_image = baseImage, Mounts = (if \<not> mount then [mountJson] else []), info_path = p\<rparr>"

definition create_failed_cleaning_up :: "image_driver \<Rightarrow> string \<Rightarrow> goerr \<Rightarrow> 'a sys" where
  "create_failed_cleaning_up drv p result =
     logged (drv_destroy_image drv p) (logged (os_remove_all p) (throw result))"

definition image_Create :: "image_driver \<Rightarrow> string \<Rightarrow> ImageSpec \<Rightarrow> ImageInfo sys" where
  "image_Create drv store spec =
     (let p = imagePath store (spec_id spec); imageRootFSPath = filepath_join [p, ''rootfs''] in
      checked (os_mkdir p perm_0700) (\<lambda>e. create_failed_cleaning_up drv p (Wrapped ''making image path'' e)) (\<lambda>_.
      checked (drv_create_image drv \<lparr>img_volumes = BaseVolumeIDs spec, img_mount = spec_mount spec, ImagePath = p,
          img_disk_limit = spec_disk_limit spec, ExclusiveDiskLimit = spec_exclude spec,
          img_owner_uid = spec_owner_uid spec, img_owner_gid = spec_owner_gid spec\<rparr>)
        (\<lambda>e. create_failed_cleaning_up drv p (Wrapped ''creating image'' e)) (\<lambda>mountInfo.
      checked (setOwnership spec [p, imageRootFSPath]) throw (\<lambda>_.
      ret (imageInfo imageRootFSPath p (spec_base_image spec) mountInfo (spec_mount spec))))))"

definition image_Exists :: "string \<Rightarrow> string \<Rightarrow> bool sys" where
  "image_Exists store i = checked (os_stat (imagePath store i))
     (\<lambda>e. if is_not_exist e then ret False else wrapping (''checking if image `'' @ i @ ''` exists'') e)
     (\<lambda>_. ret True)"

definition image_Destroy :: "image_driver \<Rightarrow> string \<Rightarrow> string \<Rightarrow> unit sys" where
  "image_Destroy drv store i =
     checked (image_Exists store i) (wrapping (''unable to check image: '' @ i)) (\<lambda>ok.
     if \<not> ok then throw (Msg (''image not found: '' @ i)) else
     logged (drv_destroy_image drv (imagePath store i))
     (observed (os_stat (imagePath store i)) (\<lambda>r.
        (case r of
           Inr _ \<Rightarrow> throw (Msg (''deleting image path '' @ imagePath store i @ '' failed''))
         | Inl _ \<Rightarrow> ret ()))))"

definition image_Stats :: "image_driver \<Rightarrow> string \<Rightarrow> string \<Rightarrow> VolumeStats sys" where
  "image_Stats drv store i =
     checked (image_Exists store i) (\<lambda>_. throw (Msg (''image not found: '' @ i))) (\<lambda>ok.
     if \<not> ok then throw (Msg (''image not found: '' @ i))
     else drv_fetch_stats drv (imagePath store i))"

text \<open>The overlay driver as the image driver of the store.\<close>

definition overlay_images :: "driver \<Rightarrow> image_driver" where
  "overlay_images d = \<lparr>drv_create_image = CreateImage d, drv_destroy_image = DestroyImage d,
     drv_fetch_stats = FetchStats d\<rparr>"

end
