(* ===== verification/Garbage_Collector.thy ===== *)
theory Garbage_Collector
  imports Overlay Dependency_Manager Image_Manager
begin

text \<open>
  Package \<open>store/garbage_collector\<close>: volumes no image depends on are first renamed to
  \<open>gc.*\<close> under the store's lock and destroyed later. The volume driver, the source of image
  ids and the dependency manager are interfaces, fields of the record. A Go map with empty
  struct values is the list of its keys.
\<close>

record volume_driver =
  vd_path :: "string \<Rightarrow> string sys"
  vd_create :: "string \<Rightarrow> string \<Rightarrow> string sys"
  vd_destroy :: "string \<Rightarrow> unit sys"
  vd_volumes :: "string list sys"
  vd_move :: "string \<Rightarrow> string \<Rightarrow> unit sys"
  vd_write_meta :: "string \<Rightarrow> VolumeMeta \<Rightarrow> unit sys"
  vd_opaque :: "string \<Rightarrow> string list \<Rightarrow> unit sys"
  vd_mark :: "string \<Rightarrow> unit sys"
  vd_size :: "string \<Rightarrow> int sys"

definition overlay_volumes :: "driver \<Rightarrow> volume_driver" where
  "overlay_volumes d = \<lparr>vd_path = VolumePath d, vd_create = CreateVolume d, vd_destroy = DestroyVolume d,
     vd_volumes = Volumes d, vd_move = MoveVolume d, vd_write_meta = WriteVolumeMeta d,
     vd_opaque = HandleOpaqueWhiteouts d, vd_mark = MarkVolumeArtifacts d, vd_size = VolumeSize d\<rparr>"

record gc =
  gc_driver :: volume_driver
  imageIDsGetter :: "string list sys"
  gc_dependencies :: "string \<Rightarrow> string list sys"

definition image_ref :: "string \<Rightarrow> string" where
  "image_ref i = ''image:'' @ i"

definition is_gc :: "string \<Rightarrow> bool" where
  "is_gc v = prefix ''gc.'' v"

text \<open>The loop collects an error message per volume that could not be marked.\<close>

fun mark_all :: "(string \<Rightarrow> unit sys) \<Rightarrow> string list \<Rightarrow> nat \<Rightarrow> nat sys" where
  "mark_all mark [] n = ret n"
| "mark_all mark (v # vs) n = checked (mark v) (\<lambda>_. mark_all mark vs (Suc n)) (\<lambda>_. mark_all mark vs n)"

definition MarkUnused :: "gc \<Rightarrow> string list \<Rightarrow> unit sys" where
  "MarkUnused g unusedVolumes = checked (mark_all (vd_mark (gc_driver g)) unusedVolumes 0) throw (\<lambda>failed.
     if failed > 0 then throw (Msg (itoa (int failed) @ ''/'' @ itoa (int (length unusedVolumes)) @
         '' volumes failed to be marked as unused''))
     else ret ())"

definition gcVolumes :: "gc \<Rightarrow> string list sys" where
  "gcVolumes g = checked (vd_volumes (gc_driver g)) (wrapping ''failed to retrieve volume list'')
     (\<lambda>volumes. ret (filter is_gc volumes))"

fun destroy_all :: "(string \<Rightarrow> unit sys) \<Rightarrow> string list \<Rightarrow> goerr option \<Rightarrow> goerr option sys" where
  "destroy_all destroy [] cleanupErr = ret cleanupErr"
| "destroy_all destroy (v # vs) cleanupErr =
     (if \<not> is_gc v then destroy_all destroy vs cleanupErr
      else checked (destroy v) (\<lambda>_. destroy_all destroy vs (Some (Msg ''destroying volumes failed'')))
             (\<lambda>_. destroy_all destroy vs cleanupErr))"

definition collectVolumes :: "gc \<Rightarrow> unit sys" where
  "collectVolumes g = checked (gcVolumes g) (wrapping ''listing volumes'') (\<lambda>unusedVolumes.
     checked (destroy_all (vd_destroy (gc_driver g)) unusedVolumes None) throw (\<lambda>cleanupErr.
     (case cleanupErr of None \<Rightarrow> ret () | Some e \<Rightarrow> throw e)))"

definition Collect :: "gc \<Rightarrow> unit sys" where
  "Collect g = collectVolumes g"

definition removeDependencyFromOrphanList :: "string list \<Rightarrow> string list \<Rightarrow> string list" where
  "removeDependencyFromOrphanList volumesList usedVolumes =
     foldl (\<lambda>vs v. filter (\<lambda>x. x \<noteq> v) vs) volumesList usedVolumes"

fun subtract_dependencies :: "(string \<Rightarrow> string list sys) \<Rightarrow> string list \<Rightarrow> string list \<Rightarrow> string list sys" where
  "subtract_dependencies deps [] orphaned = ret orphaned"
| "subtract_dependencies deps (imageID # imageIDs) orphaned =
     checked (deps (image_ref imageID)) throw (\<lambda>usedVolumes.
     subtract_dependencies deps imageIDs (removeDependencyFromOrphanList orphaned usedVolumes))"

definition UnusedVolumes :: "gc \<Rightarrow> string list sys" where
  "UnusedVolumes g =
     checked (vd_volumes (gc_driver g)) (wrapping ''failed to retrieve volume list'') (\<lambda>volumes.
     let orphanedVolumes = remdups (filter (\<lambda>v. \<not> is_gc v) volumes) in
     checked (imageIDsGetter g) (wrapping ''failed to retrieve images'') (\<lambda>imageIDs.
     checked (subtract_dependencies (gc_dependencies g) imageIDs orphanedVolumes) throw (\<lambda>orphaned.
     ranged orphaned)))"

text \<open>The collector of a store, as the commands build it.\<close>

definition store_gc :: "driver \<Rightarrow> gc" where
  "store_gc d = \<lparr>gc_driver = overlay_volumes d, imageIDsGetter = ImageIDs (drv_store d),
     gc_dependencies = Dependencies (dependencies_dir (drv_store d))\<rparr>"

end
