(* ===== verification/Volume_Safety.thy ===== *)
theory Volume_Safety
  imports Overlay_Facts Garbage_Collector
begin

text \<open>
  Volumes in use are left alone. \<open>guarded d U v w\<close> says of a world \<open>w\<close> reached from \<open>v\<close> that
  everything an image needs of the volumes \<open>U\<close> is as it was in \<open>v\<close>: the directory with all
  its contents, the link file, the symbolic link it names and the file with the size.
  Destroying a volume outside \<open>U\<close>, and marking one for collection, keep it whatever system
  call fails.
\<close>

section \<open>What belongs to a set of volumes\<close>

text \<open>The names in the links directory: those of the volumes and the short ones.\<close>

definition held_names :: "driver \<Rightarrow> string set \<Rightarrow> world \<Rightarrow> string set" where
  "held_names d U v = U \<union>
     {c. \<exists>u \<in> U. \<exists>a. nodes v (comps (drv_store d) @ [LinksDirName, u]) = Some (Regular a c)}"

definition held_paths :: "driver \<Rightarrow> string set \<Rightarrow> world \<Rightarrow> path \<Rightarrow> bool" where
  "held_paths d U v q \<longleftrightarrow>
     (\<exists>u \<in> U. prefix (comps (drv_store d) @ [VolumesDirName, u]) q \<or>
              q = comps (drv_store d) @ [MetaDirName, ''volume-'' @ u]) \<or>
     (\<exists>n \<in> held_names d U v. q = comps (drv_store d) @ [LinksDirName, n])"

text \<open>No other link file holds one of these names.\<close>

definition separate :: "driver \<Rightarrow> string set \<Rightarrow> world \<Rightarrow> bool" where
  "separate d N w \<longleftrightarrow> (\<forall>x a c. x \<notin> N \<longrightarrow>
     nodes w (comps (drv_store d) @ [LinksDirName, x]) = Some (Regular a c) \<longrightarrow> c \<noteq> [] \<longrightarrow> c \<notin> N)"

fun no_link_file :: "node option \<Rightarrow> bool" where
  "no_link_file None = True"
| "no_link_file (Some (Symlink _)) = True"
| "no_link_file _ = False"

definition short_ids_apart :: "driver \<Rightarrow> string set \<Rightarrow> world \<Rightarrow> bool" where
  "short_ids_apart d U v \<longleftrightarrow> (\<forall>n \<in> held_names d U v. \<not> is_gc n \<and>
     (n \<notin> U \<longrightarrow> no_link_file (nodes v (comps (drv_store d) @ [LinksDirName, n]))))"

definition guarded :: "driver \<Rightarrow> string set \<Rightarrow> world \<Rightarrow> world \<Rightarrow> bool" where
  "guarded d U v w \<longleftrightarrow> short_ids_apart d U v \<and> store_ok d w \<and> frozen (held_paths d U v) v w \<and>
     separate d (held_names d U v) w"

lemma on_tree_guarded [simp]: "on_tree (guarded d U v)"
  unfolding on_tree_def guarded_def store_ok_def frozen_def separate_def by simp

lemma on_tree_separate [simp]: "on_tree (separate d N)"
  unfolding on_tree_def separate_def by simp

lemma keeps_guarded:
  assumes "keeps (store_ok d) m"
    and "short_ids_apart d U v \<Longrightarrow> abs_path (drv_store d) \<Longrightarrow> keeps (frozen (held_paths d U v) v) m"
    and "short_ids_apart d U v \<Longrightarrow> abs_path (drv_store d) \<Longrightarrow> keeps (separate d (held_names d U v)) m"
  shows "keeps (guarded d U v) m"
proof (rule keepsI)
  fix w r w'
  assume g: "guarded d U v w" and run: "m w = (r, w')"
  then have "abs_path (drv_store d)" and "short_ids_apart d U v"
    by (auto simp: guarded_def dest: store_ok_abs)
  with assms g run show "guarded d U v w'"
    unfolding guarded_def by (blast dest: keepsD)
qed

section \<open>The calls\<close>

lemma held_pathsE:
  assumes "held_paths d U v q"
  obtains (volume) u where "u \<in> U" and "prefix (comps (drv_store d) @ [VolumesDirName, u]) q"
    | (meta) u where "u \<in> U" and "q = comps (drv_store d) @ [MetaDirName, ''volume-'' @ u]"
    | (link) n where "n \<in> held_names d U v" and "q = comps (drv_store d) @ [LinksDirName, n]"
  using assms unfolding held_paths_def by blast

lemma prefix_two: "prefix (s @ [a, b]) (s @ c # t) \<longleftrightarrow> a = c \<and> prefix [b] t"
  by auto

lemma held_apart:
  assumes "held_paths d U v q"
  shows "prefix (comps (drv_store d) @ [LinksDirName, n]) q \<Longrightarrow> n \<in> held_names d U v"
    and "prefix (comps (drv_store d) @ [VolumesDirName, x]) q \<Longrightarrow> x \<in> U"
    and "prefix (comps (drv_store d) @ [MetaDirName, ''volume-'' @ x]) q \<Longrightarrow> x \<in> U"
    and "q \<noteq> comps (drv_store d) @ [LinksDirName]"
  using assms by (auto elim!: held_pathsE simp: prefix_def append_eq_append_conv2)

lemma misses_held:
  assumes "abs_path (drv_store d)"
  shows "safe_name c \<Longrightarrow> c = [] \<or> c \<notin> held_names d U v \<Longrightarrow> misses (held_paths d U v) (link_path d c)"
    and "plain_name n \<Longrightarrow> n \<notin> held_names d U v \<Longrightarrow> misses_below (held_paths d U v) (link_path d n)"
    and "plain_name x \<Longrightarrow> x \<notin> U \<Longrightarrow> misses_below (held_paths d U v) (volume_path d x)"
    and "plain_name x \<Longrightarrow> x \<notin> U \<Longrightarrow> misses_below (held_paths d U v) (volumeMetaFilePath d x)"
proof -
  show "misses (held_paths d U v) (link_path d c)" if "safe_name c" and "c = [] \<or> c \<notin> held_names d U v"
  proof (cases "c = []")
    case True
    then show ?thesis using link_path_facts [OF assms that(1)] held_apart(4) [of d U v]
      by (auto simp: misses_def)
  next
    case False
    then show ?thesis using link_path_facts [OF assms that(1)] held_apart(1) [of d U v _ c] that(2)
      by (auto simp: misses_def)
  qed
  show "misses_below (held_paths d U v) (link_path d n)" if "plain_name n" and "n \<notin> held_names d U v"
    unfolding misses_below_def link_path_plain [OF assms that(1)]
    using link_path_plain(2) [OF assms that(1)] held_apart(1) that(2) by blast
  show "misses_below (held_paths d U v) (volume_path d x)" if "plain_name x" and "x \<notin> U"
    unfolding misses_below_def volume_path_facts(1) [OF assms that(1)]
    using volume_path_facts(2) [OF assms that(1)] held_apart(2) that(2) by blast
  show "misses_below (held_paths d U v) (volumeMetaFilePath d x)" if "plain_name x" and "x \<notin> U"
    unfolding misses_below_def meta_path_facts(1) [OF assms that(1)]
    using meta_path_facts(2) [OF assms that(1)] held_apart(3) that(2) by blast
qed

text \<open>What only removes, or adds no regular file, adds no link file.\<close>

lemma keeps_separate_shrinking:
  assumes "\<And>w r w' q a c. m w = (r, w') \<Longrightarrow> nodes w' q = Some (Regular a c) \<Longrightarrow> nodes w q = Some (Regular a c)"
  shows "keeps (separate d N) m"
  by (rule keepsI) (use assms in \<open>unfold separate_def, blast\<close>)

lemma keeps_separate_calls [keeps_intro]:
  "keeps (separate d N) (os_remove p)" "keeps (separate d N) (os_remove_all p)"
  "keeps (separate d N) (os_symlink t p)"
  by (rule keeps_separate_shrinking, drule sys_cases, auto split: if_splits)+

lemma keeps_separate_frozen: "(\<And>v'. keeps (frozen (in_links d) v') m) \<Longrightarrow> keeps (separate d N) m"
  by (rule keeps_via_frozen [of "in_links d"]) (auto simp: separate_def frozen_def in_links_def)

lemma keeps_separate_rename_link:
  assumes abs: "abs_path (drv_store d)" and "plain_name a" and "plain_name b" and "a \<notin> N" and "b \<notin> N"
  shows "keeps (separate d N) (os_rename (link_path d a) (link_path d b))"
proof (rule keepsI)
  fix w r w'
  assume sep: "separate d N w" and run: "os_rename (link_path d a) (link_path d b) w = (r, w')"
  let ?p = "comps (drv_store d) @ [LinksDirName, a]" and ?q = "comps (drv_store d) @ [LinksDirName, b]"
  have at: "at_path w (link_path d a) = ?p" "at_path w (link_path d b) = ?q"
    using link_path_plain [OF abs] assms by simp_all
  from os_rename_cases [OF run] at have
    "(\<exists>fs. w' = w\<lparr>faults := fs\<rparr>) \<or> (a \<noteq> b \<and> (\<exists>fs. w' = move ?p ?q (w\<lparr>faults := fs\<rparr>)))"
    by auto
  then show "separate d N w'"
  proof (elim disjE exE conjE)
    fix fs assume "w' = w\<lparr>faults := fs\<rparr>"
    with sep show ?thesis by (simp add: separate_def)
  next
    fix fs assume ne: "a \<noteq> b" and w': "w' = move ?p ?q (w\<lparr>faults := fs\<rparr>)"
    have np: "\<not> prefix ?p ?q" "\<not> prefix ?q ?p" using ne by (auto simp: prefix_def)
    have old: "nodes w' (comps (drv_store d) @ [LinksDirName, x]) =
        (if x = b then nodes w ?p else if x = a then None
         else nodes w (comps (drv_store d) @ [LinksDirName, x]))" for x
      using nodes_move [OF np] by (auto simp: w')
    show ?thesis
      unfolding separate_def old using sep assms(4) unfolding separate_def by (auto split: if_splits)
  qed
qed

lemma misses_below_links:
  assumes "abs_path (drv_store d)" and "plain_name x"
  shows "misses_below (in_links d) (volume_path d x)" and "misses_below (in_links d) (volumeMetaFilePath d x)"
  using volume_path_facts [OF assms] meta_path_facts [OF assms]
  by (auto simp: misses_below_def in_links_def prefix_def)

text \<open>The link file of a volume that is not in use, and the name in it, belong to no used volume.\<close>

lemma guarded_read:
  assumes g: "guarded d U v w" and i: "plain_name i" "i \<notin> U"
    and run: "os_read_file (link_path d i) w = (Inr c, w')"
  shows "safe_name c \<and> (c = [] \<or> c \<notin> held_names d U v) \<and> i \<notin> held_names d U v"
proof -
  let ?q = "comps (drv_store d) @ [LinksDirName, i]"
  from g have ok: "store_ok d w" and apart: "short_ids_apart d U v" and fr: "frozen (held_paths d U v) v w"
    and sep: "separate d (held_names d U v) w" by (simp_all add: guarded_def)
  have abs: "abs_path (drv_store d)" using ok by (rule store_ok_abs)
  have safe: "safe_name c" using read_link [OF ok i(1) run] .
  obtain n where n: "stat_node w ?q = Inr n" "\<not> is_dir_node n" and c: "c = (case n of Regular a c' \<Rightarrow> c' | _ \<Rightarrow> [])"
    using os_read_file_cases [OF run] link_path_plain [OF abs i(1)] by auto
  have target: "\<exists>a. n = Dir a" if "nodes w ?q = Some (Symlink t)" for t
    using link_target [OF ok that n(1)] .
  have out: "i \<notin> held_names d U v"
  proof
    assume held: "i \<in> held_names d U v"
    then have "nodes w ?q = nodes v ?q" using fr by (auto simp: frozen_def held_paths_def)
    moreover have "no_link_file (nodes v ?q)" using apart held i(2) by (auto simp: short_ids_apart_def)
    ultimately show False using n target by (cases "nodes v ?q" rule: no_link_file.cases) auto
  qed
  have "c = [] \<or> c \<notin> held_names d U v"
  proof (cases "nodes w ?q")
    case (Some m)
    then show ?thesis using n c target sep out by (cases m) (auto simp: separate_def)
  qed (use n in simp)
  with safe out show ?thesis by blast
qed

lemma hoare_guarded_read:
  assumes "plain_name i" and "i \<notin> U"
  shows "hoare (guarded d U v) (os_read_file (link_path d i))
    (\<lambda>c w. guarded d U v w \<and> (safe_name c \<and> (c = [] \<or> c \<notin> held_names d U v) \<and> i \<notin> held_names d U v))
    (\<lambda>_. guarded d U v)"
  by (rule hoareI)
    (use guarded_read [OF _ assms] keeps_on_tree(4) [OF on_tree_guarded] in \<open>blast dest: keepsD\<close>)+

lemma keeps_guarded_links [keeps_intro]:
  assumes "safe_name c" and "c = [] \<or> c \<notin> held_names d U v"
  shows "keeps (guarded d U v) (os_remove (link_path d c))"
    and "plain_name x \<Longrightarrow> keeps (guarded d U v) (os_symlink (volume_path d x) (link_path d c))"
  using misses_held(1) [OF _ assms]
  by (auto intro!: keeps_guarded keeps_intro assms)

lemma keeps_guarded_rename_link [keeps_intro]:
  assumes "plain_name a" and "plain_name b" and "a \<notin> held_names d U v" and "b \<notin> held_names d U v"
  shows "keeps (guarded d U v) (os_rename (link_path d a) (link_path d b))"
  using misses_held(2) assms keeps_separate_rename_link
  by (auto intro!: keeps_guarded keeps_intro)

lemma keeps_guarded_volume [keeps_intro]:
  assumes "plain_name i" and "i \<notin> U"
  shows "keeps (guarded d U v) (os_remove_all (volume_path d i))"
    and "keeps (guarded d U v) (os_remove (volumeMetaFilePath d i))"
  using misses_held [of d] assms
  by (auto intro!: keeps_guarded keeps_intro intro: misses_below_misses)

lemma keeps_guarded_rename_volume [keeps_intro]:
  assumes "plain_name a" and "plain_name b" and "a \<notin> U" and "b \<notin> U"
  shows "keeps (guarded d U v) (os_rename (volume_path d a) (volume_path d b))"
    and "keeps (guarded d U v) (os_rename (volumeMetaFilePath d a) (volumeMetaFilePath d b))"
  using misses_held(3,4) [of d] misses_below_links [of d] assms
  by (auto intro!: keeps_guarded keeps_separate_frozen keeps_intro)

section \<open>The operations\<close>

lemma keeps_removeVolumeLink [keeps_intro]:
  assumes "plain_name i" and "i \<notin> U"
  shows "keeps (guarded d U v) (removeVolumeLink d (link_path d i))"
  unfolding removeVolumeLink_def Let_def
proof (rule keeps_checked_value [OF hoare_guarded_read [OF assms]])
  fix c
  assume c: "safe_name c \<and> (c = [] \<or> c \<notin> held_names d U v) \<and> i \<notin> held_names d U v"
  have "safe_name i" using assms(1) by (auto simp: plain_name_def safe_name_def)
  with c show "keeps (guarded d U v)
      (unless_missing (os_remove (link_path d c)) (wrapping (''removing symlink '' @ link_path d c))
       (unless_missing (os_remove (link_path d i)) (wrapping (''removing symlink information file '' @ link_path d i))
       (ret ())))"
    by (intro keeps_intro) auto
qed (intro keeps_intro)

lemma keeps_DestroyVolume:
  assumes "plain_name i" and "i \<notin> U"
  shows "keeps (guarded d U v) (DestroyVolume d i)"
  unfolding DestroyVolume_def by (intro keeps_intro assms)

lemma volume_path_base:
  assumes "abs_path (drv_store d)" and "plain_name i"
  shows "filepath_base (volume_path d i) = i"
  using filepath_base_path_of [of "comps (drv_store d) @ [VolumesDirName]" i] assms
    volume_path_facts(3) [OF assms] abs_path_plain [OF assms(1)] by simp

text \<open>
  Marking renames the first occurrence of the id in the volume's path. That is the volume's
  own name unless the id occurs in the path before it.
\<close>

definition renames_cleanly :: "driver \<Rightarrow> string \<Rightarrow> bool" where
  "renames_cleanly d i \<longleftrightarrow> replace_first (volume_path d i) i (gc_name i) = volume_path d (gc_name i)"

lemma keeps_MoveVolume:
  assumes "plain_name i" and "i \<notin> U" and "plain_name j" and "j \<notin> U"
    and apart: "short_ids_apart d U v \<Longrightarrow> j \<notin> held_names d U v"
  shows "keeps (guarded d U v) (MoveVolume d (volume_path d i) (volume_path d j))"
proof (cases "abs_path (drv_store d) \<and> short_ids_apart d U v")
  case True
  then have base: "filepath_base (volume_path d i) = i" "filepath_base (volume_path d j) = j"
    using volume_path_base assms by blast+
  show ?thesis
    unfolding MoveVolume_def Let_def base
  proof (rule keeps_missing(1) [OF keeps_on_tree(1) [OF on_tree_guarded] keeps_wrapping],
      rule keeps_checked_value [OF hoare_guarded_read [OF assms(1,2)] keeps_wrapping])
    fix c
    assume "safe_name c \<and> (c = [] \<or> c \<notin> held_names d U v) \<and> i \<notin> held_names d U v"
    moreover have "j \<notin> held_names d U v" using True apart by blast
    ultimately show "keeps (guarded d U v)
       (checked (os_rename (link_path d i) (link_path d j)) (wrapping ''moving link file'') (\<lambda>_.
        checked (os_remove (link_path d c)) (wrapping ''removing symlink'') (\<lambda>_.
        checked (os_symlink (volume_path d j) (link_path d c)) (wrapping ''updating volume symlink'') (\<lambda>_.
        checked (os_rename (volume_path d i) (volume_path d j))
          (\<lambda>e. if is_exist e then ret () else wrapping ''moving volume'' e) ret))))"
      using assms by (intro keeps_intro) auto
  qed
next
  case False
  then show ?thesis by (intro keepsI) (auto simp: guarded_def dest: store_ok_abs)
qed

lemma keeps_MarkVolumeArtifacts:
  assumes i: "plain_name i" "i \<notin> U" and clean: "renames_cleanly d i" and gcs: "\<And>u. u \<in> U \<Longrightarrow> \<not> is_gc u"
  shows "keeps (guarded d U v) (MarkVolumeArtifacts d i)"
proof -
  have gc: "is_gc (gc_name i)" by (simp add: is_gc_def gc_name_def)
  then have j: "plain_name (gc_name i)" "gc_name i \<notin> U" using i gcs by auto
  have moved: "keeps (guarded d U v) (MoveVolume d (volume_path d i) (volume_path d (gc_name i)))"
    by (rule keeps_MoveVolume [OF i j]) (use gc in \<open>auto simp: short_ids_apart_def\<close>)
  have path: "hoare (guarded d U v) (VolumePath d i)
      (\<lambda>p w. guarded d U v w \<and> p = volume_path d i) (\<lambda>_. guarded d U v)"
    unfolding VolumePath_def
    by (rule hoare_checked [where R = "\<lambda>_. guarded d U v" and F = "\<lambda>_. guarded d U v"])
      (use keeps_on_tree(1) [OF on_tree_guarded] in \<open>auto simp: keeps_def\<close>)
  show ?thesis
    unfolding MarkVolumeArtifacts_def Let_def moveVolumeMeta_def
  proof (rule keeps_checked_value [OF path keeps_wrapping])
    fix p
    assume "p = volume_path d i"
    with clean have "replace_first p i (gc_name i) = volume_path d (gc_name i)" "p = volume_path d i"
      by (simp_all add: renames_cleanly_def)
    with moved i j show "keeps (guarded d U v)
        (checked (MoveVolume d p (replace_first p i (gc_name i))) throw (\<lambda>_.
         checked (os_rename (volumeMetaFilePath d i) (volumeMetaFilePath d (gc_name i)))
           (wrapping ''renaming volume metadata'') ret))"
      by (intro keeps_intro) auto
  qed
qed

end
