(* ===== verification/Emitter.thy ===== *)
theory Emitter
  imports Groot_Types
begin

text \<open>
  Package \<open>metrics\<close>. An \<open>Emitter\<close> has no state of its own: what \<open>Initialize\<close> sets up belongs to
  the dropsonde package, which sends every value in a datagram. A value that was sent is an event of the
  world, without its unit and, for a duration, without the time; a value that cannot be sent
  is only logged, so no result of the program depends on it.
\<close>

definition NewEmitter :: "(string \<Rightarrow> unit sys) \<Rightarrow> string \<Rightarrow> unit sys" where
  "NewEmitter initialize metronEndpoint = (if metronEndpoint \<noteq> [] then logged (initialize metronEndpoint) (ret ()) else ret ())"

definition TryEmitUsage :: "string \<Rightarrow> int \<Rightarrow> unit sys" where
  "TryEmitUsage name usage = emit (Usage name usage)"

definition TryEmitDurationFrom :: "string \<Rightarrow> unit sys" where
  "TryEmitDurationFrom name = emit (Metric name)"

lemma keeps_emitter [keeps_intro]:
  assumes "on_tree I"
  shows "keeps I (TryEmitUsage name n)" "keeps I (TryEmitDurationFrom name)"
  unfolding TryEmitUsage_def TryEmitDurationFrom_def using keeps_machine(8) [OF assms] by simp_all

end
