(* ===== verification/Locksmith.thy ===== *)
theory Locksmith
  imports Emitter
begin

text \<open>
  Package \<open>store/locksmith\<close>: advisory file locks. A \<open>*os.File\<close> that holds a lock is the
  path the lock file was opened at. \<open>LockWithTimeout\<close> starts \<open>Lock\<close> in a goroutine and gives up after the
  timeout; the timer is an entry of the fault schedule, and its number says whether the
  goroutine that is left behind gets the lock after all.
\<close>

record locksmith =
  locksDir :: string
  lockType :: lock_mode
  metricName :: string
  hasMetrics :: bool

definition ExclusiveMetricsLockingTime :: string where
  "ExclusiveMetricsLockingTime = ''ExclusiveLockingTime''"

definition SharedMetricsLockingTime :: string where
  "SharedMetricsLockingTime = ''SharedLockingTime''"

definition NewExclusiveFileSystem :: "string \<Rightarrow> locksmith" where
  "NewExclusiveFileSystem dir = \<lparr>locksDir = dir, lockType = LOCK_EX,
     metricName = ExclusiveMetricsLockingTime, hasMetrics = False\<rparr>"

definition NewSharedFileSystem :: "string \<Rightarrow> locksmith" where
  "NewSharedFileSystem dir = \<lparr>locksDir = dir, lockType = LOCK_SH,
     metricName = SharedMetricsLockingTime, hasMetrics = False\<rparr>"

definition WithMetrics :: "locksmith \<Rightarrow> locksmith" where
  "WithMetrics l = l\<lparr>hasMetrics := True\<rparr>"

definition lock_file :: "locksmith \<Rightarrow> string \<Rightarrow> string" where
  "lock_file l key = filepath_join [locksDir l, key @ ''.lock'']"

definition Lock :: "locksmith \<Rightarrow> string \<Rightarrow> path sys" where
  "Lock l k = deferred
     (checked (os_mkdir_all (locksDir l) perm_0755) throw (\<lambda>_.
      let key = replace_char k CHR ''/'' [] in
      checked (open_create False (lock_file l key) perm_0600)
        (wrapping (''creating lock file for key `'' @ key @ ''`'')) (\<lambda>_.
      checked (open_file (lock_file l key)) throw (\<lambda>lockFile.
      checked (flock lockFile (lockType l)) throw (\<lambda>_.
      ret lockFile)))))
     (\<lambda>r. checked (if hasMetrics l then TryEmitDurationFrom (metricName l) else ret ()) throw (\<lambda>_. give_back r))"

definition quoted :: "string \<Rightarrow> string" where
  "quoted s = [CHR 0x27] @ s @ [CHR 0x27]"

definition LockWithTimeout :: "locksmith \<Rightarrow> string \<Rightarrow> string \<Rightarrow> path sys" where
  "LockWithTimeout l k seconds = faulty
     (\<lambda>e n w. (Inl (Msg (''timed out waiting for the '' @ quoted k @ '' file lock after '' @ quoted (seconds @ ''s''))),
               if n = 0 then w else snd (Lock l k w)))
     (Lock l k)"

text \<open>\<open>Unlock\<close> closes the file in any case, which gives up the lock even if \<open>LOCK_UN\<close> failed.\<close>

definition Unlock :: "locksmith \<Rightarrow> path \<Rightarrow> unit sys" where
  "Unlock l f = faulty (\<lambda>e n w. (Inl (SysErr e), release f (lockType l) w))
     (\<lambda>w. (Inr (), release f (lockType l) w))"

section \<open>The contract\<close>

text \<open>
  What the clients rely on: an acquisition that succeeds adds one lock, one that fails adds
  none, and a release takes one away whatever it returns.
\<close>

locale lock_service =
  fixes acquire :: "path sys" and free :: "path \<Rightarrow> unit sys"
    and held :: "world \<Rightarrow> (path \<times> lock_mode) list" and entry :: "path \<Rightarrow> path \<times> lock_mode"
  assumes acquired: "acquire w = (Inr f, w') \<Longrightarrow> held w' = entry f # held w"
    and refused: "acquire w = (Inl e, w') \<Longrightarrow> held w' = held w"
    and freed: "free f w = (r, w') \<Longrightarrow> held w' = remove1 (entry f) (held w)"
begin

text \<open>The pattern of the clients: acquire, defer the release, run the body.\<close>

lemma balanced:
  assumes body: "\<And>f L. keeps (\<lambda>w. held w = L) (m f)" and handler: "\<And>e L. keeps (\<lambda>w. held w = L) (h e)"
    and d: "\<And>f r L. hoare (\<lambda>w. held w = entry f # L) (d f r) (\<lambda>_ w. held w = L) (\<lambda>_ w. held w = L)"
  shows "keeps (\<lambda>w. held w = L) (checked acquire h (\<lambda>f. deferred (m f) (d f)))"
  unfolding keeps_def
proof (rule hoare_checked [where R = "\<lambda>f w. held w = entry f # L" and F = "\<lambda>_ w. held w = L"])
  show "hoare (\<lambda>w. held w = L) acquire (\<lambda>f w. held w = entry f # L) (\<lambda>_ w. held w = L)"
    by (rule hoareI) (auto dest: acquired refused)
  show "hoare (\<lambda>w. held w = entry f # L) (deferred (m f) (d f)) (\<lambda>_ w. held w = L) (\<lambda>_ w. held w = L)" for f
    by (rule hoare_deferred [where R = "\<lambda>_ w. held w = entry f # L"])
      (use body [of "entry f # L" f] d in \<open>auto simp: keeps_def\<close>)
  show "hoare (\<lambda>w. held w = L) (h e) (\<lambda>_ w. held w = L) (\<lambda>_ w. held w = L)" for e
    using handler by (simp add: keeps_def)
qed

lemma free_hoare:
  "hoare (\<lambda>w. held w = entry f # L) (free f) (\<lambda>_ w. held w = L) (\<lambda>_ w. held w = L)"
  by (rule hoareI) (auto dest!: freed)

end

lemma off_tree_flocks [simp]: "off_tree (\<lambda>w. Q (flocks w))"
  by (simp add: off_tree_def)

lemma keeps_flocks_only_tree [keeps_intro]: "only_tree m \<Longrightarrow> keeps (\<lambda>w. flocks w = L) m"
  by (rule keeps_off_tree) (simp_all add: off_tree_def)

lemma flocks_only_tree: "only_tree m \<Longrightarrow> m w = (r, w') \<Longrightarrow> flocks w' = flocks w"
  by (auto dest: only_treeD)

lemma hoare_only_tree:
  "only_tree m \<Longrightarrow> hoare (\<lambda>w. flocks w = L) m (\<lambda>_ w. flocks w = L) (\<lambda>_ w. flocks w = L)"
  using keeps_flocks_only_tree [of m L] by (simp add: keeps_def)

lemma flock_hoare:
  "hoare (\<lambda>w. flocks w = L) (flock f m) (\<lambda>_ w. \<not> conflicting L f m \<and> flocks w = (f, m) # L)
     (\<lambda>_ w. flocks w = L)"
  by (rule hoareI; drule flock_cases; elim disjE exE conjE; simp)

lemma Lock_hoare:
  "hoare (\<lambda>w. flocks w = L) (Lock l k)
     (\<lambda>f w. \<not> conflicting L f (lockType l) \<and> flocks w = (f, lockType l) # L) (\<lambda>_ w. flocks w = L)"
  (is "hoare ?P _ ?Q ?E")
proof -
  have grab: "hoare ?P (checked (flock f (lockType l)) throw (\<lambda>_. ret f)) ?Q ?E" for f
    by (rule hoare_checked [OF flock_hoare]) simp_all
  have openf: "hoare ?P (checked (open_file n) throw (\<lambda>f. checked (flock f (lockType l)) throw (\<lambda>_. ret f))) ?Q ?E" for n
    by (rule hoare_checked [where R = "\<lambda>_. ?P" and F = "\<lambda>_. ?P"])
      (use grab in \<open>simp_all add: hoare_def open_file_def\<close>)
  have create: "hoare ?P (checked (open_create b n q) (wrapping s) (\<lambda>_.
      checked (open_file n) throw (\<lambda>f. checked (flock f (lockType l)) throw (\<lambda>_. ret f)))) ?Q ?E" for n b q s
    by (rule hoare_checked [OF hoare_only_tree]) (use openf in simp_all)
  show ?thesis
    unfolding Lock_def Let_def
  proof (rule hoare_deferred [where R = "\<lambda>r v. case r of Inl e \<Rightarrow> ?E e v | Inr f \<Rightarrow> ?Q f v"], goal_cases)
    case 1
    show ?case by (rule hoare_checked [OF hoare_only_tree]) (use create in simp_all)
  next
    case (2 r)
    show ?case by (cases r) (auto simp: hoare_def TryEmitDurationFrom_def emit_def checked_def)
  qed
qed

interpretation locks: lock_service "Lock l k" "Unlock l" flocks "\<lambda>f. (f, lockType l)" for l k
proof unfold_locales
  show "Lock l k w = (Inr f, w') \<Longrightarrow> flocks w' = (f, lockType l) # flocks w" for w f w'
    by (rule hoare_Inr [OF Lock_hoare refl, THEN conjunct2])
  show "Lock l k w = (Inl e, w') \<Longrightarrow> flocks w' = flocks w" for w e w'
    by (rule hoare_Inl [OF Lock_hoare refl])
  show "Unlock l f w = (r, w') \<Longrightarrow> flocks w' = remove1 (f, lockType l) (flocks w)" for f w r w'
    by (auto simp: Unlock_def release_def elim!: faulty_cases)
qed

end
