(* ===== verification/Puller.thy ===== *)
theory Puller
  imports Garbage_Collector Locksmith
begin

text \<open>
  Package \<open>base_image_puller\<close>: every layer of an image becomes a volume named by its chain id.
  A layer is unpacked into a temporary volume that is renamed when it is complete, under a
  lock on the chain id. The fetcher and the unpacker are interfaces, fields of the record;
  a stream is its content and the effect of closing it.

  \<open>buildLayer\<close> goes down the list of layers by index; here the index is one less than the
  number of layers still considered, so that 0 is the \<open>index < 0\<close> of the source.
\<close>

record blob_stream =
  stream_bytes :: string
  stream_close :: "unit sys"

record fetcher =
  f_base_image_info :: "BaseImageInfo sys"
  f_stream_blob :: "LayerInfo \<Rightarrow> (blob_stream \<times> int) sys"
  f_close :: "unit sys"

record UnpackSpec =
  Stream :: string
  TargetPath :: string
  unpack_base_directory :: string

record UnpackOutput =
  BytesWritten :: int
  OpaqueWhiteouts :: "string list"

record puller =
  p_fetcher :: fetcher
  p_unpack :: "UnpackSpec \<Rightarrow> UnpackOutput sys"
  p_driver :: volume_driver
  p_base_dir :: "UnpackSpec \<Rightarrow> string \<Rightarrow> unit sys"
  p_locksmith :: locksmith

definition MetricsUnpackTimeName :: string where "MetricsUnpackTimeName = ''UnpackTime''"
definition MetricsDownloadTimeName :: string where "MetricsDownloadTimeName = ''DownloadTime''"

text \<open>\<open>defer metricsEmitter.TryEmitDurationFrom(...)\<close>.\<close>

definition timed :: "string \<Rightarrow> 'a sys \<Rightarrow> 'a sys" where
  "timed name m = deferred m (\<lambda>r. checked (TryEmitDurationFrom name) throw (\<lambda>_. give_back r))"

definition FetchBaseImageInfo :: "puller \<Rightarrow> BaseImageInfo sys" where
  "FetchBaseImageInfo p = f_base_image_info (p_fetcher p)"

definition layersSize :: "LayerInfo list \<Rightarrow> int" where
  "layersSize layerInfos = foldl (\<lambda>acc l. i64 (acc + layer_size l)) 0 layerInfos"

definition quotaExceeded :: "LayerInfo list \<Rightarrow> BaseImageSpec \<Rightarrow> unit sys" where
  "quotaExceeded layerInfos spec =
     (if base_exclude spec \<or> base_disk_limit spec = 0 then ret ()
      else let totalSize = layersSize layerInfos in
        if totalSize > base_disk_limit spec then
          throw (Msg (''layers exceed disk quota '' @ itoa totalSize @ ''/'' @ itoa (base_disk_limit spec) @ '' bytes''))
        else ret ())"

definition volumeExists :: "puller \<Rightarrow> string \<Rightarrow> bool sys" where
  "volumeExists p chainID = checked (vd_path (p_driver p) chainID) (\<lambda>_. ret False) (\<lambda>_. ret True)"

definition createTemporaryVolumeDirectory :: "puller \<Rightarrow> LayerInfo \<Rightarrow> BaseImageSpec \<Rightarrow> (string \<times> string) sys" where
  "createTemporaryVolumeDirectory p layerInfo spec =
     checked nonce throw (\<lambda>now. checked nonce throw (\<lambda>rand.
     let tempVolumeName = ChainID layerInfo @ ''-incomplete-'' @ itoa now @ ''-'' @ itoa rand in
     checked (vd_create (p_driver p) (ParentChainID layerInfo) tempVolumeName)
       (wrapping (''creating volume for layer `'' @ BlobID layerInfo @ ''`'')) (\<lambda>volumePath.
     if base_owner_uid spec \<noteq> 0 \<or> base_owner_gid spec \<noteq> 0 then
       checked (os_chown volumePath (base_owner_uid spec) (base_owner_gid spec))
         (wrapping (''changing volume ownership to '' @ itoa (base_owner_uid spec) @ '':'' @ itoa (base_owner_gid spec)))
         (\<lambda>_. ret (tempVolumeName, volumePath))
     else ret (tempVolumeName, volumePath))))"

definition unpackLayerToTemporaryDirectory :: "puller \<Rightarrow> UnpackSpec \<Rightarrow> LayerInfo \<Rightarrow> LayerInfo \<Rightarrow> int sys" where
  "unpackLayerToTemporaryDirectory p unpackSpec layerInfo parentLayerInfo = timed MetricsUnpackTimeName
     (checked
       (if unpack_base_directory unpackSpec \<noteq> [] then
          checked (vd_path (p_driver p) (ChainID parentLayerInfo)) throw (\<lambda>parentPath.
          p_base_dir p unpackSpec parentPath)
        else ret ()) throw (\<lambda>_.
      checked (p_unpack p unpackSpec)
        (\<lambda>e. logged (vd_destroy (p_driver p) (ChainID layerInfo))
           (throw (Wrapped (''unpacking layer `'' @ BlobID layerInfo @ ''`'') e))) (\<lambda>unpackOutput.
      checked (vd_opaque (p_driver p) (filepath_base (TargetPath unpackSpec)) (OpaqueWhiteouts unpackOutput))
        (wrapping ''handling opaque whiteouts'') (\<lambda>_.
      ret (BytesWritten unpackOutput)))))"

definition finalizeVolume :: "puller \<Rightarrow> string \<Rightarrow> string \<Rightarrow> string \<Rightarrow> int \<Rightarrow> unit sys" where
  "finalizeVolume p tempVolumeName volumePath chainID volSize =
     checked (vd_write_meta (p_driver p) chainID \<lparr>meta_size = volSize\<rparr>)
       (wrapping (''writing volume `'' @ chainID @ ''` metadata'')) (\<lambda>_.
     let finalVolumePath = replace_first volumePath tempVolumeName chainID in
     checked (vd_move (p_driver p) volumePath finalVolumePath)
       (wrapping ''failed to move volume to its final location'') ret)"

definition unpackLayer :: "puller \<Rightarrow> LayerInfo \<Rightarrow> LayerInfo \<Rightarrow> BaseImageSpec \<Rightarrow> string \<Rightarrow> unit sys" where
  "unpackLayer p layerInfo parentLayerInfo spec stream =
     checked (createTemporaryVolumeDirectory p layerInfo spec) throw (\<lambda>(tempVolumeName, volumePath).
     let unpackSpec = \<lparr>Stream = stream, TargetPath = volumePath, unpack_base_directory = BaseDirectory layerInfo\<rparr> in
     checked (unpackLayerToTemporaryDirectory p unpackSpec layerInfo parentLayerInfo) throw (\<lambda>volSize.
     finalizeVolume p tempVolumeName volumePath (ChainID layerInfo) volSize))"

definition downloadLayer :: "puller \<Rightarrow> LayerInfo \<Rightarrow> LayerInfo \<Rightarrow> BaseImageSpec \<Rightarrow> unit sys" where
  "downloadLayer p layerInfo parentLayerInfo spec = timed MetricsDownloadTimeName
     (checked (f_stream_blob (p_fetcher p) layerInfo)
        (wrapping (''streaming blob `'' @ BlobID layerInfo @ ''`'')) (\<lambda>(stream, n).
      deferred (unpackLayer p layerInfo parentLayerInfo spec (stream_bytes stream))
        (\<lambda>r. logged (stream_close stream) (give_back r))))"

definition zero_layer :: LayerInfo where
  "zero_layer = \<lparr>BlobID = [], ChainID = [], DiffID = [], ParentChainID = [], layer_size = 0,
     BaseDirectory = [], URLs = [], MediaType = []\<rparr>"

fun buildLayer :: "nat \<Rightarrow> puller \<Rightarrow> LayerInfo list \<Rightarrow> BaseImageSpec \<Rightarrow> unit sys" where
  "buildLayer 0 p layerInfos spec = ret ()"
| "buildLayer (Suc index) p layerInfos spec =
     (let layerInfo = layerInfos ! index in
      checked (volumeExists p (ChainID layerInfo)) throw (\<lambda>there.
      if there then ret () else
      checked (Lock (p_locksmith p) (ChainID layerInfo)) (wrapping ''acquiring lock'') (\<lambda>lockFile.
      deferred
        (checked (volumeExists p (ChainID layerInfo)) throw (\<lambda>there.
         if there then ret () else
         checked (buildLayer index p layerInfos spec) throw (\<lambda>_.
         let parentLayerInfo = (if index > 0 then layerInfos ! (index - 1) else zero_layer) in
         downloadLayer p layerInfo parentLayerInfo spec)))
        (\<lambda>r. logged (Unlock (p_locksmith p) lockFile) (give_back r)))))"

definition Pull :: "puller \<Rightarrow> BaseImageInfo \<Rightarrow> BaseImageSpec \<Rightarrow> unit sys" where
  "Pull p baseImageInfo spec = checked (quotaExceeded (LayerInfos baseImageInfo) spec) throw (\<lambda>_.
     buildLayer (length (LayerInfos baseImageInfo)) p (LayerInfos baseImageInfo) spec)"

section \<open>The base directory of a layer\<close>

text \<open>
  \<open>filepath.Rel(root, p)\<close> on cleaned absolute names: up to the common ancestor and down again.
\<close>

fun strip_common :: "path \<Rightarrow> path \<Rightarrow> path \<times> path" where
  "strip_common (a # as) (b # bs) = (if a = b then strip_common as bs else (a # as, b # bs))"
| "strip_common as bs = (as, bs)"

definition filepath_rel :: "string \<Rightarrow> string \<Rightarrow> string" where
  "filepath_rel root p =
     (case strip_common (comps root) (comps p) of (up, down) \<Rightarrow>
        (let cs = map (\<lambda>_. ''..'') up @ down in if cs = [] then ''.'' else join_with ''/'' cs))"

definition base_dir_Handle :: "reexecer \<Rightarrow> bool \<Rightarrow> UnpackSpec \<Rightarrow> string \<Rightarrow> unit sys" where
  "base_dir_Handle reexec cloneUserns spec parentPath =
     (let rootDir = filepath_dir parentPath;
          targetRelPath = filepath_rel rootDir (TargetPath spec);
          parentRelPath = filepath_rel rootDir parentPath in
      checked (reexec ''ensure-base'' \<lparr>Stdin = [], ChrootDir = rootDir, ExtraFiles = [],
          Args = [unpack_base_directory spec, targetRelPath, parentRelPath], CloneUserns = cloneUserns\<rparr>)
        throw (\<lambda>_. ret ()))"

text \<open>
  The recursion goes up with \<open>filepath.Dir\<close> until \<open>/\<close>; on a relative name it never gets there
  (\<open>Dir "."\<close> is \<open>"."\<close>), so the model has fuel and \<open>None\<close> is a run that does not return.
\<close>

fun ensureBaseDirectoryExists :: "nat \<Rightarrow> string \<Rightarrow> string \<Rightarrow> string \<Rightarrow> unit option sys" where
  "ensureBaseDirectoryExists 0 baseDir childPath parentPath = ret None"
| "ensureBaseDirectoryExists (Suc n) baseDir childPath parentPath =
     (if baseDir = ''/'' then ret (Some ())
      else checked (ensureBaseDirectoryExists n (filepath_dir baseDir) childPath parentPath) throw (\<lambda>r.
        (case r of
           None \<Rightarrow> ret None
         | Some _ \<Rightarrow>
             let fullChildBaseDir = filepath_join [childPath, baseDir] in
             checked (os_stat fullChildBaseDir)
               (\<lambda>e. if \<not> is_not_exist e then wrapping ''failed to stat base directory'' e
                 else checked (os_stat (filepath_join [parentPath, baseDir]))
                   (wrapping ''base directory not found in parent layer'') (\<lambda>st.
                   let a = (case node_attr st of Some a \<Rightarrow> a | None \<Rightarrow> \<lparr>mode = 0, owner_uid = 0, owner_gid = 0, projid = 0, xattrs = []\<rparr>) in
                   checked (os_mkdir fullChildBaseDir (mode a)) (wrapping ''could not create base directory in child layer'') (\<lambda>_.
                   checked (os_chmod fullChildBaseDir (mode a)) (wrapping (''chmoding directory `'' @ fullChildBaseDir @ ''`'')) (\<lambda>_.
                   checked (os_chown fullChildBaseDir (owner_uid a) (owner_gid a)) (wrapping ''could not chown base directory'') (\<lambda>_.
                   ret (Some ()))))))
               (\<lambda>_. ret (Some ())))))"

end
