(* ===== verification/Measurer.thy ===== *)
theory Measurer
  imports Garbage_Collector
begin

text \<open>
  \<open>store/measurer_linux.go\<close>: the sizes of the volumes and the quotas committed to images.
  Sums are 64-bit and wrap around; \<open>TotalVolumesSize_sum\<close> (\<open>Measure_Facts\<close>) says when they do not.
\<close>

definition add_volume_size :: "volume_driver \<Rightarrow> string \<Rightarrow> int \<Rightarrow> int sys" where
  "add_volume_size drv volume acc = checked (vd_size drv volume)
     (\<lambda>e. if \<not> is_not_exist e then throw e else ret (i64 (acc + 0)))
     (\<lambda>volumeSize. ret (i64 (acc + volumeSize)))"

definition countVolumesSize :: "volume_driver \<Rightarrow> string list \<Rightarrow> int sys" where
  "countVolumesSize drv volumes = fold_io (add_volume_size drv) volumes 0"

definition TotalVolumesSize :: "volume_driver \<Rightarrow> int sys" where
  "TotalVolumesSize drv = checked (vd_volumes drv) throw (countVolumesSize drv)"

definition UnusedVolumesSize :: "volume_driver \<Rightarrow> string list sys \<Rightarrow> int sys" where
  "UnusedVolumesSize drv unused = checked unused throw (countVolumesSize drv)"

definition UsedVolumesSize :: "volume_driver \<Rightarrow> string list sys \<Rightarrow> int sys" where
  "UsedVolumesSize drv unused =
     checked (TotalVolumesSize drv) throw (\<lambda>totalVolumesSize.
     checked (UnusedVolumesSize drv unused) throw (\<lambda>unusedVolumesSize.
     ret (i64 (totalVolumesSize - unusedVolumesSize))))"

definition readImageQuota :: "string \<Rightarrow> int sys" where
  "readImageQuota imageDir =
     checked (os_read_file (filepath_join [imageDir, ''image_quota''])) throw (\<lambda>imageQuotaBytes.
     if length imageQuotaBytes = 0 then ret 0 else parse_int_io imageQuotaBytes)"

text \<open>The directory entries: a name and whether it is a directory itself.\<close>

definition entries :: "string \<Rightarrow> (string \<times> bool) list sys" where
  "entries dir = checked (os_read_dir dir) throw (\<lambda>names. (\<lambda>w.
     (Inr (map (\<lambda>n. (n, is_dir w (at_path w dir @ [n]))) names), w)))"

definition add_image_quota :: "string \<Rightarrow> string \<times> bool \<Rightarrow> int \<Rightarrow> int sys" where
  "add_image_quota imageDir file acc =
     (if \<not> snd file then ret acc
      else checked (readImageQuota (filepath_join [imageDir, fst file]))
        (\<lambda>e. if \<not> is_not_exist e then throw e else ret (i64 (acc + 0)))
        (\<lambda>imageQuota. ret (i64 (acc + imageQuota))))"

definition CommittedQuota :: "string \<Rightarrow> int sys" where
  "CommittedQuota storePath =
     (let imageDir = filepath_join [storePath, ''images''] in
      checked (entries imageDir) (wrapping (''Cannot list images in '' @ imageDir)) (\<lambda>files.
      fold_io (add_image_quota imageDir) files 0))"

definition PathStats :: "string \<Rightarrow> (int \<times> int) sys" where
  "PathStats storePath = checked (statfs storePath) (wrapping (''Invalid path '' @ storePath)) (\<lambda>stats.
     let bsize = f_bsize stats; free = f_bfree stats * bsize; total = f_blocks stats * bsize;
         used = total - free in
     ret (sint total, sint used))"

end
