(* ===== verification/Config.thy ===== *)
theory Config
  imports Groot_Types
begin

text \<open>
  Package \<open>commands/config\<close>: the configuration file overlaid with command line flags. A
  \<open>Builder\<close> is a pointer to the configuration it changes, so its methods are functions on
  \<open>Config\<close>. The YAML package is a parameter of \<open>load\<close>.
\<close>

record create_config =
  ExcludeImageFromQuota :: bool
  SkipLayerValidation :: bool
  with_clean :: bool
  CleanLogFile :: string
  WithoutMount :: bool
  DiskLimitSizeBytes :: int
  InsecureRegistries :: "string list"
  RemoteLayerClientCertificatesPath :: string

record clean_config =
  ThresholdBytes :: int

record init_config =
  StoreSizeBytes :: int
  OwnerUser :: string
  OwnerGroup :: string
  with_direct_io :: bool

record Config =
  StorePath :: string
  TardisBin :: string
  NewuidmapBin :: string
  NewgidmapBin :: string
  MetronEndpoint :: string
  LogLevel :: string
  LogFile :: string
  Create_section :: create_config
  Clean_section :: clean_config
  Init_section :: init_config

definition zero_config :: Config where
  "zero_config = \<lparr>StorePath = [], TardisBin = [], NewuidmapBin = [], NewgidmapBin = [],
     MetronEndpoint = [], LogLevel = [], LogFile = [],
     Create_section = \<lparr>ExcludeImageFromQuota = False, SkipLayerValidation = False, with_clean = False,
       CleanLogFile = [], WithoutMount = False, DiskLimitSizeBytes = 0, InsecureRegistries = [],
       RemoteLayerClientCertificatesPath = []\<rparr>,
     Clean_section = \<lparr>ThresholdBytes = 0\<rparr>,
     Init_section = \<lparr>StoreSizeBytes = 0, OwnerUser = [], OwnerGroup = [], with_direct_io = False\<rparr>\<rparr>"

definition load :: "(string \<Rightarrow> goerr + Config) \<Rightarrow> string \<Rightarrow> Config sys" where
  "load yaml configPath =
     checked (os_read_file configPath) (wrapping ''invalid config path'') (\<lambda>configContent.
       (case yaml configContent of Inl e \<Rightarrow> wrapping ''invalid config file'' e | Inr c \<Rightarrow> ret c))"

definition NewBuilder :: "(string \<Rightarrow> goerr + Config) \<Rightarrow> string \<Rightarrow> Config sys" where
  "NewBuilder yaml pathToYaml = (if pathToYaml \<noteq> [] then load yaml pathToYaml else ret zero_config)"

definition Build :: "Config \<Rightarrow> goerr + Config" where
  "Build b =
     (if DiskLimitSizeBytes (Create_section b) < 0 then
        Inl (Msg ''invalid argument: disk limit cannot be negative'')
      else if ThresholdBytes (Clean_section b) < 0 then
        Inl (Msg ''invalid argument: clean threshold cannot be negative'')
      else Inr b)"

definition on_create :: "(create_config \<Rightarrow> create_config) \<Rightarrow> Config \<Rightarrow> Config" where
  "on_create f b = b\<lparr>Create_section := f (Create_section b)\<rparr>"

definition WithInsecureRegistries :: "string list \<Rightarrow> Config \<Rightarrow> Config" where
  "WithInsecureRegistries rs b =
     (if length rs = 0 then b else on_create (\<lambda>c. c\<lparr>InsecureRegistries := rs\<rparr>) b)"

definition WithStorePath :: "string \<Rightarrow> bool \<Rightarrow> Config \<Rightarrow> Config" where
  "WithStorePath p isSet b = (if isSet \<or> StorePath b = [] then b\<lparr>StorePath := p\<rparr> else b)"

definition WithTardisBin :: "string \<Rightarrow> bool \<Rightarrow> Config \<Rightarrow> Config" where
  "WithTardisBin p isSet b = (if isSet \<or> TardisBin b = [] then b\<lparr>TardisBin := p\<rparr> else b)"

definition WithNewuidmapBin :: "string \<Rightarrow> bool \<Rightarrow> Config \<Rightarrow> Config" where
  "WithNewuidmapBin p isSet b = (if isSet \<or> NewuidmapBin b = [] then b\<lparr>NewuidmapBin := p\<rparr> else b)"

definition WithNewgidmapBin :: "string \<Rightarrow> bool \<Rightarrow> Config \<Rightarrow> Config" where
  "WithNewgidmapBin p isSet b = (if isSet \<or> NewgidmapBin b = [] then b\<lparr>NewgidmapBin := p\<rparr> else b)"

definition WithMetronEndpoint :: "string \<Rightarrow> Config \<Rightarrow> Config" where
  "WithMetronEndpoint e b = (if e = [] then b else b\<lparr>MetronEndpoint := e\<rparr>)"

definition WithDiskLimitSizeBytes :: "int \<Rightarrow> bool \<Rightarrow> Config \<Rightarrow> Config" where
  "WithDiskLimitSizeBytes limit isSet b =
     (if isSet then on_create (\<lambda>c. c\<lparr>DiskLimitSizeBytes := limit\<rparr>) b else b)"

definition WithExcludeImageFromQuota :: "bool \<Rightarrow> bool \<Rightarrow> Config \<Rightarrow> Config" where
  "WithExcludeImageFromQuota exclude isSet b =
     (if isSet then on_create (\<lambda>c. c\<lparr>ExcludeImageFromQuota := exclude\<rparr>) b else b)"

definition WithSkipLayerValidation :: "bool \<Rightarrow> bool \<Rightarrow> Config \<Rightarrow> Config" where
  "WithSkipLayerValidation skip isSet b =
     (if isSet then on_create (\<lambda>c. c\<lparr>SkipLayerValidation := skip\<rparr>) b else b)"

definition WithCleanThresholdBytes :: "int \<Rightarrow> bool \<Rightarrow> Config \<Rightarrow> Config" where
  "WithCleanThresholdBytes threshold isSet b =
     (if isSet then b\<lparr>Clean_section := (Clean_section b)\<lparr>ThresholdBytes := threshold\<rparr>\<rparr> else b)"

definition WithLogLevel :: "string \<Rightarrow> bool \<Rightarrow> Config \<Rightarrow> Config" where
  "WithLogLevel level isSet b = (if isSet then b\<lparr>LogLevel := level\<rparr> else b)"

definition WithLogFile :: "string \<Rightarrow> Config \<Rightarrow> Config" where
  "WithLogFile p b = (if p \<noteq> [] then b\<lparr>LogFile := p\<rparr> else b)"

definition WithCleanLog :: "string \<Rightarrow> Config \<Rightarrow> Config" where
  "WithCleanLog p b = (if p \<noteq> [] then on_create (\<lambda>c. c\<lparr>CleanLogFile := p\<rparr>) b else b)"

definition WithClean :: "bool \<Rightarrow> bool \<Rightarrow> Config \<Rightarrow> Config" where
  "WithClean clean noClean b =
     (let b1 = (if clean then on_create (\<lambda>c. c\<lparr>with_clean := True\<rparr>) b else b) in
      if noClean then on_create (\<lambda>c. c\<lparr>with_clean := False\<rparr>) b1 else b1)"

definition WithMount :: "bool \<Rightarrow> bool \<Rightarrow> Config \<Rightarrow> Config" where
  "WithMount mount noMount b =
     (let b1 = (if mount then on_create (\<lambda>c. c\<lparr>WithoutMount := False\<rparr>) b else b) in
      if noMount then on_create (\<lambda>c. c\<lparr>WithoutMount := True\<rparr>) b1 else b1)"

definition WithStoreSizeBytes :: "int \<Rightarrow> Config \<Rightarrow> Config" where
  "WithStoreSizeBytes n b = b\<lparr>Init_section := (Init_section b)\<lparr>StoreSizeBytes := n\<rparr>\<rparr>"

definition WithDirectIO :: "Config \<Rightarrow> Config" where
  "WithDirectIO b = b\<lparr>Init_section := (Init_section b)\<lparr>with_direct_io := True\<rparr>\<rparr>"

section \<open>Facts\<close>

lemma Build_InrD: "Build b = Inr c \<Longrightarrow> c = b \<and> 0 \<le> DiskLimitSizeBytes (Create_section c) \<and> 0 \<le> ThresholdBytes (Clean_section c)"
  by (auto simp: Build_def split: if_splits)

section \<open>Properties\<close>

text \<open>The overlay of the command line that \<open>grootfs create\<close> applies, in its order.\<close>

record create_flags =
  fl_insecure :: "string list"
  fl_limit :: "int option"
  fl_exclude :: "bool option"
  fl_skip :: "bool option"
  fl_threshold :: "int option"
  fl_with_clean :: bool
  fl_without_clean :: bool
  fl_clean_log :: string
  fl_with_mount :: bool
  fl_without_mount :: bool

definition given :: "'a option \<Rightarrow> 'a \<Rightarrow> 'a" where
  "given x d = (case x of Some v \<Rightarrow> v | None \<Rightarrow> d)"

definition create_config_of :: "create_flags \<Rightarrow> Config \<Rightarrow> goerr + Config" where
  "create_config_of f b = Build
     (WithMount (fl_with_mount f) (fl_without_mount f)
     (WithCleanLog (fl_clean_log f)
     (WithClean (fl_with_clean f) (fl_without_clean f)
     (WithCleanThresholdBytes (given (fl_threshold f) 0) (fl_threshold f \<noteq> None)
     (WithSkipLayerValidation (given (fl_skip f) False) (fl_skip f \<noteq> None)
     (WithExcludeImageFromQuota (given (fl_exclude f) False) (fl_exclude f \<noteq> None)
     (WithDiskLimitSizeBytes (given (fl_limit f) 0) (fl_limit f \<noteq> None)
     (WithInsecureRegistries (fl_insecure f) b))))))))"

text \<open>Each builder as one update of its field.\<close>

lemma flag_updates:
  "WithDiskLimitSizeBytes (given x 0) (x \<noteq> None) b =
     on_create (\<lambda>c. c\<lparr>DiskLimitSizeBytes := given x (DiskLimitSizeBytes c)\<rparr>) b"
  "WithExcludeImageFromQuota (given y False) (y \<noteq> None) b =
     on_create (\<lambda>c. c\<lparr>ExcludeImageFromQuota := given y (ExcludeImageFromQuota c)\<rparr>) b"
  "WithSkipLayerValidation (given z False) (z \<noteq> None) b =
     on_create (\<lambda>c. c\<lparr>SkipLayerValidation := given z (SkipLayerValidation c)\<rparr>) b"
  "WithCleanThresholdBytes (given t 0) (t \<noteq> None) b =
     b\<lparr>Clean_section := (Clean_section b)\<lparr>ThresholdBytes := given t (ThresholdBytes (Clean_section b))\<rparr>\<rparr>"
  "WithInsecureRegistries rs b =
     on_create (\<lambda>c. c\<lparr>InsecureRegistries := (if rs = [] then InsecureRegistries c else rs)\<rparr>) b"
  "WithCleanLog p b = on_create (\<lambda>c. c\<lparr>CleanLogFile := (if p = [] then CleanLogFile c else p)\<rparr>) b"
  "WithClean on off b = on_create (\<lambda>c. c\<lparr>with_clean := (\<not> off \<and> (on \<or> with_clean c))\<rparr>) b"
  "WithMount on off b = on_create (\<lambda>c. c\<lparr>WithoutMount := (off \<or> (\<not> on \<and> WithoutMount c))\<rparr>) b"
  subgoal by (cases x; simp add: WithDiskLimitSizeBytes_def given_def on_create_def)
  subgoal by (cases y; simp add: WithExcludeImageFromQuota_def given_def on_create_def)
  subgoal by (cases z; simp add: WithSkipLayerValidation_def given_def on_create_def)
  subgoal by (cases t; simp add: WithCleanThresholdBytes_def given_def on_create_def)
  by (simp_all add: WithInsecureRegistries_def WithCleanLog_def WithClean_def WithMount_def
       on_create_def Let_def)

text \<open>C30: the configuration of a create is the file's with every flag that was given
  laid over it, and it is refused exactly when the disk limit or the clean threshold that
  results is negative: no other field can make it fail, and a flag that was not given never
  changes a field of the file.\<close>

theorem create_config_precedence:
  "create_config_of f b =
     (let limit = given (fl_limit f) (DiskLimitSizeBytes (Create_section b));
          threshold = given (fl_threshold f) (ThresholdBytes (Clean_section b)) in
      if limit < 0 then Inl (Msg ''invalid argument: disk limit cannot be negative'')
      else if threshold < 0 then Inl (Msg ''invalid argument: clean threshold cannot be negative'')
      else Inr (b\<lparr>Create_section :=
          \<lparr>ExcludeImageFromQuota = given (fl_exclude f) (ExcludeImageFromQuota (Create_section b)),
           SkipLayerValidation = given (fl_skip f) (SkipLayerValidation (Create_section b)),
           with_clean = (\<not> fl_without_clean f \<and> (fl_with_clean f \<or> with_clean (Create_section b))),
           CleanLogFile = (if fl_clean_log f = [] then CleanLogFile (Create_section b) else fl_clean_log f),
           WithoutMount = (fl_without_mount f \<or> (\<not> fl_with_mount f \<and> WithoutMount (Create_section b))),
           DiskLimitSizeBytes = limit,
           InsecureRegistries = (if fl_insecure f = [] then InsecureRegistries (Create_section b) else fl_insecure f),
           RemoteLayerClientCertificatesPath = RemoteLayerClientCertificatesPath (Create_section b)\<rparr>,
         Clean_section := (Clean_section b)\<lparr>ThresholdBytes := threshold\<rparr>\<rparr>))"
  unfolding create_config_of_def flag_updates by (simp add: Build_def on_create_def Let_def)

end
