(* ===== verification/Cleaner.thy ===== *)
theory Cleaner
  imports Measurer Locksmith Config
begin

text \<open>
  \<open>groot/cleaner.go\<close> and \<open>groot/async_cleaner.go\<close>. \<open>Clean\<close> starts \<open>run\<close> in a goroutine and
  gives up after the cleaning timeout; as for \<open>LockWithTimeout\<close> the timer is an entry of the
  fault schedule, whose number says whether the goroutine finishes its work afterwards.
\<close>

record store_measurer =
  sm_committed :: "int sys"
  sm_total :: "int sys"

record collector =
  col_unused :: "string list sys"
  col_mark :: "string list \<Rightarrow> unit sys"
  col_collect :: "unit sys"

record cleaner =
  storeMeasurer :: store_measurer
  garbageCollector :: collector
  cl_locksmith :: locksmith
  getLockTimeout :: string

definition collectGarbage :: "cleaner \<Rightarrow> unit sys" where
  "collectGarbage c =
     checked (LockWithTimeout (cl_locksmith c) GlobalLockKey (getLockTimeout c))
       (wrapping ''garbage collector acquiring lock'') (\<lambda>lockFile.
     observed (col_unused (garbageCollector c)) (\<lambda>r.
     let unusedVolumes = (case r of Inl _ \<Rightarrow> [] | Inr vs \<Rightarrow> vs) in
     logged (col_mark (garbageCollector c) unusedVolumes)
     (logged (Unlock (cl_locksmith c) lockFile)
     (col_collect (garbageCollector c)))))"

definition run :: "cleaner \<Rightarrow> int \<Rightarrow> bool sys" where
  "run c threshold = deferred
     (if threshold > 0 then
        checked (sm_committed (storeMeasurer c)) (wrapping ''failed to calculate committed quota'') (\<lambda>committedQuota.
        checked (sm_total (storeMeasurer c)) (wrapping ''failed to calculate total volumes size'') (\<lambda>totalVolumesSize.
        if i64 (committedQuota + totalVolumesSize) < threshold then ret True
        else checked (collectGarbage c) throw (\<lambda>_. ret False)))
      else if threshold < 0 then throw (Msg ''Threshold must be greater than 0'')
      else checked (collectGarbage c) throw (\<lambda>_. ret False))
     (\<lambda>r. checked (TryEmitDurationFrom MetricImageCleanTime) throw (\<lambda>_. give_back r))"

definition Clean :: "cleaner \<Rightarrow> int \<Rightarrow> bool sys" where
  "Clean c threshold = faulty
     (\<lambda>e n w. (Inl CleaningTimeout, if n = 0 then w else snd (run c threshold w)))
     (run c threshold)"

text \<open>The cleaner that runs \<open>grootfs clean\<close> in the background.\<close>

definition flag :: "string \<Rightarrow> string \<Rightarrow> string list" where
  "flag name value = (if value \<noteq> [] then [name, value] else [])"

definition clean_args :: "Config \<Rightarrow> int \<Rightarrow> string list" where
  "clean_args cfg cleanThresholdBytes =
     flag ''--log-file'' (CleanLogFile (Create_section cfg)) @
     flag ''--log-level'' (LogLevel cfg) @
     flag ''--store'' (StorePath cfg) @
     flag ''--metron-endpoint'' (MetronEndpoint cfg) @
     flag ''--tardis-bin'' (TardisBin cfg) @
     flag ''--newuidmap-bin'' (NewuidmapBin cfg) @
     flag ''--newgidmap-bin'' (NewgidmapBin cfg) @
     [''clean'', ''--threshold-bytes'', itoa cleanThresholdBytes]"

definition async_Clean :: "Config \<Rightarrow> int \<Rightarrow> bool sys" where
  "async_Clean cfg cleanThresholdBytes = (\<lambda>w.
     faulty (\<lambda>e k. throw (SysErr e))
       (checked (emit (Exec (argv0 w) (clean_args cfg cleanThresholdBytes))) throw (\<lambda>_. ret True)) w)"

end
