(* ===== verification/Creator.thy ===== *)
theory Creator
  imports Puller Cleaner Image_Manager Dependency_Manager
begin

text \<open>
  The operations of package \<open>groot\<close> on images: \<open>Creator\<close>, \<open>Deleter\<close>, \<open>Lister\<close> and \<open>Statser\<close>.
  The interfaces they are given are fields of their records.
\<close>

record image_manager =
  im_exists :: "string \<Rightarrow> bool sys"
  im_create :: "ImageSpec \<Rightarrow> ImageInfo sys"
  im_destroy :: "string \<Rightarrow> unit sys"
  im_stats :: "string \<Rightarrow> VolumeStats sys"

record dependency_manager =
  dm_register :: "string \<Rightarrow> string list \<Rightarrow> unit sys"
  dm_deregister :: "string \<Rightarrow> unit sys"

record base_image_puller =
  bp_info :: "BaseImageInfo sys"
  bp_pull :: "BaseImageInfo \<Rightarrow> BaseImageSpec \<Rightarrow> unit sys"

record creator =
  c_cleaner :: "int \<Rightarrow> bool sys"
  c_images :: image_manager
  c_puller :: base_image_puller
  c_locksmith :: locksmith
  c_dependencies :: dependency_manager

record CreateSpec =
  create_id :: string
  create_disk_limit :: int
  create_mount :: bool
  create_exclude :: bool
  CleanOnCreate :: bool
  CleanOnCreateThresholdBytes :: int
  create_uid_mappings :: "IDMappingSpec list"
  create_gid_mappings :: "IDMappingSpec list"

definition chainIDs :: "LayerInfo list \<Rightarrow> string list" where
  "chainIDs layerInfos = map ChainID layerInfos"

fun mapped_root :: "IDMappingSpec list \<Rightarrow> int \<Rightarrow> int" where
  "mapped_root [] i = i"
| "mapped_root (m # ms) i = (if map_size m = 1 \<and> NamespaceID m = 0 then HostID m else mapped_root ms i)"

definition parseOwner :: "IDMappingSpec list \<Rightarrow> IDMappingSpec list \<Rightarrow> (int \<times> int) sys" where
  "parseOwner uidMappings gidMappings = checked getuid throw (\<lambda>uid. checked getgid throw (\<lambda>gid.
     ret (mapped_root uidMappings uid, mapped_root gidMappings gid)))"

definition create_locked :: "creator \<Rightarrow> CreateSpec \<Rightarrow> int \<Rightarrow> int \<Rightarrow> BaseImageInfo \<Rightarrow> BaseImageSpec \<Rightarrow> ImageInfo sys" where
  "create_locked c spec ownerUid ownerGid baseImageInfo baseImageSpec =
     checked (bp_pull (c_puller c) baseImageInfo baseImageSpec) (wrapping ''pulling the image'') (\<lambda>_.
     checked (im_create (c_images c) \<lparr>spec_id = create_id spec, spec_mount = create_mount spec,
         spec_disk_limit = create_disk_limit spec, spec_exclude = create_exclude spec,
         BaseVolumeIDs = chainIDs (LayerInfos baseImageInfo), spec_base_image = base_config baseImageInfo,
         spec_owner_uid = ownerUid, spec_owner_gid = ownerGid\<rparr>) (wrapping ''making image'') (\<lambda>image.
     checked (dm_register (c_dependencies c) (image_ref (create_id spec)) (chainIDs (LayerInfos baseImageInfo)))
       (\<lambda>e. logged (im_destroy (c_images c) (create_id spec)) (throw e)) (\<lambda>_.
     ret image)))"

definition after_create :: "creator \<Rightarrow> CreateSpec \<Rightarrow> path \<Rightarrow> goerr + ImageInfo \<Rightarrow> ImageInfo sys" where
  "after_create c spec lockFile r =
     logged (Unlock (c_locksmith c) lockFile)
     (if CleanOnCreate spec then
        checked (c_cleaner c (CleanOnCreateThresholdBytes spec)) (wrapping ''failed-to-schedule-cleanup'')
          (\<lambda>_. give_back r)
      else give_back r)"

definition Create :: "creator \<Rightarrow> CreateSpec \<Rightarrow> ImageInfo sys" where
  "Create c spec = timed MetricImageCreationTime
     (if CHR ''/'' \<in> set (create_id spec) then
        throw (Msg (''id `'' @ create_id spec @ ''` contains invalid characters: `/`''))
      else checked (im_exists (c_images c) (create_id spec)) (wrapping ''checking id exists'') (\<lambda>ok.
      if ok then throw (Msg (''image for id `'' @ create_id spec @ ''` already exists''))
      else checked (parseOwner (create_uid_mappings spec) (create_gid_mappings spec)) throw (\<lambda>(ownerUid, ownerGid).
      let baseImageSpec = \<lparr>base_disk_limit = create_disk_limit spec, base_exclude = create_exclude spec,
            base_uid_mappings = create_uid_mappings spec, base_gid_mappings = create_gid_mappings spec,
            base_owner_uid = ownerUid, base_owner_gid = ownerGid\<rparr> in
      checked (bp_info (c_puller c)) throw (\<lambda>baseImageInfo.
      checked (Lock (c_locksmith c) GlobalLockKey) throw (\<lambda>lockFile.
      deferred (create_locked c spec ownerUid ownerGid baseImageInfo baseImageSpec)
        (after_create c spec lockFile))))))"

definition Delete :: "image_manager \<Rightarrow> dependency_manager \<Rightarrow> string \<Rightarrow> unit sys" where
  "Delete im dm i = timed MetricImageDeletionTime
     (checked (im_destroy im i) throw (\<lambda>_.
      checked (dm_deregister dm (image_ref i))
        (\<lambda>e. if \<not> is_not_exist (cause e) then throw e else ret ()) ret))"

definition listDirs :: "string \<Rightarrow> string list sys" where
  "listDirs p = checked (os_open p) throw (\<lambda>_. checked (os_read_dir p) throw (\<lambda>names.
     checked (ranged names) throw (\<lambda>files.
     ret (map (\<lambda>n. filepath_join [p, n]) files))))"

definition groot_List :: "string \<Rightarrow> string list sys" where
  "groot_List storePath = checked (listDirs (filepath_join [storePath, ImageDirName]))
     (wrapping ''failed to list store path'') ret"

definition groot_Stats :: "image_manager \<Rightarrow> string \<Rightarrow> VolumeStats sys" where
  "groot_Stats im i = checked (im_stats im i) throw ret"

text \<open>The components of a store, as the commands wire them together.\<close>

definition store_images :: "driver \<Rightarrow> image_manager" where
  "store_images d = \<lparr>im_exists = image_Exists (drv_store d),
     im_create = image_Create (overlay_images d) (drv_store d),
     im_destroy = image_Destroy (overlay_images d) (drv_store d),
     im_stats = image_Stats (overlay_images d) (drv_store d)\<rparr>"

definition store_dependencies :: "string \<Rightarrow> dependency_manager" where
  "store_dependencies store = \<lparr>dm_register = Register (dependencies_dir store),
     dm_deregister = Deregister (dependencies_dir store)\<rparr>"

definition layer_puller :: "puller \<Rightarrow> base_image_puller" where
  "layer_puller p = \<lparr>bp_info = FetchBaseImageInfo p, bp_pull = Pull p\<rparr>"

definition gc_collector :: "gc \<Rightarrow> collector" where
  "gc_collector g = \<lparr>col_unused = UnusedVolumes g, col_mark = MarkUnused g, col_collect = Collect g\<rparr>"

definition NewStoreMeasurer :: "string \<Rightarrow> volume_driver \<Rightarrow> store_measurer" where
  "NewStoreMeasurer storePath drv = \<lparr>sm_committed = CommittedQuota storePath, sm_total = TotalVolumesSize drv\<rparr>"

definition GET_LOCK_TIMEOUT :: string where "GET_LOCK_TIMEOUT = ''3''"

definition clean_locksmith :: "string \<Rightarrow> locksmith" where
  "clean_locksmith store = WithMetrics (NewExclusiveFileSystem (filepath_join [store, LocksDirName]))"

definition store_cleaner :: "driver \<Rightarrow> cleaner" where
  "store_cleaner d = \<lparr>storeMeasurer = NewStoreMeasurer (drv_store d) (overlay_volumes d),
     garbageCollector = gc_collector (store_gc d), cl_locksmith = clean_locksmith (drv_store d),
     getLockTimeout = GET_LOCK_TIMEOUT\<rparr>"

end
