(* ===== verification/Samples.thy ===== *)
theory Samples
  imports Creator
begin

text \<open>
  A small store at \<open>/s\<close> with two volumes, \<open>a\<close> that the image \<open>i\<close> depends on and \<open>b\<close> that
  no image uses, and the driver of that store: the inputs at which the theorems are applied.
\<close>

definition sample_driver :: driver where
  "sample_driver = \<lparr>drv_store = ''/s'', tardisBinPath = ''tardis'', unmounter = rootful_unmount,
     directIO = NoopDirectIO_Configure, tardis_program = (\<lambda>_. ret (ExecOk [])), shortid = (\<lambda>n. Inr ''Z'')\<rparr>"

definition in_store :: "path \<Rightarrow> path" where
  "in_store q = ''s'' # q"

definition sample_tree :: "(path \<times> node) list" where
  "sample_tree =
    [([], Dir root_attr), (in_store [], Dir root_attr),
     (in_store [''volumes''], Dir root_attr), (in_store [''volumes'', ''a''], Dir root_attr),
     (in_store [''volumes'', ''a'', ''f''], Regular root_attr ''data''),
     (in_store [''volumes'', ''b''], Dir root_attr),
     (in_store [''l''], Dir root_attr),
     (in_store [''l'', ''a''], Regular root_attr ''X''), (in_store [''l'', ''X''], Symlink ''/s/volumes/a''),
     (in_store [''l'', ''b''], Regular root_attr ''Y''), (in_store [''l'', ''Y''], Symlink ''/s/volumes/b''),
     (in_store [''meta''], Dir root_attr),
     (in_store [''meta'', ''volume-a''], Regular root_attr ''{\"Size\":4}''),
     (in_store [''meta'', ''volume-b''], Regular root_attr ''{\"Size\":0}''),
     (in_store [''meta'', ''dependencies''], Dir root_attr),
     (in_store [''meta'', ''dependencies'', ''image:i.json''], Regular root_attr ''[\"a\"]''),
     (in_store [''images''], Dir root_attr), (in_store [''images'', ''i''], Dir root_attr),
     (in_store [''locks''], Dir root_attr)]"

definition sample_store :: world where
  "sample_store = blank\<lparr>tree := sample_tree\<rparr>"

end
