(* ===== verification/Collection.thy ===== *)
theory Collection
  imports Volume_Safety Samples
begin

text \<open>
  The garbage collector and the cleaner over it. \<open>UnusedVolumes\<close> computes exactly the volumes
  that no image's dependency file names. The locale \<open>collectable\<close> is the contract between the
  collector and the volumes; \<open>store_gc\<close> fulfils it with the invariant \<open>guarded\<close>.
\<close>

section \<open>Unused volumes\<close>

text \<open>What the images of a store depend on, by their dependency files.\<close>

definition image_names :: "driver \<Rightarrow> world \<Rightarrow> string set" where
  "image_names d w = {i. nodes w (comps (drv_store d) @ [ImageDirName, i]) \<noteq> None}"

definition used_by_images :: "driver \<Rightarrow> world \<Rightarrow> string set" where
  "used_by_images d w = {x. \<exists>i \<in> image_names d w. \<exists>ids.
     recorded (dependencies_dir (drv_store d)) w (image_ref i) = Some ids \<and> x \<in> set ids}"

definition volume_names :: "driver \<Rightarrow> world \<Rightarrow> string set" where
  "volume_names d w = {x. nodes w (comps (drv_store d) @ [VolumesDirName, x]) \<noteq> None}"

definition dependency_files_regular :: "driver \<Rightarrow> world \<Rightarrow> bool" where
  "dependency_files_regular d w \<longleftrightarrow> (\<forall>i \<in> image_names d w. \<forall>t.
     nodes w (comps (dependencies_dir (drv_store d)) @ [dep_name (image_ref i)]) \<noteq> Some (Symlink t))"

lemma names_cong:
  assumes "nodes w = nodes w'"
  shows "image_names d w = image_names d w'" "volume_names d w = volume_names d w'"
    "used_by_images d w = used_by_images d w'" "recorded p w = recorded p w'"
  using assms by (simp_all add: image_names_def volume_names_def used_by_images_def recorded_def fun_eq_iff)

lemma removeDependencyFromOrphanList_filter:
  "removeDependencyFromOrphanList vs us = filter (\<lambda>x. x \<notin> set us) vs"
  unfolding removeDependencyFromOrphanList_def
  by (induction us arbitrary: vs) (simp_all add: conj_commute)

lemma read_dir_names:
  assumes "is_rooted p" and "os_read_dir p w = (Inr ns, w')"
  shows "nodes w' = nodes w" and "distinct ns" and "n \<in> set ns \<longleftrightarrow> nodes w (comps p @ [n]) \<noteq> None"
  using os_read_dir_cases [OF assms(2)] assms(1) by (auto simp: child_names_iff)

lemma Volumes_Inr:
  assumes "abs_path (drv_store d)" and "Volumes d w = (Inr vs, w')"
  shows "nodes w' = nodes w" and "distinct vs" and "set vs = volume_names d w"
proof -
  have p: "is_rooted (filepath_join [drv_store d, VolumesDirName])"
    "comps (filepath_join [drv_store d, VolumesDirName]) = comps (drv_store d) @ [VolumesDirName]"
    using join_comps [OF assms(1), of "[VolumesDirName]"] by simp_all
  from assms(2) have run: "os_read_dir (filepath_join [drv_store d, VolumesDirName]) w = (Inr vs, w')"
    unfolding Volumes_def by (auto elim!: checked_wrap_InrE)
  show "nodes w' = nodes w" and "distinct vs" and "set vs = volume_names d w"
    using read_dir_names [OF p(1) run] by (auto simp: volume_names_def p(2))
qed

lemma ImageIDs_Inr:
  assumes "abs_path (drv_store d)" and "ImageIDs (drv_store d) w = (Inr is, w')"
  shows "nodes w' = nodes w" and "set is = image_names d w"
proof -
  have p: "is_rooted (filepath_join [drv_store d, ImageDirName])"
    "comps (filepath_join [drv_store d, ImageDirName]) = comps (drv_store d) @ [ImageDirName]"
    using join_comps [OF assms(1), of "[ImageDirName]"] by simp_all
  from assms(2) have run: "os_read_dir (filepath_join [drv_store d, ImageDirName]) w = (Inr is, w')"
    unfolding ImageIDs_def by (auto elim!: checked_wrap_InrE)
  show "nodes w' = nodes w" and "set is = image_names d w"
    using read_dir_names [OF p(1) run] by (auto simp: image_names_def p(2))
qed

lemma subtract_dependencies_Inr:
  assumes "abs_path p" and "subtract_dependencies (Dependencies p) is os w = (Inr vs, w')"
    and "\<forall>i \<in> set is. \<forall>t. nodes w (comps p @ [dep_name (image_ref i)]) \<noteq> Some (Symlink t)"
  shows "nodes w' = nodes w \<and> (\<forall>i \<in> set is. recorded p w (image_ref i) \<noteq> None) \<and>
    vs = filter (\<lambda>x. \<forall>i \<in> set is. \<forall>ids. recorded p w (image_ref i) = Some ids \<longrightarrow> x \<notin> set ids) os"
  using assms(2,3)
proof (induction "is" arbitrary: os w)
  case (Cons i "is")
  from Cons.prems(1) obtain ids w1 where d: "Dependencies p (image_ref i) w = (Inr ids, w1)"
    and rest: "subtract_dependencies (Dependencies p) is (removeDependencyFromOrphanList os ids) w1 = (Inr vs, w')"
    by (auto elim!: checked_throw_InrE)
  have n1: "nodes w1 = nodes w" using d by (rule Dependencies_nodes)
  have rec: "recorded p w (image_ref i) = Some ids"
    using Dependencies_ok [OF assms(1) d] Cons.prems(2) by simp
  have same: "recorded p w1 = recorded p w" using names_cong(4) [OF n1] .
  have "nodes w' = nodes w1 \<and> (\<forall>i \<in> set is. recorded p w1 (image_ref i) \<noteq> None) \<and>
      vs = filter (\<lambda>x. \<forall>i \<in> set is. \<forall>ids. recorded p w1 (image_ref i) = Some ids \<longrightarrow> x \<notin> set ids)
        (removeDependencyFromOrphanList os ids)"
    by (rule Cons.IH [OF rest]) (use Cons.prems(2) n1 in simp)
  then show ?case
    unfolding same n1 removeDependencyFromOrphanList_filter filter_filter using rec
    by (auto intro!: filter_cong)
qed simp

lemma UnusedVolumes_facts:
  assumes "abs_path (drv_store d)" and "dependency_files_regular d w"
    and "UnusedVolumes (store_gc d) w = (Inr vs, w')"
  shows "set vs = {x \<in> volume_names d w. \<not> is_gc x \<and> x \<notin> used_by_images d w} \<and> distinct vs \<and>
    nodes w' = nodes w \<and>
    (\<forall>i \<in> image_names d w. recorded (dependencies_dir (drv_store d)) w (image_ref i) \<noteq> None)"
proof -
  let ?p = "dependencies_dir (drv_store d)"
  from assms(3) obtain vols w1 ids w2 os w3 where
    vols: "Volumes d w = (Inr vols, w1)" and ids: "ImageIDs (drv_store d) w1 = (Inr ids, w2)"
    and sub: "subtract_dependencies (Dependencies ?p) ids (remdups (filter (\<lambda>v. \<not> is_gc v) vols)) w2 = (Inr os, w3)"
    and rng: "ranged os w3 = (Inr vs, w')"
    unfolding UnusedVolumes_def store_gc_def overlay_volumes_def Let_def
    by (auto elim!: checked_throw_InrE checked_wrap_InrE)
  note v = Volumes_Inr [OF assms(1) vols] and i = ImageIDs_Inr [OF assms(1) ids]
  have n2: "nodes w2 = nodes w" using v i by simp
  have imgs: "set ids = image_names d w" using i(2) names_cong(1) [OF v(1)] by simp
  have s: "nodes w3 = nodes w2 \<and> (\<forall>i \<in> set ids. recorded ?p w2 (image_ref i) \<noteq> None) \<and>
     os = filter (\<lambda>x. \<forall>i \<in> set ids. \<forall>c. recorded ?p w2 (image_ref i) = Some c \<longrightarrow> x \<notin> set c)
       (remdups (filter (\<lambda>v. \<not> is_gc v) vols))"
    by (rule subtract_dependencies_Inr [OF dependencies_dir_facts(1) [OF assms(1)] sub])
      (use assms(2) in \<open>simp add: dependency_files_regular_def imgs n2\<close>)
  obtain k where "vs = shuffle k os" and "nodes w' = nodes w3" using ranged_Inr [OF rng] by auto
  with s v(3) show ?thesis
    by (auto simp: imgs n2 names_cong(4) [OF n2] used_by_images_def)
qed

text \<open>C9: \<open>UnusedVolumes\<close>, when it returns a list, returns exactly the volumes of the store
  that are not marked for collection and that no image's dependency file names, each once,
  and has changed no file; and every image then had a readable dependency file.\<close>

theorem UnusedVolumes_exact:
  assumes "abs_path (drv_store d)" and "dependency_files_regular d w"
    and "UnusedVolumes (store_gc d) w = (Inr vs, w')"
  shows "set vs = {x \<in> volume_names d w. \<not> is_gc x \<and> x \<notin> used_by_images d w} \<and> distinct vs \<and>
    nodes w' = nodes w \<and>
    (\<forall>i \<in> image_names d w. recorded (dependencies_dir (drv_store d)) w (image_ref i) \<noteq> None)"
  using assms by (rule UnusedVolumes_facts)

section \<open>The contract of the collector\<close>

text \<open>
  What the collector needs of its volumes for an invariant \<open>I\<close> to survive a collection:
  marking keeps it for the names in \<open>may_mark\<close>, destroying for those in \<open>may_destroy\<close>, and
  every \<open>gc.\<close> name that is listed is one of the latter.
\<close>

locale collectable =
  fixes g :: gc and I :: "world \<Rightarrow> bool" and may_mark :: "string \<Rightarrow> bool" and may_destroy :: "string \<Rightarrow> bool"
  assumes mark: "may_mark v \<Longrightarrow> keeps I (vd_mark (gc_driver g) v)"
    and destroy: "may_destroy v \<Longrightarrow> keeps I (vd_destroy (gc_driver g) v)"
    and listed: "hoare I (vd_volumes (gc_driver g))
      (\<lambda>vs w. I w \<and> (\<forall>v \<in> set vs. is_gc v \<longrightarrow> may_destroy v)) (\<lambda>_. I)"
begin

lemma keeps_mark_all: "(\<forall>v \<in> set vs. may_mark v) \<Longrightarrow> keeps I (mark_all (vd_mark (gc_driver g)) vs n)"
  by (induction vs arbitrary: n) (auto intro!: keeps_intro mark)

lemma keeps_MarkUnused: "(\<forall>v \<in> set vs. may_mark v) \<Longrightarrow> keeps I (MarkUnused g vs)"
  unfolding MarkUnused_def by (intro keeps_intro keeps_mark_all)

lemma keeps_destroy_all:
  "(\<forall>v \<in> set vs. is_gc v \<longrightarrow> may_destroy v) \<Longrightarrow> keeps I (destroy_all (vd_destroy (gc_driver g)) vs e)"
  by (induction vs arbitrary: e) (auto intro!: keeps_intro destroy)

lemma gcVolumes_listed:
  "hoare I (gcVolumes g) (\<lambda>vs w. I w \<and> (\<forall>v \<in> set vs. is_gc v \<longrightarrow> may_destroy v)) (\<lambda>_. I)"
  unfolding gcVolumes_def by (rule hoare_checked [OF listed]) auto

lemma keeps_Collect: "keeps I (Collect g)"
  unfolding Collect_def collectVolumes_def
  by (rule keeps_checked_value [OF gcVolumes_listed keeps_wrapping])
    (intro keeps_intro keeps_destroy_all)

text \<open>The two phases of a collection, with \<open>between\<close> after the marking.\<close>

lemma keeps_collection:
  assumes unused: "hoare P (UnusedVolumes g) (\<lambda>vs w. I w \<and> (\<forall>v \<in> set vs. may_mark v)) (\<lambda>_. I)"
    and between: "keeps I m"
  shows "hoare P (observed (UnusedVolumes g) (\<lambda>r. logged (MarkUnused g (case r of Inl _ \<Rightarrow> [] | Inr vs \<Rightarrow> vs))
      (logged m (Collect g)))) (\<lambda>_. I) (\<lambda>_. I)"
  unfolding observed_def
proof (rule hoare_checked [OF unused])
  fix vs
  show "hoare (\<lambda>w. I w \<and> (\<forall>v \<in> set vs. may_mark v))
      (logged (MarkUnused g (case Inr vs of Inl _ \<Rightarrow> [] | Inr vs \<Rightarrow> vs)) (logged m (Collect g))) (\<lambda>_. I) (\<lambda>_. I)"
  proof (cases "\<forall>v \<in> set vs. may_mark v")
    case True
    then have "keeps I (logged (MarkUnused g vs) (logged m (Collect g)))"
      by (intro keeps_intro keeps_MarkUnused keeps_Collect between)
    with True show ?thesis by (simp add: keeps_def)
  qed (auto simp: hoare_def)
next
  fix e
  have "keeps I (logged (MarkUnused g []) (logged m (Collect g)))"
    by (intro keeps_intro keeps_MarkUnused keeps_Collect between) simp
  then show "hoare I (logged (MarkUnused g (case Inl e of Inl _ \<Rightarrow> [] | Inr vs \<Rightarrow> vs)) (logged m (Collect g)))
      (\<lambda>_. I) (\<lambda>_. I)" by (simp add: keeps_def)
qed

end

definition markable :: "driver \<Rightarrow> string set \<Rightarrow> string \<Rightarrow> bool" where
  "markable d U x \<longleftrightarrow> plain_name x \<and> x \<notin> U \<and> renames_cleanly d x \<and> (\<forall>u \<in> U. \<not> is_gc u)"

lemma listed_plain:
  "hoare (guarded d U v) (Volumes d)
     (\<lambda>vs w. guarded d U v w \<and> (\<forall>x \<in> set vs. plain_name x \<and> (is_gc x \<longrightarrow> x \<notin> U))) (\<lambda>_. guarded d U v)"
proof (rule hoareI)
  fix w vs w'
  assume g: "guarded d U v w" and run: "Volumes d w = (Inr vs, w')"
  then have ok: "store_ok d w" and apart: "short_ids_apart d U v" by (simp_all add: guarded_def)
  note l = Volumes_Inr [OF store_ok_abs [OF ok] run]
  have "guarded d U v w'" using on_treeD [OF on_tree_guarded g l(1)] .
  moreover have "plain_name x" if "x \<in> set vs" for x
    using that ok by (auto simp: l(3) volume_names_def store_ok_def)
  moreover have "x \<notin> U" if "is_gc x" for x
    using that apart by (auto simp: short_ids_apart_def held_names_def)
  ultimately show "guarded d U v w' \<and> (\<forall>x \<in> set vs. plain_name x \<and> (is_gc x \<longrightarrow> x \<notin> U))" by blast
next
  fix w e w'
  assume g: "guarded d U v w" and run: "Volumes d w = (Inl e, w')"
  have "keeps (guarded d U v) (Volumes d)" unfolding Volumes_def by (intro keeps_intro) simp
  with g run show "guarded d U v w'" by (auto dest: keepsD)
qed

interpretation volumes: collectable "store_gc d" "guarded d U v" "markable d U" "\<lambda>x. plain_name x \<and> x \<notin> U"
  for d U v
proof unfold_locales
  show "markable d U x \<Longrightarrow> keeps (guarded d U v) (vd_mark (gc_driver (store_gc d)) x)" for x
    by (auto simp: markable_def store_gc_def overlay_volumes_def intro: keeps_MarkVolumeArtifacts)
  show "plain_name x \<and> x \<notin> U \<Longrightarrow> keeps (guarded d U v) (vd_destroy (gc_driver (store_gc d)) x)" for x
    by (simp add: store_gc_def overlay_volumes_def keeps_DestroyVolume)
  show "hoare (guarded d U v) (vd_volumes (gc_driver (store_gc d)))
      (\<lambda>vs w. guarded d U v w \<and> (\<forall>x \<in> set vs. is_gc x \<longrightarrow> plain_name x \<and> x \<notin> U)) (\<lambda>_. guarded d U v)"
    using hoare_weaken [OF listed_plain [of d U v], of "guarded d U v"
      "\<lambda>vs w. guarded d U v w \<and> (\<forall>x\<in>set vs. is_gc x \<longrightarrow> plain_name x \<and> x \<notin> U)" "\<lambda>_. guarded d U v"]
    by (simp add: store_gc_def overlay_volumes_def)
qed

section \<open>A clean\<close>

text \<open>Taking the lock changes nothing of the store but the directory of the locks.\<close>

definition outside_locks :: "driver \<Rightarrow> path \<Rightarrow> bool" where
  "outside_locks d q \<longleftrightarrow> (\<exists>x t. q = comps (drv_store d) @ x # t \<and> x \<noteq> LocksDirName)"

lemma outside_locks_simps [simp]:
  "outside_locks d (comps (drv_store d) @ x # t) \<longleftrightarrow> x \<noteq> LocksDirName"
  by (auto simp: outside_locks_def)

lemma lock_names_distinct [simp]:
  "VolumesDirName \<noteq> LocksDirName" "ImageDirName \<noteq> LocksDirName" "MetaDirName \<noteq> LocksDirName"
  "LinksDirName \<noteq> LocksDirName" "TempDirName \<noteq> LocksDirName"
  by (simp_all add: LinksDirName_def store_names)

lemma keeps_Lock_store [keeps_intro]:
  assumes abs: "abs_path (drv_store d)" and l: "locksDir l = filepath_join [drv_store d, LocksDirName]"
  shows "keeps (frozen (outside_locks d) v) (Lock l k)"
proof -
  let ?S = "comps (drv_store d)"
  have dir: "abs_path (locksDir l)" "comps (locksDir l) = ?S @ [LocksDirName]"
    using abs_path_join [OF abs, of "[LocksDirName]"] by (simp_all add: l)
  have key: "plain_name (replace_char k CHR ''/'' [] @ ''.lock'')"
    by (rule plain_name_append) (auto simp: replace_char_no_sep)
  have lockfile: "comps (lock_file l (replace_char k CHR ''/'' [])) = ?S @ [LocksDirName, replace_char k CHR ''/'' [] @ ''.lock'']"
    "is_rooted (lock_file l (replace_char k CHR ''/'' []))"
    using abs_path_join [OF dir(1), of "[replace_char k CHR ''/'' [] @ ''.lock'']"] key dir(2)
    by (simp_all add: lock_file_def is_rooted_abs)
  have "misses (outside_locks d) (lock_file l (replace_char k CHR ''/'' []))"
    using lockfile by (simp add: misses_def)
  moreover have "misses_above (outside_locks d) (locksDir l)"
    using dir by (auto simp: misses_above_def is_rooted_abs outside_locks_def prefix_def append_eq_append_conv2 Cons_eq_append_conv)
  ultimately show ?thesis
    unfolding Lock_def Let_def using dir(1) by (intro keeps_intro) auto
qed

lemma keeps_LockWithTimeout [keeps_intro]:
  assumes "keeps I (Lock l k)" and "\<And>w fs. I w \<Longrightarrow> I (w\<lparr>faults := fs\<rparr>)"
  shows "keeps I (LockWithTimeout l k s)"
proof (rule keepsI)
  fix w r w'
  assume "I w" and "LockWithTimeout l k s w = (r, w')"
  then show "I w'" unfolding LockWithTimeout_def
    by (elim faulty_cases) (use assms in \<open>auto dest: keepsD keeps_snd split: if_splits\<close>)
qed

lemma keeps_Unlock [keeps_intro]: "on_tree I \<Longrightarrow> keeps I (Unlock l f)"
  by (rule keepsI) (auto simp: Unlock_def release_def elim!: faulty_cases intro: on_treeD)

text \<open>Operations that only read keep whatever looks only at the tree.\<close>

lemma keeps_readers [keeps_intro]:
  assumes "on_tree I"
  shows "keeps I (Volumes d)" "keeps I (ImageIDs s)" "keeps I (Dependencies p i)" "keeps I (VolumeSize d i)"
    "keeps I (subtract_dependencies (Dependencies p) is os)" "keeps I (CommittedQuota s)"
proof -
  show vs: "keeps I (Volumes d)" "keeps I (ImageIDs s)" "keeps I (VolumeSize d i)"
    unfolding Volumes_def ImageIDs_def VolumeSize_def by (intro keeps_intro assms)+
  show deps: "keeps I (Dependencies p i)" for i
    unfolding Dependencies_def by (intro keeps_intro assms)
  show "keeps I (subtract_dependencies (Dependencies p) is os)"
    by (induction "is" arbitrary: os) (auto intro!: keeps_intro deps)
  have "keeps I (entries dir)" for dir
    unfolding entries_def by (intro keeps_intro assms keepsI) auto
  then show "keeps I (CommittedQuota s)"
    unfolding CommittedQuota_def add_image_quota_def readImageQuota_def parse_int_io_def Let_def
    by (intro keeps_intro assms)
qed

lemma off_locks_names:
  assumes "abs_path (drv_store d)" and "frozen (outside_locks d) v w"
  shows "image_names d w = image_names d v" "volume_names d w = volume_names d v"
    "used_by_images d w = used_by_images d v" "dependency_files_regular d w = dependency_files_regular d v"
proof -
  have at: "nodes w (comps (drv_store d) @ x # t) = nodes v (comps (drv_store d) @ x # t)" if "x \<noteq> LocksDirName" for x t
    using assms(2) that by (simp add: frozen_def)
  have dep: "nodes w (comps (dependencies_dir (drv_store d)) @ [n]) = nodes v (comps (dependencies_dir (drv_store d)) @ [n])" for n
    using at [of MetaDirName "[''dependencies'', n]"] dependencies_dir_facts(2) [OF assms(1)] by simp
  show imgs: "image_names d w = image_names d v" "volume_names d w = volume_names d v"
    using at by (simp_all add: image_names_def volume_names_def)
  then show "used_by_images d w = used_by_images d v"
    "dependency_files_regular d w = dependency_files_regular d v"
    by (simp_all add: used_by_images_def dependency_files_regular_def recorded_def dep)
qed

lemma off_locks_guarded:
  assumes "guarded d U v v" and "frozen (outside_locks d) v w"
  shows "guarded d U v w"
proof -
  have at: "nodes w (comps (drv_store d) @ x # t) = nodes v (comps (drv_store d) @ x # t)" if "x \<noteq> LocksDirName" for x t
    using assms(2) that by (simp add: frozen_def)
  have "frozen (held_paths d U v) v w"
    using at by (auto simp: frozen_def elim!: held_pathsE prefixE)
  moreover have "store_ok d w" using assms(1) at by (simp add: guarded_def store_ok_def)
  moreover have "separate d (held_names d U v) w" using assms(1) at by (simp add: guarded_def separate_def)
  ultimately show ?thesis using assms(1) by (simp add: guarded_def)
qed

text \<open>A store in order, with all that its images use protected.\<close>

definition collectable_store :: "driver \<Rightarrow> world \<Rightarrow> bool" where
  "collectable_store d w \<longleftrightarrow> guarded d (used_by_images d w) w w \<and> dependency_files_regular d w \<and>
     (\<forall>x \<in> volume_names d w. renames_cleanly d x)"

lemma UnusedVolumes_markable:
  assumes "collectable_store d v"
  shows "hoare (frozen (outside_locks d) v) (UnusedVolumes (store_gc d))
    (\<lambda>vs w. guarded d (used_by_images d v) v w \<and> (\<forall>x \<in> set vs. markable d (used_by_images d v) x))
    (\<lambda>_. guarded d (used_by_images d v) v)"
proof (rule hoareI)
  let ?U = "used_by_images d v"
  from assms have g: "guarded d ?U v v" and reg: "dependency_files_regular d v"
    and clean: "\<forall>x \<in> volume_names d v. renames_cleanly d x" by (simp_all add: collectable_store_def)
  have abs: "abs_path (drv_store d)" using g by (auto simp: guarded_def dest: store_ok_abs)
  {
    fix w vs w'
    assume fr: "frozen (outside_locks d) v w" and run: "UnusedVolumes (store_gc d) w = (Inr vs, w')"
    note n = off_locks_names [OF abs fr]
    have u: "set vs = {x \<in> volume_names d v. \<not> is_gc x \<and> x \<notin> ?U}" and "nodes w' = nodes w"
      using UnusedVolumes_facts [OF abs _ run] reg by (auto simp: n)
    then have "guarded d ?U v w'" using on_treeD [OF on_tree_guarded off_locks_guarded [OF g fr]] by blast
    moreover have "plain_name x" if "x \<in> volume_names d v" for x
      using that g by (auto simp: volume_names_def guarded_def store_ok_def)
    moreover have "\<forall>u \<in> ?U. \<not> is_gc u" using g by (auto simp: guarded_def short_ids_apart_def held_names_def)
    ultimately show "guarded d ?U v w' \<and> (\<forall>x \<in> set vs. markable d ?U x)"
      using clean by (auto simp: u markable_def)
  }
  have "keeps (guarded d ?U v) (UnusedVolumes (store_gc d))"
    unfolding UnusedVolumes_def store_gc_def overlay_volumes_def Let_def by simp (intro keeps_intro on_tree_guarded)
  then show "guarded d ?U v w'" if "frozen (outside_locks d) v w" and "UnusedVolumes (store_gc d) w = (Inl e, w')" for w e w'
    using off_locks_guarded [OF g that(1)] that(2) by (auto dest: keepsD)
qed

lemma hoare_collectGarbage:
  assumes "collectable_store d v"
  shows "hoare (frozen (outside_locks d) v) (collectGarbage (store_cleaner d))
    (\<lambda>_. guarded d (used_by_images d v) v) (\<lambda>_. guarded d (used_by_images d v) v)"
proof -
  let ?U = "used_by_images d v" and ?l = "clean_locksmith (drv_store d)" and ?Q = "frozen (outside_locks d) v"
  from assms have g: "guarded d ?U v v" by (simp add: collectable_store_def)
  have abs: "abs_path (drv_store d)" using g by (auto simp: guarded_def dest: store_ok_abs)
  have dir: "locksDir ?l = filepath_join [drv_store d, LocksDirName]"
    by (simp add: clean_locksmith_def WithMetrics_def NewExclusiveFileSystem_def)
  have lock: "keeps ?Q (LockWithTimeout ?l k s)" for k s
    by (intro keeps_intro abs dir) simp
  have rest: "hoare ?Q (observed (UnusedVolumes (store_gc d)) (\<lambda>r.
      logged (MarkUnused (store_gc d) (case r of Inl _ \<Rightarrow> [] | Inr vs \<Rightarrow> vs))
      (logged (Unlock ?l f) (Collect (store_gc d))))) (\<lambda>_. guarded d ?U v) (\<lambda>_. guarded d ?U v)" for f
    by (rule volumes.keeps_collection [OF UnusedVolumes_markable [OF assms]])
      (intro keeps_intro on_tree_guarded)
  show ?thesis
    unfolding collectGarbage_def Let_def store_cleaner_def gc_collector_def
    by (simp, rule hoare_checked [OF lock [unfolded keeps_def]])
      (use rest off_locks_guarded [OF g] in auto)
qed

lemma hoare_run:
  assumes "collectable_store d v"
  shows "hoare (frozen (outside_locks d) v) (run (store_cleaner d) threshold)
    (\<lambda>_. guarded d (used_by_images d v) v) (\<lambda>_. guarded d (used_by_images d v) v)"
proof -
  let ?Q = "frozen (outside_locks d) v" and ?R = "guarded d (used_by_images d v) v"
  have QR: "?Q w \<Longrightarrow> ?R w" for w
    using assms off_locks_guarded by (auto simp: collectable_store_def)
  have total: "keeps ?Q (TotalVolumesSize (overlay_volumes d))"
    unfolding TotalVolumesSize_def countVolumesSize_def add_volume_size_def overlay_volumes_def
    by simp (intro keeps_intro on_tree_frozen)
  have committed: "keeps ?Q (CommittedQuota (drv_store d))" by (intro keeps_intro on_tree_frozen)
  have collected: "hoare ?Q (checked (collectGarbage (store_cleaner d)) throw (\<lambda>_. ret False)) (\<lambda>_. ?R) (\<lambda>_. ?R)"
    by (rule hoare_checked [OF hoare_collectGarbage [OF assms]]) simp_all
  have measured: "hoare ?Q (checked (CommittedQuota (drv_store d)) (wrapping s) (\<lambda>c.
      checked (TotalVolumesSize (overlay_volumes d)) (wrapping t) (\<lambda>n.
      if i64 (c + n) < threshold then ret True
      else checked (collectGarbage (store_cleaner d)) throw (\<lambda>_. ret False)))) (\<lambda>_. ?R) (\<lambda>_. ?R)" for s t
    by (rule hoare_checked [OF committed [unfolded keeps_def]],
        rule hoare_checked [OF total [unfolded keeps_def]])
      (use QR collected in auto)
  have sm: "sm_committed (storeMeasurer (store_cleaner d)) = CommittedQuota (drv_store d)"
    "sm_total (storeMeasurer (store_cleaner d)) = TotalVolumesSize (overlay_volumes d)"
    by (simp_all add: store_cleaner_def NewStoreMeasurer_def)
  show ?thesis
    unfolding run_def sm
  proof (rule hoare_deferred [where R = "\<lambda>_. ?R"])
    show "hoare ?Q (if threshold > 0 then
        checked (CommittedQuota (drv_store d)) (wrapping ''failed to calculate committed quota'') (\<lambda>committedQuota.
        checked (TotalVolumesSize (overlay_volumes d)) (wrapping ''failed to calculate total volumes size'') (\<lambda>totalVolumesSize.
        if i64 (committedQuota + totalVolumesSize) < threshold then ret True
        else checked (collectGarbage (store_cleaner d)) throw (\<lambda>_. ret False)))
      else if threshold < 0 then throw (Msg ''Threshold must be greater than 0'')
      else checked (collectGarbage (store_cleaner d)) throw (\<lambda>_. ret False)) (\<lambda>_. ?R) (\<lambda>_. ?R)"
      using measured collected QR by simp
    have "keeps ?R (checked (TryEmitDurationFrom MetricImageCleanTime) throw (\<lambda>_. give_back r))" for r :: "goerr + bool"
      by (intro keeps_intro on_tree_guarded)
    then show "hoare ?R (checked (TryEmitDurationFrom MetricImageCleanTime) throw (\<lambda>_. give_back r)) (\<lambda>_. ?R) (\<lambda>_. ?R)"
      for r :: "goerr + bool"
      by (simp add: keeps_def)
  qed
qed

section \<open>Applied to a store\<close>

lemma sample_nodes:
  "nodes sample_store (''s'' # ''volumes'' # x) =
     (if x \<in> {[], [''a''], [''b'']} then Some (Dir root_attr)
      else if x = [''a'', ''f''] then Some (Regular root_attr ''data'') else None)"
  "nodes sample_store (''s'' # ''l'' # x) =
     (if x = [] then Some (Dir root_attr) else if x = [''a''] then Some (Regular root_attr ''X'')
      else if x = [''b''] then Some (Regular root_attr ''Y'')
      else if x = [''X''] then Some (Symlink ''/s/volumes/a'')
      else if x = [''Y''] then Some (Symlink ''/s/volumes/b'') else None)"
  "nodes sample_store (''s'' # ''images'' # x) = (if x \<in> {[], [''i'']} then Some (Dir root_attr) else None)"
  by (auto simp: nodes_def sample_store_def sample_tree_def in_store_def)

lemma sample_paths:
  "abs_path (drv_store sample_driver)" "comps (drv_store sample_driver) = [''s'']"
  "volume_path sample_driver ''a'' = ''/s/volumes/a''" "volume_path sample_driver ''b'' = ''/s/volumes/b''"
proof -
  have s: "drv_store sample_driver = path_of [''s'']" by (simp add: sample_driver_def path_of_def)
  have n: "list_all plain_name [''s'']" by (simp add: plain_name_def)
  show "abs_path (drv_store sample_driver)" using abs_path_of_plain [OF n] by (simp add: s)
  show "comps (drv_store sample_driver) = [''s'']" using n by (simp add: s)
  show "volume_path sample_driver ''a'' = ''/s/volumes/a''" "volume_path sample_driver ''b'' = ''/s/volumes/b''"
    by code_simp+
qed

lemma sample_names:
  "image_names sample_driver sample_store = {''i''}" "volume_names sample_driver sample_store = {''a'', ''b''}"
  "used_by_images sample_driver sample_store = {''a''}"
proof -
  show i: "image_names sample_driver sample_store = {''i''}" "volume_names sample_driver sample_store = {''a'', ''b''}"
    unfolding image_names_def volume_names_def
    by (auto simp: sample_paths sample_nodes ImageDirName_def VolumesDirName_def)
  have "recorded (dependencies_dir (drv_store sample_driver)) sample_store (image_ref ''i'') = Some [''a'']"
    by code_simp
  then show "used_by_images sample_driver sample_store = {''a''}"
    by (auto simp: used_by_images_def i)
qed

lemma sample_collectable: "collectable_store sample_driver sample_store"
proof -
  have held: "held_names sample_driver {''a''} sample_store = {''a'', ''X''}"
    by (auto simp: held_names_def sample_paths sample_nodes LinksDirName_def)
  have plain: "plain_name ''a''" "plain_name ''b''" by (simp_all add: plain_name_def)
  have "\<exists>x. plain_name x \<and> ''/s/volumes/a'' = volume_path sample_driver x"
    "\<exists>x. plain_name x \<and> ''/s/volumes/b'' = volume_path sample_driver x"
    using plain sample_paths(3,4) by metis+
  then have "link_ok sample_driver (nodes sample_store [''s'', ''l'', n])" for n
    by (simp add: sample_nodes safe_name_def)
  then have ok: "store_ok sample_driver sample_store"
    by (auto simp: store_ok_def sample_paths sample_nodes LinksDirName_def VolumesDirName_def plain split: if_splits)
  have "short_ids_apart sample_driver {''a''} sample_store"
    by (auto simp: short_ids_apart_def held is_gc_def sample_paths sample_nodes LinksDirName_def)
  moreover have "separate sample_driver {''a'', ''X''} sample_store"
    by (auto simp: separate_def sample_paths sample_nodes LinksDirName_def split: if_splits)
  ultimately have "guarded sample_driver {''a''} sample_store sample_store"
    using ok by (simp add: guarded_def held)
  moreover have "(case nodes sample_store (comps (dependencies_dir (drv_store sample_driver)) @ [dep_name (image_ref ''i'')])
      of Some (Symlink t) \<Rightarrow> False | _ \<Rightarrow> True)" by code_simp
  then have "dependency_files_regular sample_driver sample_store"
    unfolding dependency_files_regular_def sample_names by (auto split: option.splits node.splits)
  moreover have "renames_cleanly sample_driver ''a''" "renames_cleanly sample_driver ''b''"
    by code_simp+
  ultimately show ?thesis by (simp add: collectable_store_def sample_names)
qed

theorem UnusedVolumes_exact_witness:
  "set [''b''] = {x \<in> volume_names sample_driver sample_store. \<not> is_gc x \<and>
     x \<notin> used_by_images sample_driver sample_store}"
proof -
  have "UnusedVolumes (store_gc sample_driver) sample_store = (Inr [''b''], sample_store)" by code_simp
  with UnusedVolumes_exact [of sample_driver sample_store "[''b'']" sample_store] sample_collectable sample_paths
  show ?thesis by (simp add: collectable_store_def)
qed

text \<open>C1: a clean of a store, whatever its threshold and whichever system calls fail in it, leaves
  alone all that the images of the store need of their volumes: the directories with all
  their contents, the link files, the symbolic links they name and the files with the sizes.
  The store's other invariants hold afterwards as well.\<close>

theorem Clean_spares_used_volumes:
  assumes "collectable_store d w" and "Clean (store_cleaner d) threshold w = (r, w')"
  shows "frozen (held_paths d (used_by_images d w) w) w w' \<and> store_ok d w'"
proof -
  let ?R = "guarded d (used_by_images d w) w"
  have run: "hoare (frozen (outside_locks d) w) (run (store_cleaner d) threshold) (\<lambda>_. ?R) (\<lambda>_. ?R)"
    by (rule hoare_run [OF assms(1)])
  have "?R (snd (run (store_cleaner d) threshold (w\<lparr>faults := fs\<rparr>)))" for fs
    using run [unfolded hoare_def, THEN spec, of "w\<lparr>faults := fs\<rparr>"] by (auto split: prod.splits sum.splits)
  moreover have "?R (w\<lparr>faults := fs\<rparr>)" for fs
    using assms(1) on_treeD [OF on_tree_guarded] by (auto simp: collectable_store_def)
  ultimately have "?R w'"
    using assms(2) unfolding Clean_def by (elim faulty_cases) (auto split: if_splits, metis snd_conv)
  then show ?thesis by (simp add: guarded_def)
qed

theorem Clean_spares_used_volumes_witness:
  "frozen (held_paths sample_driver {''a''} sample_store) sample_store
     (snd (Clean (store_cleaner sample_driver) 0 sample_store)) \<and>
   nodes sample_store [''s'', ''volumes'', ''b''] \<noteq> None \<and>
   nodes (snd (Clean (store_cleaner sample_driver) 0 sample_store)) [''s'', ''volumes'', ''b''] = None"
proof -
  have "frozen (held_paths sample_driver {''a''} sample_store) sample_store
      (snd (Clean (store_cleaner sample_driver) 0 sample_store))"
    using Clean_spares_used_volumes [OF sample_collectable prod.collapse [symmetric], of 0]
    by (simp add: sample_names)
  moreover have "nodes (snd (Clean (store_cleaner sample_driver) 0 sample_store)) [''s'', ''volumes'', ''b''] = None"
    by code_simp
  ultimately show ?thesis by (simp add: sample_nodes)
qed

end
