(* ===== verification/Volume_Operations.thy ===== *)
theory Volume_Operations
  imports Collection
begin

text \<open>
  The volume operations of the overlay driver: they keep the store in order (\<open>store_ok\<close>), what
  a new volume consists of, and the collection as an operation on the set of volume names.
\<close>

section \<open>The operations keep the store in order\<close>

text \<open>The short ids of the generator are names that may stand in a path.\<close>

definition short_ids_plain :: "driver \<Rightarrow> bool" where
  "short_ids_plain d \<longleftrightarrow> (\<forall>n i. shortid d n = Inr i \<longrightarrow> i \<noteq> [] \<and> hd i \<noteq> CHR ''.'' \<and> CHR ''/'' \<notin> set i)"

definition starts_plain :: "string \<Rightarrow> bool" where
  "starts_plain s \<longleftrightarrow> s \<noteq> [] \<and> hd s \<noteq> CHR ''.'' \<and> CHR ''/'' \<notin> set s"

lemma starts_plain_names: "starts_plain s \<Longrightarrow> plain_name s" "starts_plain s \<Longrightarrow> safe_name (take k s)"
  by (cases s; cases k; auto simp: starts_plain_def plain_name_def safe_name_def dest: in_set_takeD)+

lemma itoa_no_sep: "CHR ''/'' \<notin> set (itoa n)"
  using plain_name_digits [of "nat (- n)"] plain_name_digits [of "nat n"]
  by (auto simp: itoa_def plain_name_def)

lemma keeps_generateShortishID: "on_tree I \<Longrightarrow> keeps I (generateShortishID d)"
  unfolding generateShortishID_def by (intro keeps_intro keepsI) (auto simp: getpid_def)

lemma hoare_generateShortishID:
  assumes "short_ids_plain d" and "on_tree I"
  shows "hoare I (generateShortishID d) (\<lambda>s w. I w \<and> starts_plain s) (\<lambda>_. I)"
proof (rule hoareI)
  fix w s w'
  assume "I w" and run: "generateShortishID d w = (Inr s, w')"
  obtain i n p where "s = i @ itoa p" "shortid d n = Inr i"
    using run unfolding generateShortishID_def by (auto elim!: checked_throw_InrE split: sum.splits)
  then have "starts_plain s"
    using assms(1) itoa_no_sep by (auto simp: short_ids_plain_def starts_plain_def)
  with \<open>I w\<close> run keeps_generateShortishID [OF assms(2)] show "I w' \<and> starts_plain s"
    by (auto dest: keepsD)
next
  fix w e w'
  assume "I w" and "generateShortishID d w = (Inl e, w')"
  with keeps_generateShortishID [OF assms(2)] show "I w'" by (auto dest: keepsD)
qed

lemma os_write_file_nodes:
  assumes "os_write_file p s perm w = (r, w')"
  shows "nodes w' = nodes w \<or> (\<exists>a k. nodes w' = (nodes w)(at_path w p \<mapsto> Regular a (take k s)))"
proof -
  obtain r1 w1 where o: "open_create True p perm w = (r1, w1)" by (cases "open_create True p perm w")
  note c = open_create_cases [OF o]
  show ?thesis
  proof (cases r1)
    case (Inl e)
    with assms o c show ?thesis by (auto simp: os_write_file_def checked_def)
  next
    case (Inr u)
    with c obtain a where n1: "nodes w1 = (nodes w)(at_path w p \<mapsto> Regular a [])" "at_path w1 p = at_path w p"
      by (auto simp: at_path_def)
    from assms o Inr have wr: "write_all p s w1 = (r, w')" by (simp add: os_write_file_def)
    have all: "Regular a s = Regular a (take (length s) s)" by simp
    from write_all_cases [OF wr] n1 show ?thesis
      by (auto simp: append_to_def) (metis all)+
  qed
qed

lemma keeps_ok_put_volume:
  assumes "plain_name i"
    and "\<And>w r w'. store_ok d w \<Longrightarrow> m w = (r, w') \<Longrightarrow> nodes w' = nodes w \<or>
      (\<exists>a. nodes w' = (nodes w)(comps (drv_store d) @ [VolumesDirName, i] \<mapsto> Dir a))"
  shows "keeps (store_ok d) m"
proof (rule keepsI)
  fix w r w'
  assume ok: "store_ok d w" and "m w = (r, w')"
  from assms(2) [OF this] show "store_ok d w'"
    using assms(1) by (intro store_okI [OF ok]) (auto split: if_splits)
qed

lemma keeps_ok_new_volume:
  assumes i: "plain_name i"
  shows "keeps (store_ok d) (os_mkdir (volume_path d i) perm)"
    and "keeps (store_ok d) (os_chmod (volume_path d i) m)"
proof -
  show "keeps (store_ok d) (os_mkdir (volume_path d i) perm)"
  proof (rule keeps_ok_put_volume [OF i])
    fix w r w'
    assume ok: "store_ok d w" and run: "os_mkdir (volume_path d i) perm w = (r, w')"
    show "nodes w' = nodes w \<or> (\<exists>a. nodes w' = (nodes w)(comps (drv_store d) @ [VolumesDirName, i] \<mapsto> Dir a))"
      using os_mkdir_cases [OF run] volume_path_facts [OF store_ok_abs [OF ok] i] by auto
  qed
  show "keeps (store_ok d) (os_chmod (volume_path d i) m)"
  proof (rule keeps_ok_put_volume [OF i])
    fix w r w'
    assume ok: "store_ok d w" and run: "os_chmod (volume_path d i) m w = (r, w')"
    have "is_dir_node n" if "nodes w (comps (drv_store d) @ [VolumesDirName, i]) = Some n" for n
      using ok that by (auto simp: store_ok_def)
    moreover have "at_path w (volume_path d i) = comps (drv_store d) @ [VolumesDirName, i]"
      using volume_path_facts [OF store_ok_abs [OF ok] i] by simp
    ultimately show "nodes w' = nodes w \<or> (\<exists>a. nodes w' = (nodes w)(comps (drv_store d) @ [VolumesDirName, i] \<mapsto> Dir a))"
      using change_attr_cases [OF run [unfolded os_chmod_def]] by (force simp: is_dir_node_iff)
  qed
qed

lemma keeps_ok_write_link:
  assumes "plain_name i" and "starts_plain s"
  shows "keeps (store_ok d) (os_write_file (link_path d i) s perm)"
proof (rule keepsI)
  fix w r w'
  assume ok: "store_ok d w" and run: "os_write_file (link_path d i) s perm w = (r, w')"
  from os_write_file_nodes [OF run] link_path_plain [OF store_ok_abs [OF ok] assms(1)] starts_plain_names(2) [OF assms(2)]
  show "store_ok d w'" by (intro store_okI [OF ok]) (auto split: if_splits)
qed

lemma plain_safe: "plain_name s \<Longrightarrow> safe_name s"
  by (simp add: plain_name_def safe_name_def)

lemma keeps_ok_CreateVolume:
  assumes "short_ids_plain d" and "plain_name i"
  shows "keeps (store_ok d) (CreateVolume d parent i)"
  unfolding CreateVolume_def
  by (rule keeps_checked [OF keeps_ok_new_volume(1) [OF assms(2)] keeps_wrapping],
      rule keeps_checked_value [OF hoare_generateShortishID [OF assms(1) on_tree_store_ok] keeps_wrapping])
    (intro keeps_intro keeps_ok_new_volume keeps_ok_write_link assms; simp add: starts_plain_names plain_safe)

lemma hoare_ok_read_link:
  "plain_name i \<Longrightarrow> hoare (store_ok d) (os_read_file (link_path d i)) (\<lambda>c w. store_ok d w \<and> safe_name c) (\<lambda>_. store_ok d)"
  by (rule hoare_read_link) simp_all

lemma keeps_ok_DestroyVolume:
  assumes i: "plain_name i"
  shows "keeps (store_ok d) (DestroyVolume d i)"
proof -
  have "keeps (store_ok d) (removeVolumeLink d (link_path d i))"
    unfolding removeVolumeLink_def Let_def
    by (rule keeps_checked_value [OF hoare_ok_read_link [OF i]])
      (intro keeps_intro on_tree_store_ok plain_safe [OF i]; simp)+
  then show ?thesis unfolding DestroyVolume_def by (intro keeps_intro i)
qed

lemma keeps_ok_MoveVolume:
  assumes "plain_name i" and "plain_name j"
  shows "keeps (store_ok d) (MoveVolume d (volume_path d i) (volume_path d j))"
proof (rule keeps_ok_abs)
  assume abs: "abs_path (drv_store d)"
  show ?thesis
    unfolding MoveVolume_def Let_def volume_path_base [OF abs assms(1)] volume_path_base [OF abs assms(2)]
    by (rule keeps_missing(1) [OF keeps_on_tree(1) [OF on_tree_store_ok] keeps_wrapping],
        rule keeps_checked_value [OF hoare_ok_read_link [OF assms(1)] keeps_wrapping])
      (intro keeps_intro assms; simp)
qed

lemma keeps_ok_MarkVolumeArtifacts:
  assumes i: "plain_name i" and clean: "renames_cleanly d i"
  shows "keeps (store_ok d) (MarkVolumeArtifacts d i)"
proof -
  have path: "hoare (store_ok d) (VolumePath d i) (\<lambda>p w. store_ok d w \<and> p = volume_path d i) (\<lambda>_. store_ok d)"
    unfolding VolumePath_def
    by (rule hoare_checked [where R = "\<lambda>_. store_ok d" and F = "\<lambda>_. store_ok d"])
      (use keeps_on_tree(1) [OF on_tree_store_ok] in \<open>auto simp: keeps_def\<close>)
  show ?thesis
    unfolding MarkVolumeArtifacts_def Let_def moveVolumeMeta_def
    by (rule keeps_checked_value [OF path keeps_wrapping])
      (use clean i keeps_ok_MoveVolume [OF i plain_gc_name [OF i]] in
        \<open>auto simp: renames_cleanly_def intro!: keeps_intro\<close>)
qed



section \<open>What the operations do\<close>

lemma generateShortishID_Inr:
  assumes "generateShortishID d w = (Inr s, w')"
  shows "nodes w' = nodes w" and "short_ids_plain d \<Longrightarrow> starts_plain s"
proof -
  have "keeps (\<lambda>v. nodes v = nodes w) (generateShortishID d)"
    by (rule keeps_generateShortishID) (simp add: on_tree_def)
  with assms show "nodes w' = nodes w" by (auto dest: keepsD)
  assume "short_ids_plain d"
  from hoare_generateShortishID [OF this, of "\<lambda>_. True"] assms show "starts_plain s"
    by (auto simp: on_tree_def dest: hoare_Inr)
qed

lemma CreateVolume_runs:
  assumes "CreateVolume d parent i w = (Inr p, w')"
  shows "\<exists>w1 s w2 w3 w4. os_mkdir (volume_path d i) perm_0755 w = (Inr (), w1) \<and>
    generateShortishID d w1 = (Inr s, w2) \<and>
    os_symlink (volume_path d i) (link_path d s) w2 = (Inr (), w3) \<and>
    os_write_file (link_path d i) s perm_0644 w3 = (Inr (), w4) \<and>
    os_chmod (volume_path d i) perm_0755 w4 = (Inr (), w') \<and> p = volume_path d i"
  using assms unfolding CreateVolume_def by (auto elim!: checked_wrap_InrE)

lemma CreateVolume_facts:
  assumes abs: "abs_path (drv_store d)" and ids: "short_ids_plain d" and i: "plain_name i"
    and run: "CreateVolume d parent i w = (Inr p, w')"
  obtains s a b where "p = volume_path d i" and "starts_plain s" and "s \<noteq> i"
    and "nodes w (comps (drv_store d) @ [VolumesDirName, i]) = None"
    and "nodes w (comps (drv_store d) @ [LinksDirName, s]) = None"
    and "nodes w' = (nodes w)(comps (drv_store d) @ [VolumesDirName, i] \<mapsto> Dir a,
      comps (drv_store d) @ [LinksDirName, s] \<mapsto> Symlink (volume_path d i),
      comps (drv_store d) @ [LinksDirName, i] \<mapsto> Regular b s)"
    and "mode a = perm_0755"
proof -
  let ?v = "comps (drv_store d) @ [VolumesDirName, i]" and ?l = "\<lambda>n. comps (drv_store d) @ [LinksDirName, n]"
  from CreateVolume_runs [OF run] obtain w1 s w2 w3 w4 where m: "os_mkdir (volume_path d i) perm_0755 w = (Inr (), w1)"
    and g: "generateShortishID d w1 = (Inr s, w2)"
    and sy: "os_symlink (volume_path d i) (link_path d s) w2 = (Inr (), w3)"
    and wr: "os_write_file (link_path d i) s perm_0644 w3 = (Inr (), w4)"
    and ch: "os_chmod (volume_path d i) perm_0755 w4 = (Inr (), w')"
    and fin: "p = volume_path d i" by blast
  note vp = volume_path_facts [OF abs i] and lp = link_path_plain [OF abs i]
  have s: "starts_plain s" using generateShortishID_Inr(2) [OF g ids] .
  note sp = link_path_plain [OF abs starts_plain_names(1) [OF s]]
  obtain a0 where n1: "nodes w ?v = None" "nodes w1 = (nodes w)(?v \<mapsto> Dir a0)"
    using os_mkdir_cases [OF m] vp by auto
  have n2: "nodes w2 = nodes w1" using generateShortishID_Inr(1) [OF g] .
  have n3: "nodes w2 (?l s) = None" "nodes w3 = (nodes w2)(?l s \<mapsto> Symlink (volume_path d i))"
    using os_symlink_cases [OF sy] sp by auto
  obtain b where n4: "nodes w4 = (nodes w3)(?l i \<mapsto> Regular b s)"
    using os_write_file_Inr [OF wr] lp by auto
  have ne: "s \<noteq> i"
  proof
    assume "s = i"
    then have link: "nodes w3 (?l i) = Some (Symlink (volume_path d i))" using n3 by simp
    obtain w6 where o: "open_create True (link_path d i) perm_0644 w3 = (Inr (), w6)"
      using wr by (auto simp: os_write_file_def elim!: checked_throw_InrE)
    show False using open_create_cases [OF o] link lp by simp
  qed
  have d4: "nodes w4 ?v = Some (Dir a0)" using n1 n2 n3 n4 by simp
  then have n5: "nodes w' = (nodes w4)(?v \<mapsto> Dir (a0\<lparr>mode := perm_0755\<rparr>))"
    using change_attr_cases [OF ch [unfolded os_chmod_def]] vp by auto
  have "nodes w' = (nodes w)(?v \<mapsto> Dir (a0\<lparr>mode := perm_0755\<rparr>), ?l s \<mapsto> Symlink (volume_path d i), ?l i \<mapsto> Regular b s)"
    by (auto simp: n5 n4 n3 n2 n1 fun_eq_iff)
  then show thesis using that [of s "a0\<lparr>mode := perm_0755\<rparr>" b] fin s ne n1 n2 n3 by auto
qed

text \<open>C12: a volume that \<open>CreateVolume\<close> returns is new and complete. Its directory, which was not
  there before, has the mode 0755; the link file under its name holds a short id, and the
  symbolic link under the short id, which was free, leads to the directory. No other file
  has changed.\<close>

theorem CreateVolume_complete:
  assumes "abs_path (drv_store d)" and "short_ids_plain d" and "plain_name i"
    and "CreateVolume d parent i w = (Inr p, w')"
  shows "p = volume_path d i \<and> i \<notin> volume_names d w \<and> volume_names d w' = insert i (volume_names d w) \<and>
    (\<exists>a. nodes w' (comps (drv_store d) @ [VolumesDirName, i]) = Some (Dir a) \<and> mode a = perm_0755) \<and>
    (\<exists>s b. nodes w' (comps (drv_store d) @ [LinksDirName, i]) = Some (Regular b s) \<and>
       nodes w (comps (drv_store d) @ [LinksDirName, s]) = None \<and>
       nodes w' (comps (drv_store d) @ [LinksDirName, s]) = Some (Symlink (volume_path d i)) \<and>
       (\<forall>q. q \<notin> {comps (drv_store d) @ [VolumesDirName, i], comps (drv_store d) @ [LinksDirName, i],
             comps (drv_store d) @ [LinksDirName, s]} \<longrightarrow> nodes w' q = nodes w q))"
proof (rule CreateVolume_facts [OF assms], goal_cases)
  case (1 s a b)
  have "volume_names d w' = insert i (volume_names d w)" unfolding volume_names_def 1(6) by auto
  with 1 show ?case by (auto simp: volume_names_def)
qed

theorem CreateVolume_complete_witness:
  "volume_names sample_driver (snd (CreateVolume sample_driver [] ''c'' sample_store)) = {''a'', ''b'', ''c''}"
proof -
  have "fst (CreateVolume sample_driver [] ''c'' sample_store) = Inr ''/s/volumes/c''" by code_simp
  then have run: "CreateVolume sample_driver [] ''c'' sample_store =
      (Inr ''/s/volumes/c'', snd (CreateVolume sample_driver [] ''c'' sample_store))" by (metis prod.collapse)
  have ids: "short_ids_plain sample_driver" "plain_name ''c''"
    by (simp_all add: short_ids_plain_def sample_driver_def plain_name_def)
  from CreateVolume_complete [OF sample_paths(1) ids run] show ?thesis by (auto simp: sample_names)
qed

section \<open>Collection as an operation on the set of volumes\<close>

definition names_are :: "driver \<Rightarrow> string set \<Rightarrow> world \<Rightarrow> bool" where
  "names_are d V w \<longleftrightarrow> store_ok d w \<and> volume_names d w = V"

lemma on_tree_names_are [simp]: "on_tree (names_are d V)"
  unfolding on_tree_def names_are_def by (metis names_cong(2) on_treeD [OF on_tree_store_ok])

lemma keeps_names_are:
  assumes "keeps (store_ok d) m" and "abs_path (drv_store d) \<Longrightarrow> (\<And>v. keeps (frozen (in_volumes d) v) m)"
  shows "keeps (names_are d V) m"
proof (rule keepsI)
  fix w r w'
  assume n: "names_are d V w" and run: "m w = (r, w')"
  then have ok: "store_ok d w" by (simp add: names_are_def)
  have "frozen (in_volumes d) w w'"
    using keepsD [OF assms(2) [OF store_ok_abs [OF ok]] frozen_refl run] .
  then have "volume_names d w' = volume_names d w"
    by (simp add: frozen_def in_volumes_def volume_names_def)
  with n run assms(1) show "names_are d V w'" by (auto simp: names_are_def dest: keepsD)
qed

lemma misses_volumes:
  assumes "abs_path (drv_store d)"
  shows "safe_name c \<Longrightarrow> misses (in_volumes d) (link_path d c)"
    and "plain_name x \<Longrightarrow> misses_below (in_volumes d) (volumeMetaFilePath d x)"
  using link_path_facts [OF assms, of c] meta_path_facts [OF assms, of x]
  by (auto simp: misses_def misses_below_def in_volumes_def)

lemma hoare_names_read_link:
  assumes "plain_name i"
  shows "hoare (names_are d V) (os_read_file (link_path d i)) (\<lambda>c w. names_are d V w \<and> safe_name c) (\<lambda>_. names_are d V)"
  by (rule hoare_read_link [OF assms]) (simp_all add: names_are_def)

lemma keeps_names_removeVolumeLink:
  assumes i: "plain_name i"
  shows "keeps (names_are d V) (removeVolumeLink d (link_path d i))"
proof -
  have rm: "keeps (names_are d V) (os_remove (link_path d c))" if "safe_name c" for c
    using that misses_volumes(1) by (intro keeps_names_are keeps_intro) auto
  show ?thesis
    unfolding removeVolumeLink_def Let_def
    by (rule keeps_checked_value [OF hoare_names_read_link [OF i]])
      (intro keeps_intro rm plain_safe [OF i]; simp)+
qed

lemma hoare_names_remove_all:
  assumes i: "plain_name i"
  shows "hoare (names_are d V) (os_remove_all (volume_path d i)) (\<lambda>_. names_are d (V - {i}))
    (\<lambda>_ w. \<exists>V'. V' \<subseteq> V \<and> names_are d V' w)"
proof (rule hoareI)
  fix w x w'
  assume n: "names_are d V w" and run: "os_remove_all (volume_path d i) w = (Inr x, w')"
  have ok: "store_ok d w" using n by (simp add: names_are_def)
  note vp = volume_path_facts [OF store_ok_abs [OF ok] i]
  have "volume_names d w' = volume_names d w - {i}"
    using os_remove_all_cases [OF run] vp by (auto simp: volume_names_def split: if_splits)
  with n keeps_ok_remove_all [OF i] run show "names_are d (V - {i}) w'" by (auto simp: names_are_def dest: keepsD)
next
  fix w e w'
  assume n: "names_are d V w" and run: "os_remove_all (volume_path d i) w = (Inl e, w')"
  have "volume_names d w' \<subseteq> volume_names d w"
    using os_remove_all_cases [OF run] by (auto simp: volume_names_def split: if_splits)
  with n keeps_ok_remove_all [OF i] run show "\<exists>V'. V' \<subseteq> V \<and> names_are d V' w'"
    by (auto simp: names_are_def dest: keepsD)
qed

lemma hoare_names_DestroyVolume:
  assumes i: "plain_name i"
  shows "hoare (names_are d V) (DestroyVolume d i) (\<lambda>_. names_are d (V - {i}))
    (\<lambda>_ w. \<exists>V'. V' \<subseteq> V \<and> names_are d V' w)"
proof -
  have meta: "keeps (names_are d V) (os_remove (volumeMetaFilePath d i))"
    using misses_volumes(2) [OF _ i] misses_below_misses by (intro keeps_names_are keeps_intro i) auto
  have rest: "hoare (names_are d V) (checked (os_remove_all (volume_path d i))
      (wrapping (''destroying volume ('' @ i @ '')'')) ret) (\<lambda>_. names_are d (V - {i}))
    (\<lambda>_ w. \<exists>V'. V' \<subseteq> V \<and> names_are d V' w)"
    by (rule hoare_checked [OF hoare_names_remove_all [OF i]]) auto
  show ?thesis
    unfolding DestroyVolume_def logged_def
    by (rule hoare_checked [OF keeps_names_removeVolumeLink [OF i, unfolded keeps_def]],
        rule hoare_checked [OF meta [unfolded keeps_def]]) (use rest in auto)
qed

lemma hoare_destroy_all:
  assumes "list_all plain_name vs"
  shows "hoare (names_are d V) (destroy_all (DestroyVolume d) vs e)
    (\<lambda>r w. r = None \<longrightarrow> e = None \<and> names_are d (V - {x \<in> set vs. is_gc x}) w) (\<lambda>_ _. True)"
  using assms
proof (induction vs arbitrary: V e)
  case (Cons x vs)
  have failing: "hoare (\<lambda>w. \<exists>V'. V' \<subseteq> V \<and> names_are d V' w) (destroy_all (DestroyVolume d) vs (Some m))
      (\<lambda>r w. r = None \<longrightarrow> e = None \<and> names_are d (V - {y \<in> set (x # vs). is_gc y}) w) (\<lambda>_ _. True)" for m
    unfolding hoare_def
  proof (intro allI impI)
    fix w
    assume "\<exists>V'. V' \<subseteq> V \<and> names_are d V' w"
    then obtain V' where "names_are d V' w" by blast
    with Cons.IH [of V' "Some m"] Cons.prems
    show "case destroy_all (DestroyVolume d) vs (Some m) w of (Inr r, w') \<Rightarrow>
          r = None \<longrightarrow> e = None \<and> names_are d (V - {y \<in> set (x # vs). is_gc y}) w' | (Inl e, w') \<Rightarrow> True"
      by (auto simp: hoare_def split: prod.splits sum.splits)
  qed
  show ?case
  proof (cases "is_gc x")
    case True
    have "V - {x} - {y \<in> set vs. is_gc y} = V - {y \<in> set (x # vs). is_gc y}" using True by auto
    with Cons.IH [of "V - {x}" e] Cons.prems
    have going: "hoare (names_are d (V - {x})) (destroy_all (DestroyVolume d) vs e)
      (\<lambda>r w. r = None \<longrightarrow> e = None \<and> names_are d (V - {y \<in> set (x # vs). is_gc y}) w) (\<lambda>_ _. True)" by simp
    have "hoare (names_are d V) (checked (DestroyVolume d x)
        (\<lambda>_. destroy_all (DestroyVolume d) vs (Some (Msg ''destroying volumes failed'')))
        (\<lambda>_. destroy_all (DestroyVolume d) vs e))
      (\<lambda>r w. r = None \<longrightarrow> e = None \<and> names_are d (V - {y \<in> set (x # vs). is_gc y}) w) (\<lambda>_ _. True)"
      by (rule hoare_checked [OF hoare_names_DestroyVolume]) (use Cons.prems going failing in auto)
    with True show ?thesis by simp
  next
    case False
    then have "{y \<in> set (x # vs). is_gc y} = {y \<in> set vs. is_gc y}" by auto
    with False Cons.IH [of V e] Cons.prems show ?thesis by simp
  qed
qed simp

text \<open>What a collection does to the set of the volumes: it takes away the marked ones.\<close>

definition sweep :: "string set \<Rightarrow> string set" where
  "sweep V = {x \<in> V. \<not> is_gc x}"

text \<open>C11: \<open>Collect\<close> refines the sweep of the set of volumes: when it reports success, exactly the
  volumes that were not marked for collection are left, and the store is in order.\<close>

theorem Collect_refines_sweep:
  assumes "store_ok d w" and "Collect (store_gc d) w = (Inr (), w')"
  shows "volume_names d w' = sweep (volume_names d w) \<and> store_ok d w'"
proof -
  from assms(2) obtain vs w1 where v: "Volumes d w = (Inr vs, w1)"
    and r: "destroy_all (DestroyVolume d) (filter is_gc vs) None w1 = (Inr None, w')"
    unfolding Collect_def collectVolumes_def gcVolumes_def store_gc_def overlay_volumes_def
    by (auto elim!: checked_throw_InrE checked_wrap_InrE split: option.splits)
  note l = Volumes_Inr [OF store_ok_abs [OF assms(1)] v]
  have "names_are d (volume_names d w) w1"
    using assms(1) on_treeD [OF on_tree_store_ok assms(1) l(1)] names_cong(2) [OF l(1)] by (simp add: names_are_def)
  moreover have "list_all plain_name (filter is_gc vs)"
    using assms(1) l(3) by (auto simp: list_all_iff volume_names_def store_ok_def)
  ultimately have "names_are d (volume_names d w - {x \<in> set (filter is_gc vs). is_gc x}) w'"
    using hoare_Inr [OF hoare_destroy_all _ r] by blast
  then show ?thesis using l(3) by (auto simp: names_are_def sweep_def)
qed

definition marked_store :: world where
  "marked_store = snd (MarkVolumeArtifacts sample_driver ''b'' sample_store)"

theorem Collect_refines_sweep_witness:
  "volume_names sample_driver (snd (Collect (store_gc sample_driver) marked_store)) =
     sweep (volume_names sample_driver marked_store)"
proof -
  have "store_ok sample_driver sample_store" "renames_cleanly sample_driver ''b''" "plain_name ''b''"
    using sample_collectable by (auto simp: collectable_store_def guarded_def sample_names plain_name_def)
  then have "store_ok sample_driver marked_store"
    unfolding marked_store_def using keeps_snd [OF keeps_ok_MarkVolumeArtifacts] by simp
  moreover have "fst (Collect (store_gc sample_driver) marked_store) = Inr ()" by code_simp
  then have "Collect (store_gc sample_driver) marked_store =
      (Inr (), snd (Collect (store_gc sample_driver) marked_store))" by (metis prod.collapse)
  ultimately show ?thesis using Collect_refines_sweep by blast
qed

end
