(* ===== verification/Namespacer.thy ===== *)
theory Namespacer
  imports Groot_Types Json "HOL-Library.Multiset"
begin

text \<open>
  \<open>groot/store_namespacer.go\<close>: the id mappings a store was created with, kept in
  \<open>meta/namespace.json\<close>. A store is only used again with the same mappings. Slices decoded
  from a missing field or \<open>null\<close> are nil, which \<open>reflect.DeepEqual\<close> tells from an empty one;
  they are \<open>None\<close> here.
\<close>

definition NamespaceFilename :: string where "NamespaceFilename = ''namespace.json''"

record mappings =
  uid_maps :: "string list option"
  gid_maps :: "string list option"

definition namespaceFilePath :: "string \<Rightarrow> string" where
  "namespaceFilePath storePath = filepath_join [storePath, MetaDirName, NamespaceFilename]"

definition format_mapping :: "IDMappingSpec \<Rightarrow> string" where
  "format_mapping m = itoa (NamespaceID m) @ '':'' @ itoa (HostID m) @ '':'' @ itoa (map_size m)"

definition normalizeMappings :: "IDMappingSpec list \<Rightarrow> string list" where
  "normalizeMappings ms = sort (map format_mapping ms)"

definition scan_mapping :: "string \<Rightarrow> IDMappingSpec option" where
  "scan_mapping v =
     (case scan_int v of None \<Rightarrow> None | Some (ns, s1) \<Rightarrow>
      (case scan_lit CHR '':'' s1 of None \<Rightarrow> None | Some s2 \<Rightarrow>
      (case scan_int s2 of None \<Rightarrow> None | Some (host, s3) \<Rightarrow>
      (case scan_lit CHR '':'' s3 of None \<Rightarrow> None | Some s4 \<Rightarrow>
      (case scan_int s4 of None \<Rightarrow> None | Some (n, _) \<Rightarrow>
         Some \<lparr>HostID = host, NamespaceID = ns, map_size = n\<rparr>)))))"

fun parseIDMappings :: "string list \<Rightarrow> goerr + IDMappingSpec list" where
  "parseIDMappings [] = Inr []"
| "parseIDMappings (v # vs) =
     (case scan_mapping v of
        None \<Rightarrow> Inl (Msg ''input does not match format'')
      | Some m \<Rightarrow> (case parseIDMappings vs of Inl e \<Rightarrow> Inl e | Inr ms \<Rightarrow> Inr (m # ms)))"

definition encode_mappings :: "mappings \<Rightarrow> json" where
  "encode_mappings m =
     (let enc = (\<lambda>x. case x of None \<Rightarrow> JNull | Some ss \<Rightarrow> JArr (map JStr ss)) in
      JObj [(''uid-mappings'', enc (uid_maps m)), (''gid-mappings'', enc (gid_maps m))])"

fun as_slice :: "json \<Rightarrow> string list option option" where
  "as_slice JNull = Some None"
| "as_slice v = map_option Some (as_strs v)"

definition decode_mappings :: "json \<Rightarrow> mappings option" where
  "decode_mappings v =
     (case as_obj v of None \<Rightarrow> None | Some kvs \<Rightarrow>
      (case (as_slice (json_field ''uid-mappings'' kvs), as_slice (json_field ''gid-mappings'' kvs)) of
         (Some u, Some g) \<Rightarrow> Some \<lparr>uid_maps = u, gid_maps = g\<rparr>
       | _ \<Rightarrow> None))"

text \<open>\<open>json.NewEncoder(f).Encode\<close> ends the text with a newline.\<close>

definition write_mappings :: "string \<Rightarrow> IDMappingSpec list \<Rightarrow> IDMappingSpec list \<Rightarrow> unit sys" where
  "write_mappings store uids gids =
     checked (os_create (namespaceFilePath store)) (wrapping ''creating namespace file'') (\<lambda>_.
     let namespace = \<lparr>uid_maps = Some (normalizeMappings uids), gid_maps = Some (normalizeMappings gids)\<rparr> in
     checked (os_chmod (namespaceFilePath store) perm_0755) (wrapping ''failed to chmod namespace file'') (\<lambda>_.
     write_all (namespaceFilePath store) (print_json (encode_mappings namespace) @ [CHR 0x0A])))"

definition validateNamespace :: "string \<Rightarrow> IDMappingSpec list \<Rightarrow> IDMappingSpec list \<Rightarrow> unit sys" where
  "validateNamespace p uids gids =
     checked (os_open p) (wrapping ''opening namespace file'') (\<lambda>_.
     checked (os_read_file p) (wrapping (''reading namespace file '' @ p)) (\<lambda>data.
     (case Option.bind (json_decode data) decode_mappings of
        None \<Rightarrow> throw (Wrapped (''reading namespace file '' @ p) (Msg ''invalid JSON''))
      | Some namespace \<Rightarrow>
          if uid_maps namespace \<noteq> Some (normalizeMappings uids) then
            throw (Msg ''provided UID mappings do not match those already configured in the store'')
          else if gid_maps namespace \<noteq> Some (normalizeMappings gids) then
            throw (Msg ''provided GID mappings do not match those already configured in the store'')
          else ret ())))"

definition ApplyMappings :: "string \<Rightarrow> IDMappingSpec list \<Rightarrow> IDMappingSpec list \<Rightarrow> unit sys" where
  "ApplyMappings store uids gids =
     observed (os_stat (namespaceFilePath store)) (\<lambda>r.
       (case r of
          Inl e \<Rightarrow> if is_not_exist e then write_mappings store uids gids
                   else validateNamespace (namespaceFilePath store) uids gids
        | Inr _ \<Rightarrow> validateNamespace (namespaceFilePath store) uids gids))"

definition Read :: "string \<Rightarrow> IDMappings sys" where
  "Read store =
     checked (os_read_file (namespaceFilePath store)) (wrapping ''reading namespace file'') (\<lambda>data.
     (case Option.bind (json_unmarshal data) decode_mappings of
        None \<Rightarrow> throw (Wrapped ''invalid namespace file'' (Msg ''invalid JSON''))
      | Some m \<Rightarrow>
          (case parseIDMappings (case uid_maps m of None \<Rightarrow> [] | Some ss \<Rightarrow> ss) of
             Inl e \<Rightarrow> throw (Wrapped ''invalid uid mappings format'' e)
           | Inr us \<Rightarrow>
               (case parseIDMappings (case gid_maps m of None \<Rightarrow> [] | Some ss \<Rightarrow> ss) of
                  Inl e \<Rightarrow> throw (Wrapped ''invalid gid mappings format'' e)
                | Inr gs \<Rightarrow> ret \<lparr>UIDMappings = us, GIDMappings = gs\<rparr>))))"

section \<open>Facts\<close>

definition in_range :: "IDMappingSpec \<Rightarrow> bool" where
  "in_range m \<longleftrightarrow> in_i64 (HostID m) \<and> in_i64 (NamespaceID m) \<and> in_i64 (map_size m)"

lemma scan_format: "in_range m \<Longrightarrow> scan_mapping (format_mapping m) = Some m"
proof -
  assume r: "in_range m"
  have "scan_int (itoa (NamespaceID m) @ CHR '':'' # t) = Some (NamespaceID m, CHR '':'' # t)"
    and "scan_int (itoa (HostID m) @ CHR '':'' # t) = Some (HostID m, CHR '':'' # t)"
    and "scan_int (itoa (map_size m)) = Some (map_size m, [])" for t
    using r itoa_scan [of "NamespaceID m" "CHR '':'' # t"] itoa_scan [of "HostID m" "CHR '':'' # t"]
      itoa_scan [of "map_size m" "[]"]
    by (auto simp: in_range_def)
  then show ?thesis by (simp add: scan_mapping_def format_mapping_def scan_lit_def)
qed

lemma format_inj: "in_range m \<Longrightarrow> in_range n \<Longrightarrow> format_mapping m = format_mapping n \<Longrightarrow> m = n"
  by (metis option.inject scan_format)

lemma parse_format:
  "list_all in_range ms \<Longrightarrow> parseIDMappings (map format_mapping ms) = Inr ms"
  by (induction ms) (auto simp: scan_format)

lemma normalize_eq_iff:
  assumes "list_all in_range ms" and "list_all in_range ns"
  shows "normalizeMappings ms = normalizeMappings ns \<longleftrightarrow> mset ms = mset ns"
proof
  assume "normalizeMappings ms = normalizeMappings ns"
  then have "mset (normalizeMappings ms) = mset (normalizeMappings ns)" by simp
  then have "image_mset format_mapping (mset ms) = image_mset format_mapping (mset ns)"
    by (simp add: normalizeMappings_def)
  then have "image_mset (\<lambda>t. the (scan_mapping t)) (image_mset format_mapping (mset ms)) =
      image_mset (\<lambda>t. the (scan_mapping t)) (image_mset format_mapping (mset ns))" by simp
  moreover have "image_mset (\<lambda>t. the (scan_mapping t)) (image_mset format_mapping (mset xs)) = mset xs"
    if "list_all in_range xs" for xs
    using that by (induction xs) (simp_all add: scan_format)
  ultimately show "mset ms = mset ns" using assms by simp
next
  assume "mset ms = mset ns"
  then have "mset (map format_mapping ms) = mset (map format_mapping ns)" by simp
  then show "normalizeMappings ms = normalizeMappings ns"
    unfolding normalizeMappings_def by (metis mset_sort properties_for_sort sorted_sort)
qed

lemma decode_encode [simp]: "decode_mappings (encode_mappings m) = Some m"
proof -
  have s: "as_slice (case x of None \<Rightarrow> JNull | Some ss \<Rightarrow> JArr (map JStr ss)) = Some x" for x
    by (cases x) (simp_all del: as_strs.simps)
  show ?thesis
    using s by (simp add: decode_mappings_def encode_mappings_def json_field_def lower_def Let_def)
qed

text \<open>The text of the namespace file, and that it reads back.\<close>

definition namespace_text :: "IDMappingSpec list \<Rightarrow> IDMappingSpec list \<Rightarrow> string" where
  "namespace_text uids gids =
     print_json (encode_mappings \<lparr>uid_maps = Some (normalizeMappings uids),
       gid_maps = Some (normalizeMappings gids)\<rparr>) @ [CHR 0x0A]"

lemma decode_namespace_text:
  "Option.bind (json_decode (namespace_text u g)) decode_mappings =
     Some \<lparr>uid_maps = Some (normalizeMappings u), gid_maps = Some (normalizeMappings g)\<rparr>"
proof -
  have "tail_ok [CHR 0x0A]" by (simp add: tail_ok_def is_num_char_def digit_val_def Let_def)
  then show ?thesis by (simp add: namespace_text_def json_roundtrip)
qed

section \<open>Writing and checking\<close>

lemma plain_namespace [simp]: "plain_name NamespaceFilename"
  by (simp add: NamespaceFilename_def plain_name_def)

lemma namespace_path:
  assumes "abs_path store"
  shows "comps (namespaceFilePath store) = comps store @ [MetaDirName, NamespaceFilename]"
    and "is_rooted (namespaceFilePath store)"
  using join_comps [OF assms, of "[MetaDirName, NamespaceFilename]"]
  by (simp_all add: namespaceFilePath_def)

text \<open>The namespace file of a store and what it holds.\<close>

definition namespace_file :: "string \<Rightarrow> world \<Rightarrow> string option" where
  "namespace_file store w =
     (case nodes w (comps store @ [MetaDirName, NamespaceFilename]) of Some (Regular a c) \<Rightarrow> Some c | _ \<Rightarrow> None)"

lemma write_mappings_Inr:
  assumes "abs_path store" and "write_mappings store u g w = (Inr (), w')"
  shows "namespace_file store w' = Some (namespace_text u g)"
proof -
  let ?q = "comps store @ [MetaDirName, NamespaceFilename]"
  from assms(2) obtain w1 w2 where o: "open_create True (namespaceFilePath store) perm_0666 w = (Inr (), w1)"
    and ch: "change_attr ''chmod'' (namespaceFilePath store) (\<lambda>a. a\<lparr>mode := perm_0755\<rparr>) w1 = (Inr (), w2)"
    and wr: "write_all (namespaceFilePath store) (namespace_text u g) w2 = (Inr (), w')"
    unfolding write_mappings_def os_create_def os_chmod_def Let_def namespace_text_def
    by (auto elim!: checked_wrap_InrE)
  have at: "at_path v (namespaceFilePath store) = ?q" for v
    using namespace_path [OF assms(1)] by simp
  obtain a where n1: "nodes w1 ?q = Some (Regular a [])"
    using open_create_cases [OF o] at by auto
  obtain a' where n2: "nodes w2 ?q = Some (Regular a' [])"
    using change_attr_cases [OF ch] at n1 by auto
  have "nodes w' ?q = Some (Regular a' (namespace_text u g))"
    using write_all_cases [OF wr] at n2 by (auto simp: append_to_def)
  then show ?thesis by (simp add: namespace_file_def)
qed

lemma validate_run:
  assumes "abs_path store" and "faults w = []" and "namespace_file store w = Some (namespace_text u g)"
  shows "ApplyMappings store u' g' w = validateNamespace (namespaceFilePath store) u' g' w"
    and "validateNamespace (namespaceFilePath store) u' g' w =
      (if normalizeMappings u \<noteq> normalizeMappings u' then
         (Inl (Msg ''provided UID mappings do not match those already configured in the store''), w)
       else if normalizeMappings g \<noteq> normalizeMappings g' then
         (Inl (Msg ''provided GID mappings do not match those already configured in the store''), w)
       else (Inr (), w))"
proof -
  let ?q = "comps store @ [MetaDirName, NamespaceFilename]"
  have at: "at_path w (namespaceFilePath store) = ?q" using namespace_path [OF assms(1)] by simp
  obtain a where n: "nodes w ?q = Some (Regular a (namespace_text u g))"
    using assms(3) by (auto simp: namespace_file_def split: option.splits node.splits)
  show "ApplyMappings store u' g' w = validateNamespace (namespaceFilePath store) u' g' w"
    unfolding ApplyMappings_def using stat_regular [OF n at assms(2)] by simp
  show "validateNamespace (namespaceFilePath store) u' g' w =
      (if normalizeMappings u \<noteq> normalizeMappings u' then
         (Inl (Msg ''provided UID mappings do not match those already configured in the store''), w)
       else if normalizeMappings g \<noteq> normalizeMappings g' then
         (Inl (Msg ''provided GID mappings do not match those already configured in the store''), w)
       else (Inr (), w))"
    unfolding validateNamespace_def
    using open_regular [OF n at assms(2)] read_regular [OF n at assms(2)] decode_namespace_text [of u g]
    by simp
qed

text \<open>C29: a store whose namespace file was written with the mappings \<open>u\<close> and \<open>g\<close> accepts
  exactly the same multisets of mappings again, in any order; it is not changed by being
  asked. Numbers are within Go's \<open>int\<close>.\<close>

theorem ApplyMappings_accepts:
  assumes "abs_path store" and "list_all in_range (u @ g @ u' @ g')"
    and "write_mappings store u g w0 = (Inr (), w)" and "faults w = []"
  shows "(fst (ApplyMappings store u' g' w) = Inr ()) = (mset u' = mset u \<and> mset g' = mset g)
    \<and> snd (ApplyMappings store u' g' w) = w"
  using validate_run [OF assms(1,4) write_mappings_Inr [OF assms(1,3)], of u' g']
    normalize_eq_iff [of u u'] normalize_eq_iff [of g g'] assms(2)
  by auto

definition meta_world :: world where
  "meta_world = blank\<lparr>tree := [([], Dir root_attr), ([''s''], Dir root_attr), ([''s'', ''meta''], Dir root_attr)]\<rparr>"

definition root_map :: IDMappingSpec where "root_map = \<lparr>HostID = 7, NamespaceID = 0, map_size = 1\<rparr>"
definition rest_map :: IDMappingSpec where "rest_map = \<lparr>HostID = 100, NamespaceID = 1, map_size = 50\<rparr>"

lemma abs_s [simp]: "abs_path ''/s''"
  unfolding abs_path_def by (rule exI [of _ "[''s'']"]) (simp add: path_of_def plain_name_def)

lemma namespace_s: "namespaceFilePath ''/s'' = ''/s/meta/namespace.json''"
  by (simp add: namespaceFilePath_def filepath_join_def filepath_clean_def MetaDirName_def NamespaceFilename_def
      is_rooted_def clean_comps_def)

lemma ApplyMappings_accepts_witness:
  "\<exists>w. write_mappings ''/s'' [root_map, rest_map] [] meta_world = (Inr (), w) \<and>
     fst (ApplyMappings ''/s'' [rest_map, root_map] [] w) = Inr () \<and>
     fst (ApplyMappings ''/s'' [root_map] [] w) \<noteq> Inr ()"
proof -
  obtain w where w: "write_mappings ''/s'' [root_map, rest_map] [] meta_world = (Inr (), w)" and f: "faults w = []"
    by (simp add: write_mappings_def os_create_def os_chmod_def namespace_s open_create_def faulty_def meta_world_def
        blank_def change_attr_def write_all_def at_path_def comps_def is_rooted_def clean_comps_def nodes_def
        is_dir_def put_def append_to_def Let_def checked_def)
  have r: "list_all in_range [root_map, rest_map]"
    by (simp add: in_range_def in_i64_def root_map_def rest_map_def)
  show ?thesis
    using w ApplyMappings_accepts [OF abs_s _ w f, of "[rest_map, root_map]" "[]"]
      ApplyMappings_accepts [OF abs_s _ w f, of "[root_map]" "[]"] r
    by auto
qed

end
