(* ===== verification/Id_Mapping.thy ===== *)
theory Id_Mapping
  imports Groot_Types
begin

text \<open>
  User and group id mappings: \<open>unpacker/id_translator.go\<close>, \<open>unpacker/id_mapper.go\<close> and
  \<open>findStoreOwner\<close> of \<open>store/manager\<close>. \<open>container_to_host\<close> is what a mapping means to the
  kernel (\<open>user_namespaces(7)\<close>); \<open>translateID\<close> is compared with it. Ids are far below the
  bounds of Go's \<open>int\<close>, so the arithmetic is that of the integers.
\<close>

fun translateRootID :: "IDMappingSpec list \<Rightarrow> int" where
  "translateRootID [] = 0"
| "translateRootID (m # ms) = (if map_size m = 1 then HostID m else translateRootID ms)"

fun translate_ranges :: "int \<Rightarrow> IDMappingSpec list \<Rightarrow> int" where
  "translate_ranges i [] = i"
| "translate_ranges i (m # ms) =
     (if map_size m = 1 then translate_ranges i ms
      else if i \<ge> NamespaceID m \<and> i < NamespaceID m + map_size m then HostID m + i - 1
      else translate_ranges i ms)"

definition translateID :: "int \<Rightarrow> IDMappingSpec list \<Rightarrow> int" where
  "translateID i ms = (if i = 0 then translateRootID ms else translate_ranges i ms)"

record id_translator =
  TranslateUID :: "int \<Rightarrow> int"
  TranslateGID :: "int \<Rightarrow> int"

definition NewNoopIDTranslator :: id_translator where
  "NewNoopIDTranslator = \<lparr>TranslateUID = (\<lambda>i. i), TranslateGID = (\<lambda>i. i)\<rparr>"

definition NewIDTranslator :: "IDMappingSpec list \<Rightarrow> IDMappingSpec list \<Rightarrow> id_translator" where
  "NewIDTranslator uids gids = \<lparr>TranslateUID = (\<lambda>i. translateID i uids), TranslateGID = (\<lambda>i. translateID i gids)\<rparr>"

text \<open>The commands that install the mappings of a process in a new user namespace.\<close>

record id_mapper =
  newuidmapBin :: string
  newgidmapBin :: string

definition idMappingToArgs :: "IDMappingSpec \<Rightarrow> string list" where
  "idMappingToArgs m = [itoa (NamespaceID m), itoa (HostID m), itoa (map_size m)]"

definition idMappingsToArgs :: "IDMappingSpec list \<Rightarrow> string list" where
  "idMappingsToArgs ms = concat (map idMappingToArgs ms)"

definition id_execute :: "string \<Rightarrow> int \<Rightarrow> IDMappingSpec list \<Rightarrow> unit sys" where
  "id_execute command p ms =
     checked (exec_output command (itoa p # idMappingsToArgs ms)
        (\<lambda>out. Wrapped (command @ '', '' @ out) (Msg ''exit status 1''))) throw (\<lambda>_. ret ())"

definition MapUIDs :: "id_mapper \<Rightarrow> int \<Rightarrow> IDMappingSpec list \<Rightarrow> unit sys" where
  "MapUIDs im p ms = id_execute (newuidmapBin im) p ms"

definition MapGIDs :: "id_mapper \<Rightarrow> int \<Rightarrow> IDMappingSpec list \<Rightarrow> unit sys" where
  "MapGIDs im p ms = id_execute (newgidmapBin im) p ms"

definition setIDMappings :: "id_mapper \<Rightarrow> IDMappings \<Rightarrow> int \<Rightarrow> unit sys" where
  "setIDMappings im ms reexecPid =
     checked (if length (UIDMappings ms) > 0 then
                checked (MapUIDs im reexecPid (UIDMappings ms)) (wrapping ''setting uid mapping'') ret
              else ret ()) throw (\<lambda>_.
     if length (GIDMappings ms) > 0 then
       checked (MapGIDs im reexecPid (GIDMappings ms)) (wrapping ''setting gid mapping'') ret
     else ret ())"

text \<open>The loop leaves \<open>-1\<close>, which chown takes as no change, when no mapping is one of root.\<close>

fun owner_loop :: "IDMappingSpec list \<Rightarrow> int \<Rightarrow> int" where
  "owner_loop [] i = i"
| "owner_loop (m # ms) i = (if map_size m = 1 \<and> NamespaceID m = 0 then HostID m else owner_loop ms (- 1))"

definition findStoreOwner :: "IDMappingSpec list \<Rightarrow> IDMappingSpec list \<Rightarrow> (int \<times> int) sys" where
  "findStoreOwner uids gids = checked getuid throw (\<lambda>uid. checked getgid throw (\<lambda>gid.
     ret (owner_loop uids uid, owner_loop gids gid)))"

section \<open>What a mapping means\<close>

definition covers :: "IDMappingSpec \<Rightarrow> int \<Rightarrow> bool" where
  "covers m i \<longleftrightarrow> NamespaceID m \<le> i \<and> i < NamespaceID m + map_size m"

definition container_to_host :: "IDMappingSpec list \<Rightarrow> int \<Rightarrow> int option" where
  "container_to_host ms i = map_option (\<lambda>m. HostID m + (i - NamespaceID m)) (find (\<lambda>m. covers m i) ms)"

text \<open>
  The mappings grootfs is used with: root alone maps to one host id, and the others are one
  range that starts at 1.
\<close>

definition standard_mapping :: "IDMappingSpec \<Rightarrow> bool" where
  "standard_mapping m \<longleftrightarrow> (NamespaceID m = 0 \<and> map_size m = 1) \<or> (NamespaceID m = 1 \<and> map_size m \<noteq> 1 \<and> 0 \<le> map_size m)"

lemma translate_root:
  "list_all standard_mapping ms \<Longrightarrow> translateRootID ms = (case container_to_host ms 0 of Some h \<Rightarrow> h | None \<Rightarrow> 0)"
  by (induction ms) (auto simp: container_to_host_def standard_mapping_def covers_def)

lemma translate_others:
  "list_all standard_mapping ms \<Longrightarrow> i \<noteq> 0 \<Longrightarrow>
     translate_ranges i ms = (case container_to_host ms i of Some h \<Rightarrow> h | None \<Rightarrow> i)"
  by (induction ms) (auto simp: container_to_host_def standard_mapping_def covers_def)

lemma translateID_host:
  "list_all standard_mapping ms \<Longrightarrow> container_to_host ms i = Some h \<Longrightarrow> translateID i ms = h"
  using translate_root [of ms] translate_others [of ms i] by (cases "i = 0") (auto simp: translateID_def)

lemma translateID_unmapped:
  "list_all standard_mapping ms \<Longrightarrow> container_to_host ms i = None \<Longrightarrow> translateID i ms = i"
  using translate_root [of ms] translate_others [of ms i] by (cases "i = 0") (auto simp: translateID_def)

section \<open>Properties\<close>


definition vcap_mappings :: "IDMappingSpec list" where
  "vcap_mappings = [\<lparr>HostID = 4294967294, NamespaceID = 0, map_size = 1\<rparr>,
     \<lparr>HostID = 65536, NamespaceID = 1, map_size = 4294901758\<rparr>]"




end
