(* ===== verification/Store_Manager.thy ===== *)
theory Store_Manager
  imports Image_Manager Garbage_Collector Namespacer Id_Mapping Locksmith
begin

text \<open>
  \<open>store/manager/manager.go\<close>: creating, checking and deleting a store. The store driver and
  the namespacer are interfaces; \<open>mount.Mounted\<close> of another module is a parameter.
  The attempts of \<open>tryRemoveAll\<close> are the argument of its loop.
\<close>

record store_driver =
  sd_configure :: "string \<Rightarrow> string \<Rightarrow> int \<Rightarrow> int \<Rightarrow> unit sys"
  sd_validate :: "string \<Rightarrow> unit sys"
  sd_init :: "string \<Rightarrow> string \<Rightarrow> unit sys"
  sd_deinit :: "string \<Rightarrow> unit sys"
  sd_mount :: "string \<Rightarrow> string \<Rightarrow> unit sys"

record manager =
  m_store :: string
  m_image_driver :: image_driver
  m_volume_driver :: volume_driver
  m_store_driver :: store_driver
  m_apply_mappings :: "IDMappingSpec list \<Rightarrow> IDMappingSpec list \<Rightarrow> unit sys"
  m_locksmith :: locksmith
  m_mounted :: "string \<Rightarrow> bool sys"

record InitSpec =
  init_uids :: "IDMappingSpec list"
  init_gids :: "IDMappingSpec list"
  init_size :: int

definition MinStoreSizeBytes :: int where "MinStoreSizeBytes = 1024 * 1024 * 200"

definition getBackingStoreFilePath :: "manager \<Rightarrow> string" where
  "getBackingStoreFilePath m = m_store m @ ''.backing-store''"

definition backingStoreFileExists :: "manager \<Rightarrow> bool sys" where
  "backingStoreFileExists m = if_missing (os_stat (getBackingStoreFilePath m)) (\<lambda>_. ret False) (ret True)"

definition isDirectory :: "string \<Rightarrow> unit sys" where
  "isDirectory p = observed (os_stat p) (\<lambda>r.
     (case r of
        Inr n \<Rightarrow> if \<not> is_dir_node n then throw (Msg (''path `'' @ p @ ''` is not a directory'')) else ret ()
      | Inl _ \<Rightarrow> ret ()))"

definition createInternalDirectory :: "manager \<Rightarrow> string \<Rightarrow> int \<Rightarrow> int \<Rightarrow> unit sys" where
  "createInternalDirectory m folderName ownerUID ownerGID =
     (let requiredPath = filepath_join [m_store m, folderName] in
      checked (isDirectory requiredPath) throw (\<lambda>_.
      checked (checked (os_mkdir requiredPath perm_0755)
          (\<lambda>err. observed (os_lstat requiredPath) (\<lambda>r.
             (case r of
                Inr n \<Rightarrow> if is_dir_node n then ret () else wrapping (''making directory `'' @ requiredPath @ ''`'') err
              | Inl _ \<Rightarrow> wrapping (''making directory `'' @ requiredPath @ ''`'') err))) ret) throw (\<lambda>_.
      checked (os_chown requiredPath ownerUID ownerGID)
        (wrapping (''changing store owner to '' @ itoa ownerUID @ '':'' @ itoa ownerGID @ '' for path '' @ requiredPath)) ret)))"

definition configureStore :: "manager \<Rightarrow> int \<Rightarrow> int \<Rightarrow> unit sys" where
  "configureStore m ownerUID ownerGID =
     checked (isDirectory (m_store m)) throw (\<lambda>_.
     checked (os_chown (m_store m) ownerUID ownerGID)
       (wrapping (''changing store owner to '' @ itoa ownerUID @ '':'' @ itoa ownerGID @ '' for path '' @ m_store m)) (\<lambda>_.
     checked (os_chmod (m_store m) perm_0700) (wrapping (''changing store permissions '' @ m_store m)) (\<lambda>_.
     checked (for_each StoreFolders (\<lambda>folderName. createInternalDirectory m folderName ownerUID ownerGID)) throw (\<lambda>_.
     checked (sd_configure (m_store_driver m) (m_store m) (getBackingStoreFilePath m) ownerUID ownerGID)
       (wrapping ''running filesystem-specific configuration'') ret))))"

definition mountFileSystemIfBackingStoreExists :: "manager \<Rightarrow> unit sys" where
  "mountFileSystemIfBackingStoreExists m =
     checked (backingStoreFileExists m) throw (\<lambda>there.
     if \<not> there then ret () else
     checked (m_mounted m (m_store m)) throw (\<lambda>mounted.
     if mounted then ret ()
     else sd_mount (m_store_driver m) (getBackingStoreFilePath m) (m_store m)))"

definition createAndMountFilesystem :: "manager \<Rightarrow> int \<Rightarrow> unit sys" where
  "createAndMountFilesystem m storeSizeBytes =
     checked (os_mkdir_all (m_store m) perm_0755) (wrapping ''initializing store'') (\<lambda>_.
     let backingStoreFile = getBackingStoreFilePath m in
     checked (if_missing (os_stat backingStoreFile)
         (\<lambda>_. checked (os_write_file backingStoreFile [] perm_0600) (wrapping ''creating backing store file'') ret)
         (ret ())) throw (\<lambda>_.
     checked (os_truncate backingStoreFile (nat storeSizeBytes)) (wrapping ''truncating backing store file'') (\<lambda>_.
     checked (sd_init (m_store_driver m) backingStoreFile (m_store m)) (wrapping ''initializing filesyztem'') ret)))"

text \<open>
  The deferred unlock wraps the error that is returned; \<open>errors.Wrap\<close> of no error is no error.
\<close>

definition unlock_wrapping :: "locksmith \<Rightarrow> path \<Rightarrow> goerr + unit \<Rightarrow> unit sys" where
  "unlock_wrapping l lockFile r = checked (Unlock l lockFile)
     (\<lambda>unlockErr. (case r of Inl err \<Rightarrow> throw (Wrapped (error_text unlockErr) err) | Inr _ \<Rightarrow> ret ()))
     (\<lambda>_. give_back r)"

definition InitStore :: "manager \<Rightarrow> InitSpec \<Rightarrow> unit sys" where
  "InitStore m spec =
     observed (os_stat (m_store m)) (\<lambda>stat.
     let exists_dir = (case stat of Inr n \<Rightarrow> is_dir_node n | Inl _ \<Rightarrow> False);
         validationPath = (if exists_dir \<or> init_size spec > 0 then m_store m else filepath_dir (m_store m)) in
     checked (Lock (m_locksmith m) ''init-store'') (wrapping ''locking'') (\<lambda>lockFile.
     deferred
       (logged (mountFileSystemIfBackingStoreExists m)
        (checked (checked (sd_validate (m_store_driver m) validationPath)
            (\<lambda>err. if init_size spec \<le> 0 then wrapping ''validating store path filesystem'' err
                   else createAndMountFilesystem m (init_size spec)) ret) throw (\<lambda>_.
         checked (os_mkdir_all (filepath_join [m_store m, MetaDirName]) perm_0755) (wrapping ''initializing store'') (\<lambda>_.
         checked (m_apply_mappings m (init_uids spec) (init_gids spec)) throw (\<lambda>_.
         checked (findStoreOwner (init_uids spec) (init_gids spec)) throw (\<lambda>(ownerUID, ownerGID).
         checked (configureStore m ownerUID ownerGID) (wrapping ''running filesystem-specific configuration'') ret))))))
       (unlock_wrapping (m_locksmith m) lockFile)))"

fun all_there :: "string list \<Rightarrow> bool sys" where
  "all_there [] = ret True"
| "all_there (p # ps) = if_missing (os_stat p) (\<lambda>_. ret False) (all_there ps)"

definition IsStoreInitialized :: "manager \<Rightarrow> bool sys" where
  "IsStoreInitialized m = all_there
     (map (\<lambda>folderName. filepath_join [m_store m, folderName]) StoreFolders @
      [filepath_join [m_store m, MetaDirName, NamespaceFilename]])"

definition isEBUSY :: "goerr \<Rightarrow> bool" where
  "isEBUSY e = (errno_of e = Some EBUSY)"

fun tryRemoveAll_loop :: "nat \<Rightarrow> goerr option \<Rightarrow> string \<Rightarrow> unit sys" where
  "tryRemoveAll_loop 0 err p = (case err of None \<Rightarrow> ret () | Some e \<Rightarrow> throw e)"
| "tryRemoveAll_loop (Suc n) err p = checked (os_remove_all p)
     (\<lambda>e. if \<not> isEBUSY e then throw e else tryRemoveAll_loop n (Some e) p) ret"

definition tryRemoveAll :: "string \<Rightarrow> unit sys" where
  "tryRemoveAll p = tryRemoveAll_loop 50 None p"

definition manager_images :: "manager \<Rightarrow> string list sys" where
  "manager_images m = (let imagesPath = filepath_join [m_store m, ImageDirName] in
     checked (os_read_dir imagesPath) (wrapping ''listing images'') (\<lambda>images.
     ret (map (\<lambda>n. filepath_join [imagesPath, n]) images)))"

definition manager_volumes :: "manager \<Rightarrow> string list sys" where
  "manager_volumes m = checked (os_read_dir (filepath_join [m_store m, VolumesDirName])) (wrapping ''listing volumes'') ret"

definition DeleteStore :: "manager \<Rightarrow> unit sys" where
  "DeleteStore m =
     if_missing (os_stat (m_store m)) (\<lambda>_. ret ())
     (checked (manager_images m) throw (\<lambda>existingImages.
      checked (for_each existingImages (\<lambda>image.
          checked (drv_destroy_image (m_image_driver m) image) (wrapping (''destroying image '' @ image)) ret)) throw (\<lambda>_.
      checked (manager_volumes m) throw (\<lambda>existingVolumes.
      checked (for_each existingVolumes (\<lambda>volume.
          checked (vd_destroy (m_volume_driver m) volume) (wrapping (''destroying volume '' @ volume)) ret)) throw (\<lambda>_.
      checked (sd_deinit (m_store_driver m) (m_store m)) (wrapping ''deinitialising store'') (\<lambda>_.
      checked (tryRemoveAll (m_store m)) (wrapping ''deleting store path'') ret))))))"

text \<open>The overlay driver as the store driver, and the store manager the commands build.\<close>

definition overlay_store :: "driver \<Rightarrow> store_driver" where
  "overlay_store d = \<lparr>sd_configure = ConfigureStore d, sd_validate = ValidateFileSystem,
     sd_init = InitFilesystem, sd_deinit = DeInitFilesystem d, sd_mount = MountFilesystem\<rparr>"

end
