(* ===== verification/Inode_Tree.thy ===== *)
theory Inode_Tree
  imports Id_Mapping Json
begin

text \<open>
  The file system an unpacker sees after \<open>chroot\<close>: names lead to inodes, so that hard links share
  content, and symbolic links are followed wherever they stand in a name, never above the root.
  The system calls are those of \<open>base_image_puller/unpacker\<close>.

  \<^item> \<open>walk\<close> is the kernel's resolution of a name, with its bound of 40 links. A name that is
    resolved is a list of components from the root; its directory exists and only the last
    component may be missing.
  \<^item> The ids a process passes to \<open>chown\<close> are those of its user namespace; \<open>host_uid\<close> and \<open>host_gid\<close>
    say which ids they are on the host, if any. Inodes carry ids of the host.
  \<^item> Calls consume the fault schedule as those of the machine do.
\<close>

datatype kind =
    KDir
  | KFile string
  | KLink string
  | KDev nat
  | KBlock nat

record inode =
  kind :: kind
  imode :: int
  iuid :: int
  igid :: int
  iprojid :: "32 word"
  imtime :: int
  ixattrs :: "(string \<times> string) list"

record vfs =
  entries :: "(path \<times> nat) list"
  inodes :: "nat \<Rightarrow> inode option"
  next_ino :: nat
  vfaults :: "(errno \<times> nat) option list"
  vumask :: int
  fs_uid :: int
  fs_gid :: int
  host_uid :: "int \<Rightarrow> int option"
  host_gid :: "int \<Rightarrow> int option"
  vnonces :: "int list"
  clock :: int

type_synonym 'a usys = "(vfs, 'a) io"

definition ino_at :: "vfs \<Rightarrow> path \<Rightarrow> nat option" where
  "ino_at v p = map_of (entries v) p"

definition inode_at :: "vfs \<Rightarrow> path \<Rightarrow> inode option" where
  "inode_at v p = Option.bind (ino_at v p) (inodes v)"

definition kind_at :: "vfs \<Rightarrow> path \<Rightarrow> kind option" where
  "kind_at v p = map_option kind (inode_at v p)"

section \<open>Names\<close>

text \<open>Going up from the root stays at the root; a link starts over at the root or goes on from its
  directory.\<close>

fun walk :: "nat \<Rightarrow> vfs \<Rightarrow> bool \<Rightarrow> path \<Rightarrow> string list \<Rightarrow> errno + path" where
  "walk n v follow_last cur [] = Inr cur"
| "walk n v follow_last cur (c # cs) =
     (if c = [] \<or> c = ''.'' then walk n v follow_last cur cs
      else if c = ''..'' then walk n v follow_last (butlast cur) cs
      else (case kind_at v (cur @ [c]) of
          None \<Rightarrow> if cs = [] then Inr (cur @ [c]) else Inl ENOENT
        | Some KDir \<Rightarrow> walk n v follow_last (cur @ [c]) cs
        | Some (KLink t) \<Rightarrow>
            if cs = [] \<and> \<not> follow_last then Inr (cur @ [c])
            else (case n of
                0 \<Rightarrow> Inl ELOOP
              | Suc m \<Rightarrow> walk m v follow_last (if is_rooted t then [] else cur) (split_on CHR ''/'' t @ cs))
        | Some _ \<Rightarrow> if cs = [] then Inr (cur @ [c]) else Inl ENOTDIR))"

definition resolve :: "vfs \<Rightarrow> bool \<Rightarrow> string \<Rightarrow> errno + path" where
  "resolve v follow_last p = walk 40 v follow_last [] (split_on CHR ''/'' p)"

section \<open>System calls\<close>

text \<open>A call is a function of the file system that gives its system error; \<open>err\<close> makes it Go's.\<close>

definition ucall :: "(errno \<Rightarrow> goerr) \<Rightarrow> (nat \<Rightarrow> vfs \<Rightarrow> vfs) \<Rightarrow> (vfs \<Rightarrow> (errno + 'a) \<times> vfs) \<Rightarrow> 'a usys" where
  "ucall err partial m = (\<lambda>v.
     let run = (\<lambda>v. case m v of (Inl e, v') \<Rightarrow> (Inl (err e), v') | (Inr x, v') \<Rightarrow> (Inr x, v')) in
     case vfaults v of
       [] \<Rightarrow> run v
     | None # fs \<Rightarrow> run (v\<lparr>vfaults := fs\<rparr>)
     | Some (e, k) # fs \<Rightarrow> (Inl (err e), partial k (v\<lparr>vfaults := fs\<rparr>)))"

definition nothing :: "nat \<Rightarrow> vfs \<Rightarrow> vfs" where "nothing k v = v"

text \<open>The errors that a name can meet, before the call does its work at the place it leads to.\<close>

definition at_name :: "bool \<Rightarrow> string \<Rightarrow> (path \<Rightarrow> vfs \<Rightarrow> (errno + 'a) \<times> vfs) \<Rightarrow> vfs \<Rightarrow> (errno + 'a) \<times> vfs" where
  "at_name follow_last p m v = (case resolve v follow_last p of Inl e \<Rightarrow> (Inl e, v) | Inr q \<Rightarrow> m q v)"

definition at_inode :: "bool \<Rightarrow> string \<Rightarrow> (nat \<Rightarrow> inode \<Rightarrow> vfs \<Rightarrow> (errno + 'a) \<times> vfs) \<Rightarrow> vfs \<Rightarrow> (errno + 'a) \<times> vfs" where
  "at_inode follow_last p m = at_name follow_last p (\<lambda>q v.
     (case ino_at v q of
        None \<Rightarrow> (Inl ENOENT, v)
      | Some i \<Rightarrow> (case inodes v i of None \<Rightarrow> (Inl ENOENT, v) | Some x \<Rightarrow> m i x v)))"

text \<open>Adding or removing a name stamps its directory.\<close>

definition set_inode :: "nat \<Rightarrow> inode \<Rightarrow> vfs \<Rightarrow> vfs" where
  "set_inode i x v = v\<lparr>inodes := (inodes v)(i \<mapsto> x)\<rparr>"

definition stamp :: "path \<Rightarrow> vfs \<Rightarrow> vfs" where
  "stamp d v = (case ino_at v d of
     None \<Rightarrow> v
   | Some i \<Rightarrow> (case inodes v i of None \<Rightarrow> v | Some x \<Rightarrow> set_inode i (x\<lparr>imtime := clock v\<rparr>) v))"

definition add_name :: "path \<Rightarrow> nat \<Rightarrow> vfs \<Rightarrow> vfs" where
  "add_name q i v = stamp (butlast q) (v\<lparr>entries := (q, i) # entries v\<rparr>)"

definition drop_names :: "(path \<Rightarrow> bool) \<Rightarrow> vfs \<Rightarrow> vfs" where
  "drop_names D v = v\<lparr>entries := filter (\<lambda>(q, _). \<not> D q) (entries v)\<rparr>"

definition new_inode :: "path \<Rightarrow> kind \<Rightarrow> int \<Rightarrow> vfs \<Rightarrow> vfs" where
  "new_inode q k m v =
     add_name q (next_ino v) (set_inode (next_ino v)
       \<lparr>kind = k, imode = m, iuid = fs_uid v, igid = fs_gid v, iprojid = 0, imtime = clock v, ixattrs = []\<rparr>
       (v\<lparr>next_ino := Suc (next_ino v)\<rparr>))"

definition masked :: "vfs \<Rightarrow> int \<Rightarrow> int" where
  "masked v perm = Bit_Operations.and perm (Bit_Operations.not (vumask v))"

definition u_stat :: "string \<Rightarrow> inode usys" where
  "u_stat p = ucall (PathErr ''stat'' p) nothing (at_inode True p (\<lambda>i x v. (Inr x, v)))"

definition u_lstat :: "string \<Rightarrow> inode usys" where
  "u_lstat p = ucall (PathErr ''lstat'' p) nothing (at_inode False p (\<lambda>i x v. (Inr x, v)))"

text \<open>\<open>mkdir\<close> takes the permissions and the sticky bit of its mode.\<close>

definition u_mkdir :: "string \<Rightarrow> int \<Rightarrow> unit usys" where
  "u_mkdir p perm = ucall (PathErr ''mkdir'' p) nothing (at_name False p (\<lambda>q v.
     if ino_at v q \<noteq> None then (Inl EEXIST, v)
     else (Inr (), new_inode q KDir (masked v (perm mod 1024)) v)))"

definition u_symlink :: "string \<Rightarrow> string \<Rightarrow> unit usys" where
  "u_symlink t p = ucall (PathErr ''symlink'' (t @ '' '' @ p)) nothing (at_name False p (\<lambda>q v.
     if ino_at v q \<noteq> None then (Inl EEXIST, v) else (Inr (), new_inode q (KLink t) 511 v)))"

definition u_link :: "string \<Rightarrow> string \<Rightarrow> unit usys" where
  "u_link old p = ucall (PathErr ''link'' (old @ '' '' @ p)) nothing (at_inode False old (\<lambda>i x.
     at_name False p (\<lambda>q v.
       if ino_at v q \<noteq> None then (Inl EEXIST, v)
       else if kind x = KDir then (Inl EPERM, v)
       else (Inr (), add_name q i v))))"

definition has_children :: "vfs \<Rightarrow> path \<Rightarrow> bool" where
  "has_children v q = list_ex (\<lambda>(r, _). strict_prefix q r) (entries v)"

definition u_remove :: "string \<Rightarrow> unit usys" where
  "u_remove p = ucall (PathErr ''remove'' p) nothing (at_name False p (\<lambda>q v.
     if ino_at v q = None then (Inl ENOENT, v)
     else if q = [] then (Inl EBUSY, v)
     else if kind_at v q = Some KDir \<and> has_children v q then (Inl ENOTEMPTY, v)
     else (Inr (), stamp (butlast q) (drop_names (\<lambda>r. r = q) v))))"

text \<open>
  \<open>os.RemoveAll\<close>: what is missing is removed already; a name that ends in \<open>.\<close> is refused, and one
  that ends in \<open>..\<close> empties the directory it leads to but cannot remove the name. A fault leaves
  the deepest \<open>k\<close> names removed.
\<close>

definition ends_with_dot :: "string \<Rightarrow> bool" where
  "ends_with_dot p \<longleftrightarrow> p = ''.'' \<or> suffix ''/.'' p"

definition below :: "vfs \<Rightarrow> path \<Rightarrow> path list" where
  "below v q = rev (sort_key length (filter (prefix q) (map fst (entries v))))"

definition u_remove_all :: "string \<Rightarrow> unit usys" where
  "u_remove_all p =
     (if p = [] then ret ()
      else if ends_with_dot p then throw (PathErr ''RemoveAll'' p EINVAL)
      else ucall (PathErr ''unlinkat'' p)
        (\<lambda>k v. case resolve v False p of
            Inl _ \<Rightarrow> v
          | Inr q \<Rightarrow> drop_names (\<lambda>r. r \<noteq> [] \<and> r \<in> set (take k (below v q))) v)
        (\<lambda>v. case resolve v False p of
            Inl ENOENT \<Rightarrow> (Inr (), v)
          | Inl e \<Rightarrow> (Inl e, v)
          | Inr q \<Rightarrow>
              if filepath_base p = ''..'' \<or> q = [] then (Inl ENOTEMPTY, drop_names (strict_prefix q) v)
              else if ino_at v q = None then (Inr (), v)
              else (Inr (), stamp (butlast q) (drop_names (prefix q) v))))"

definition u_chmod :: "string \<Rightarrow> int \<Rightarrow> unit usys" where
  "u_chmod p m = ucall (PathErr ''chmod'' p) nothing (at_inode True p (\<lambda>i x v.
     (Inr (), set_inode i (x\<lparr>imode := m mod 4096\<rparr>) v)))"

text \<open>
  \<open>chown\<close> with an id that the user namespace does not map is \<open>EINVAL\<close>; -1 keeps the id. It clears
  the set-user-ID bit of what is no directory, and the set-group-ID bit where the group may
  execute.
\<close>

definition mapped :: "(int \<Rightarrow> int option) \<Rightarrow> int \<Rightarrow> int \<Rightarrow> int option" where
  "mapped host old i = (if i = - 1 then Some old else host i)"

definition without_setid :: "inode \<Rightarrow> int" where
  "without_setid x =
     (if kind x = KDir then imode x
      else let m = Bit_Operations.and (imode x) (Bit_Operations.not 2048) in
        if Bit_Operations.and m 8 = 0 then m else Bit_Operations.and m (Bit_Operations.not 1024))"

definition owned :: "int \<Rightarrow> int \<Rightarrow> nat \<Rightarrow> inode \<Rightarrow> vfs \<Rightarrow> (errno + unit) \<times> vfs" where
  "owned uid gid i x v =
     (case (mapped (host_uid v) (iuid x) uid, mapped (host_gid v) (igid x) gid) of
        (Some u, Some g) \<Rightarrow> (Inr (), set_inode i (x\<lparr>iuid := u, igid := g, imode := without_setid x\<rparr>) v)
      | _ \<Rightarrow> (Inl EINVAL, v))"

definition u_chown :: "string \<Rightarrow> int \<Rightarrow> int \<Rightarrow> unit usys" where
  "u_chown p uid gid = ucall (PathErr ''chown'' p) nothing (at_inode True p (owned uid gid))"

definition u_lchown :: "string \<Rightarrow> int \<Rightarrow> int \<Rightarrow> unit usys" where
  "u_lchown p uid gid = ucall (PathErr ''lchown'' p) nothing (at_inode False p (owned uid gid))"

text \<open>\<open>open\<close> for writing with \<open>O_CREATE|O_TRUNC\<close>: links are followed, also one whose target is
  missing; what is opened is the inode.\<close>

definition u_open_trunc :: "string \<Rightarrow> int \<Rightarrow> nat usys" where
  "u_open_trunc p perm = ucall (PathErr ''open'' p) nothing (at_name True p (\<lambda>q v.
     (case ino_at v q of
        None \<Rightarrow> (Inr (next_ino v), new_inode q (KFile []) (masked v (perm mod 4096)) v)
      | Some i \<Rightarrow> (case inodes v i of
          None \<Rightarrow> (Inl ENOENT, v)
        | Some x \<Rightarrow> (case kind x of
            KDir \<Rightarrow> (Inl EISDIR, v)
          | KFile _ \<Rightarrow> (Inr i, set_inode i (x\<lparr>kind := KFile [], imtime := clock v\<rparr>) v)
          | KLink _ \<Rightarrow> (Inl ELOOP, v)
          | KDev _ \<Rightarrow> (Inl ENXIO, v)
          | KBlock _ \<Rightarrow> (Inl ENXIO, v))))))"

definition append_content :: "nat \<Rightarrow> string \<Rightarrow> vfs \<Rightarrow> vfs" where
  "append_content i s v = (case inodes v i of
     Some x \<Rightarrow> (case kind x of
         KFile c \<Rightarrow> set_inode i (x\<lparr>kind := KFile (c @ s), imtime := clock v\<rparr>) v
       | _ \<Rightarrow> v)
   | None \<Rightarrow> v)"

definition u_write :: "string \<Rightarrow> nat \<Rightarrow> string \<Rightarrow> unit usys" where
  "u_write p i s = ucall (PathErr ''write'' p) (\<lambda>k. append_content i (take k s))
     (\<lambda>v. (Inr (), append_content i s v))"

definition u_close :: "string \<Rightarrow> unit usys" where
  "u_close p = ucall (PathErr ''close'' p) nothing (\<lambda>v. (Inr (), v))"

text \<open>\<open>utimensat\<close> on the name itself, \<open>os.Chtimes\<close> on what it leads to.\<close>

definition u_utimensat :: "string \<Rightarrow> int \<Rightarrow> unit usys" where
  "u_utimensat p t = ucall SysErr nothing (at_inode False p (\<lambda>i x v. (Inr (), set_inode i (x\<lparr>imtime := t\<rparr>) v)))"

definition u_chtimes :: "string \<Rightarrow> int \<Rightarrow> unit usys" where
  "u_chtimes p t = ucall (PathErr ''chtimes'' p) nothing
     (at_inode True p (\<lambda>i x v. (Inr (), set_inode i (x\<lparr>imtime := t\<rparr>) v)))"

definition u_lsetxattr :: "string \<Rightarrow> string \<Rightarrow> string \<Rightarrow> unit usys" where
  "u_lsetxattr p name val = ucall (PathErr ''lsetxattr'' p) nothing (at_inode False p (\<lambda>i x v.
     (Inr (), set_inode i (x\<lparr>ixattrs := AList.update name val (ixattrs x)\<rparr>) v)))"

text \<open>A descriptor of a directory; \<open>linkat\<close> makes a name for an inode under one.\<close>

definition u_open_dir :: "string \<Rightarrow> path usys" where
  "u_open_dir p = ucall (PathErr ''open'' p) nothing (at_name True p (\<lambda>q v.
     if ino_at v q = None then (Inl ENOENT, v) else (Inr q, v)))"

definition u_linkat :: "nat option \<Rightarrow> path \<Rightarrow> string \<Rightarrow> unit usys" where
  "u_linkat source dir name = ucall SysErr nothing (\<lambda>v.
     (case source of
        None \<Rightarrow> (Inl ENOENT, v)
      | Some i \<Rightarrow>
          if kind_at v dir \<noteq> Some KDir then (Inl ENOTDIR, v)
          else if \<not> plain_name name \<or> ino_at v (dir @ [name]) \<noteq> None then (Inl EEXIST, v)
          else (Inr (), add_name (dir @ [name]) i v)))"

text \<open>The order in which a map is ranged over.\<close>

definition u_ranged :: "'a list \<Rightarrow> 'a list usys" where
  "u_ranged xs = (\<lambda>v. case vnonces v of
     [] \<Rightarrow> (Inr (shuffle 0 xs), v)
   | n # ns \<Rightarrow> (Inr (shuffle (nat n) xs), v\<lparr>vnonces := ns\<rparr>))"

end
