(* ===== verification/Unpacker.thy ===== *)
theory Unpacker
  imports Inode_Tree
begin

text \<open>
  \<open>base_image_puller/unpacker\<close>: the tar unpacker and the overlay whiteout handler, on the file
  system of \<open>Inode_Tree\<close>. A tar stream is what \<open>archive/tar\<close> delivers of it: the headers in order,
  each with the content a reader gets and the error that may follow it, and the error
  that ends the stream, if any.
\<close>

definition defaultDirectoryFileMode :: int where "defaultDirectoryFileMode = 493"
definition defaultDirectoryUid :: int where "defaultDirectoryUid = 0"
definition defaultDirectoryGid :: int where "defaultDirectoryGid = 0"

datatype typeflag = TypeReg | TypeLink | TypeSymlink | TypeChar | TypeBlock | TypeDir | TypeOther

record tar_header =
  Name :: string
  Linkname :: string
  Typeflag :: typeflag
  hdr_mode :: int
  Uid :: int
  Gid :: int
  ModTime :: int
  PAXRecords :: "(string \<times> string) list"

record tar_entry =
  header :: tar_header
  body :: string
  body_error :: "goerr option"

record tar_stream =
  tar_entries :: "tar_entry list"
  tar_error :: "goerr option"

record unpack_spec =
  tar_data :: tar_stream
  targetPath :: string
  baseDirectory :: string

record unpack_output =
  bytesWritten :: int
  opaqueWhiteouts :: "string list"

text \<open>The descriptor of the store's directory gives the whiteout device, if it is there.\<close>

record tar_unpacker =
  whiteout_dev :: "nat option"
  idTranslator :: id_translator

section \<open>Whiteouts\<close>

definition RemoveWhiteout :: "tar_unpacker \<Rightarrow> string \<Rightarrow> unit usys" where
  "RemoveWhiteout u p =
     (let toBeDeletedPath = replace_first p ''.wh.'' [] in
      checked (u_remove_all toBeDeletedPath) (wrapping ''deleting  file'') (\<lambda>_.
      checked (u_open_dir (filepath_dir toBeDeletedPath)) (wrapping ''opening target whiteout directory'') (\<lambda>targetDir.
      checked (u_linkat (whiteout_dev u) targetDir (filepath_base toBeDeletedPath))
        (wrapping (''failed to create whiteout node: '' @ toBeDeletedPath)) ret)))"

section \<open>Entries\<close>

definition changeModTime :: "string \<Rightarrow> int \<Rightarrow> unit usys" where
  "changeModTime p modTime = checked (u_utimensat p modTime)
     (\<lambda>e. if e = SysErr ENOSYS then u_chtimes p modTime else throw e) ret"

definition safeMkdir :: "string \<Rightarrow> int \<Rightarrow> unit usys" where
  "safeMkdir p perm = checked (u_stat p)
     (\<lambda>_. checked (u_mkdir p perm) (wrapping (''making destination directory `'' @ p @ ''`'')) ret) (\<lambda>_. ret ())"

text \<open>The recursion goes up the name until a directory is found; \<open>.\<close> and \<open>/\<close> always are, unless
  \<open>stat\<close> fails there. The fuel counts both, and running out of it would be Go's stack
  overflow; \<open>ensureParentDir_stops\<close> shows that it does not happen.\<close>

fun ensureParentDir_loop :: "nat \<Rightarrow> tar_unpacker \<Rightarrow> string \<Rightarrow> unit usys" where
  "ensureParentDir_loop 0 u childPath = throw (Panic ''stack overflow'')"
| "ensureParentDir_loop (Suc n) u childPath =
     (let parentDirPath = filepath_dir childPath in
      checked (u_stat parentDirPath)
        (\<lambda>_. checked (ensureParentDir_loop n u parentDirPath) throw (\<lambda>_.
             checked (u_mkdir parentDirPath defaultDirectoryFileMode)
               (wrapping (''creating parent dir `'' @ parentDirPath @ ''`'')) (\<lambda>_.
             checked (u_chmod parentDirPath defaultDirectoryFileMode) throw (\<lambda>_.
             u_chown parentDirPath (TranslateUID (idTranslator u) defaultDirectoryUid)
               (TranslateGID (idTranslator u) defaultDirectoryGid)))))
        (\<lambda>_. ret ()))"

definition ensureParentDir :: "tar_unpacker \<Rightarrow> string \<Rightarrow> unit usys" where
  "ensureParentDir u childPath = (\<lambda>v.
     ensureParentDir_loop (Suc (length childPath + length (vfaults v))) u childPath v)"

text \<open>The hint that replaces the error of a denied creation.\<close>

definition no_write_permission :: "tar_header \<Rightarrow> goerr" where
  "no_write_permission h = Msg ([CHR 0x27] @ ''/'' @ filepath_dir (Name h) @ [CHR 0x27] @
     '' does not give write permission to its owner. This image can only be unpacked using uid and gid mappings, or by running as root.'')"

definition createDirectory :: "tar_unpacker \<Rightarrow> string \<Rightarrow> tar_header \<Rightarrow> unit usys" where
  "createDirectory u p h =
     checked
       (checked (u_stat p)
          (\<lambda>_. checked (u_mkdir p (hdr_mode h))
                 (\<lambda>e. if is_permission e then throw (no_write_permission h)
                      else wrapping (''creating directory `'' @ p @ ''`'') e) ret)
          (\<lambda>_. ret ())) throw (\<lambda>_.
     let uid = TranslateUID (idTranslator u) (Uid h); gid = TranslateGID (idTranslator u) (Gid h) in
     checked (u_chown p uid gid)
       (wrapping (''chowning directory '' @ itoa uid @ '':'' @ itoa gid @ '' `'' @ p @ ''`'')) (\<lambda>_.
     checked (u_chmod p (hdr_mode h)) (wrapping (''chmoding directory `'' @ p @ ''`'')) (\<lambda>_.
     checked (changeModTime p (ModTime h)) (wrapping (''setting the modtime for directory '' @ p)) ret)))"

definition createSymlink :: "tar_unpacker \<Rightarrow> string \<Rightarrow> tar_header \<Rightarrow> unit usys" where
  "createSymlink u p h =
     checked
       (checked (u_lstat p) (\<lambda>_. ret ())
          (\<lambda>_. checked (u_remove p) (wrapping (''removing file `'' @ p @ ''`'')) ret)) throw (\<lambda>_.
     checked (u_symlink (Linkname h) p) (wrapping (''create symlink `'' @ Linkname h @ ''` -> `'' @ p @ ''`'')) (\<lambda>_.
     checked (changeModTime p (ModTime h)) (wrapping (''setting the modtime for the symlink `'' @ p @ ''`'')) (\<lambda>_.
     let uid = TranslateUID (idTranslator u) (Uid h); gid = TranslateGID (idTranslator u) (Gid h) in
     checked (u_lchown p uid gid)
       (wrapping (''chowning link '' @ itoa uid @ '':'' @ itoa gid @ '' `'' @ p @ ''`'')) ret)))"

definition createLink :: "string \<Rightarrow> tar_header \<Rightarrow> unpack_spec \<Rightarrow> unit usys" where
  "createLink p h spec = u_link (filepath_join [targetPath spec, baseDirectory spec, Linkname h]) p"

text \<open>\<open>io.Copy\<close> writes what the reader delivers and then reports its error.\<close>

definition copy_body :: "string \<Rightarrow> nat \<Rightarrow> tar_entry \<Rightarrow> int usys" where
  "copy_body p i e =
     checked (if body e = [] then ret () else u_write p i (body e)) throw (\<lambda>_.
     (case body_error e of Some err \<Rightarrow> throw err | None \<Rightarrow> ret (int (length (body e)))))"

definition set_xattr :: "string \<Rightarrow> string \<times> string \<Rightarrow> unit usys" where
  "set_xattr p = (\<lambda>(key, val).
     if prefix ''SCHILY.xattr'' key then
       (let xattrName = trim_prefix key ''SCHILY.xattr.'' in
        checked (u_lsetxattr p xattrName val)
          (wrapping (''setting xattr `'' @ xattrName @ ''` for file `'' @ p @ ''`'')) ret)
     else ret ())"

definition createRegularFile :: "tar_unpacker \<Rightarrow> string \<Rightarrow> tar_entry \<Rightarrow> int usys" where
  "createRegularFile u p e =
     (let h = header e in
      checked (u_open_trunc p (hdr_mode h))
        (\<lambda>err. if is_permission err then throw (no_write_permission h)
              else wrapping (''creating file `'' @ p @ ''`'') err) (\<lambda>i.
      checked (copy_body p i e)
        (\<lambda>err. logged (u_close p) (wrapping (''writing to file `'' @ p @ ''`'') err)) (\<lambda>fileSize.
      checked (u_close p) (wrapping (''closing file `'' @ p @ ''`'')) (\<lambda>_.
      let uid = TranslateUID (idTranslator u) (Uid h); gid = TranslateGID (idTranslator u) (Gid h) in
      checked (u_chown p uid gid)
        (wrapping (''chowning file '' @ itoa uid @ '':'' @ itoa gid @ '' `'' @ p @ ''`'')) (\<lambda>_.
      checked (u_chmod p (hdr_mode h)) (wrapping (''chmoding file `'' @ p @ ''`'')) (\<lambda>_.
      checked (changeModTime p (ModTime h)) (wrapping (''setting the modtime for file `'' @ p @ ''`'')) (\<lambda>_.
      checked (u_ranged (PAXRecords h)) throw (\<lambda>records.
      checked (for_each records (set_xattr p)) throw (\<lambda>_.
      ret fileSize)))))))))"

definition handleEntry :: "tar_unpacker \<Rightarrow> string \<Rightarrow> tar_entry \<Rightarrow> unpack_spec \<Rightarrow> int usys" where
  "handleEntry u entryPath e spec =
     checked (ensureParentDir u entryPath) throw (\<lambda>_.
     (case Typeflag (header e) of
        TypeBlock \<Rightarrow> ret 0
      | TypeChar \<Rightarrow> ret 0
      | TypeLink \<Rightarrow> checked (createLink entryPath (header e) spec) throw (\<lambda>_. ret 0)
      | TypeSymlink \<Rightarrow> checked (createSymlink u entryPath (header e)) throw (\<lambda>_. ret 0)
      | TypeDir \<Rightarrow> checked (createDirectory u entryPath (header e)) throw (\<lambda>_. ret 0)
      | TypeReg \<Rightarrow> createRegularFile u entryPath e
      | TypeOther \<Rightarrow> ret 0))"

section \<open>The stream\<close>

definition entryPath :: "unpack_spec \<Rightarrow> tar_header \<Rightarrow> string" where
  "entryPath spec h = filepath_join [baseDirectory spec, Name h]"

fun unpack_entries :: "tar_unpacker \<Rightarrow> unpack_spec \<Rightarrow> tar_entry list \<Rightarrow> unpack_output \<Rightarrow> unpack_output usys" where
  "unpack_entries u spec [] acc =
     (case tar_error (tar_data spec) of Some e \<Rightarrow> throw e | None \<Rightarrow> ret acc)"
| "unpack_entries u spec (e # es) acc =
     (let h = header e; entryTargetPath = filepath_join [targetPath spec, entryPath spec h] in
      if contains (Name h) ''.wh..wh..opq'' then
        unpack_entries u spec es (acc\<lparr>opaqueWhiteouts := opaqueWhiteouts acc @ [entryPath spec h]\<rparr>)
      else if contains (Name h) ''.wh.'' then
        checked (RemoveWhiteout u entryTargetPath) throw (\<lambda>_. unpack_entries u spec es acc)
      else checked (handleEntry u entryTargetPath e spec) throw (\<lambda>entrySize.
        unpack_entries u spec es (acc\<lparr>bytesWritten := i64 (bytesWritten acc + entrySize)\<rparr>)))"

definition Unpack :: "tar_unpacker \<Rightarrow> unpack_spec \<Rightarrow> unpack_output usys" where
  "Unpack u spec = checked (safeMkdir (targetPath spec) 493) throw (\<lambda>_.
     unpack_entries u spec (tar_entries (tar_data spec)) \<lparr>bytesWritten = 0, opaqueWhiteouts = []\<rparr>)"

end
