(* ===== verification/Sandbox.thy ===== *)
theory Sandbox
  imports Overlay Puller Unpacker
begin

text \<open>
  Package \<open>sandbox\<close>: the program runs itself again under the name of a registered command,
  possibly in a new user namespace and with another root directory; and the four commands
  the packages register, with the unpacker that drives the one for tar streams.

  A process is a function that gives its standard output and its exit status. What it
  does to the machine stays, its working directory and its root do not. Names inside \<open>chroot\<close> are
  those of the subtree. In the subtree the unpacker works on inodes; what it leaves is read
  back by name, so that names which shared an inode become files with equal content.
\<close>

definition newline :: string where "newline = [CHR 0x0A]"

text \<open>What an extra file opened before the \<open>chroot\<close> still shows: the entries of the directory.\<close>

type_synonym extra_dir = "(string \<times> node) list"

text \<open>A registered function: its standard input, the extra files and \<open>os.Args\<close>; its output.\<close>

type_synonym action = "string \<Rightarrow> extra_dir list \<Rightarrow> string list \<Rightarrow> string sys"

type_synonym process = "(string \<times> nat) sys"

section \<open>Inside a process\<close>

definition exiting :: "string sys \<Rightarrow> process" where
  "exiting m = (\<lambda>w. case m w of
     (Inr out, w') \<Rightarrow> (Inr (out, 0), w')
   | (Inl e, w') \<Rightarrow> (Inr (if is_panic e then ([], 2) else (error_text e @ newline, 1)), w'))"

definition open_extra :: "string \<Rightarrow> extra_dir sys" where
  "open_extra p = checked (os_open p) throw (\<lambda>_. (\<lambda>w.
     (Inr (concat (map (\<lambda>n. case nodes w (at_path w p @ [n]) of None \<Rightarrow> [] | Some x \<Rightarrow> [(n, x)])
        (child_names w (at_path w p)))), w)))"

fun open_extras :: "string list \<Rightarrow> extra_dir list sys" where
  "open_extras [] = ret []"
| "open_extras (f # fs) = checked (open_extra (filepath_clean f)) throw (\<lambda>x.
     checked (open_extras fs) throw (\<lambda>xs. ret (x # xs)))"

definition enter_root :: "path \<Rightarrow> world \<Rightarrow> world" where
  "enter_root r w = w\<lparr>tree := map (\<lambda>(q, n). (drop (length r) q, n)) (filter (\<lambda>(q, _). prefix r q) (tree w)),
     mount_points := map (drop (length r)) (filter (prefix r) (mount_points w)), workdir := []\<rparr>"

definition leave_root :: "path \<Rightarrow> world \<Rightarrow> world \<Rightarrow> world" where
  "leave_root r w v = v\<lparr>tree := map (\<lambda>(q, n). (r @ q, n)) (tree v) @ filter (\<lambda>(q, _). \<not> prefix r q) (tree w),
     mount_points := map ((@) r) (mount_points v) @ filter (\<lambda>q. \<not> prefix r q) (mount_points w),
     workdir := workdir w\<rparr>"

definition in_root :: "path \<Rightarrow> 'a sys \<Rightarrow> 'a sys" where
  "in_root r m = (\<lambda>w. case m (enter_root r w) of (x, v) \<Rightarrow> (x, leave_root r w v))"

definition chroot_to :: "string \<Rightarrow> path sys" where
  "chroot_to p =
     checked (faulty (\<lambda>e k. throw (SysErr e)) (\<lambda>w.
        let q = at_path w p in
        if is_dir w q then (Inr q, w)
        else (Inl (SysErr (if nodes w q = None then absent_errno w q else ENOTDIR)), w)))
       (\<lambda>e. throw (Msg (''could not chroot: '' @ error_text e))) (\<lambda>root.
     checked (faulty (sysfail ''chdir'' ''/'') (ret ()))
       (\<lambda>e. throw (Msg (''could not chdir: '' @ error_text e))) (\<lambda>_. ret root))"

definition run_action :: "action \<Rightarrow> string \<Rightarrow> ReexecSpec \<Rightarrow> string sys" where
  "run_action act commandName spec =
     checked (open_extras (ExtraFiles spec)) throw (\<lambda>extraFiles.
     let running = act (Stdin spec) extraFiles (commandName # Args spec) in
     if ChrootDir spec \<noteq> [] then checked (chroot_to (ChrootDir spec)) throw (\<lambda>root. in_root root running)
     else (\<lambda>w. case running w of (r, v) \<Rightarrow> (r, v\<lparr>workdir := workdir w\<rparr>)))"

section \<open>The reexecer\<close>

record sandbox =
  re_id_mapper :: id_mapper
  re_mappings :: IDMappings
  registered :: "string \<Rightarrow> action option"

definition isRegistered :: "sandbox \<Rightarrow> string \<Rightarrow> bool" where
  "isRegistered r commandName \<longleftrightarrow> registered r commandName \<noteq> None"

definition the_action :: "sandbox \<Rightarrow> string \<Rightarrow> action" where
  "the_action r commandName = (case registered r commandName of
     Some act \<Rightarrow> act | None \<Rightarrow> (\<lambda>stdin extra args. throw (Panic ''not registered'')))"

definition command_process :: "sandbox \<Rightarrow> string \<Rightarrow> ReexecSpec \<Rightarrow> process" where
  "command_process r commandName spec = exiting (run_action (the_action r commandName) commandName spec)"

definition exit_text :: "nat \<Rightarrow> string" where
  "exit_text status = ''exit status '' @ nat_digits status"

text \<open>The wrapper waits for the mappings and runs the command, whose output it shares.\<close>

definition wrapper_process :: "sandbox \<Rightarrow> string \<Rightarrow> ReexecSpec \<Rightarrow> process" where
  "wrapper_process r commandName spec =
     checked (command_process r commandName spec) throw (\<lambda>(out, status).
     ret (if status = 0 then (out, 0) else (out @ exit_text status @ newline, 1)))"

definition process_call :: "unit sys" where
  "process_call = faulty (\<lambda>e k. throw (SysErr e)) (ret ())"

definition wait_for :: "process \<Rightarrow> string sys" where
  "wait_for p = checked p throw (\<lambda>(out, status).
     if status = 0 then ret out
     else throw (Msg (''waiting for the reexec command failed: '' @ out @ '': '' @ exit_text status)))"

definition launch :: "sandbox \<Rightarrow> bool \<Rightarrow> unit sys" where
  "launch r cloneUserns =
     checked process_call (wrapping ''creating reexec control pipe'') (\<lambda>_.
     checked process_call (wrapping ''starting reexec command'') (\<lambda>_.
     if cloneUserns then
       checked nonce throw (\<lambda>child.
       checked (setIDMappings (re_id_mapper r) (re_mappings r) child) throw (\<lambda>_.
       checked process_call (wrapping ''writing to control pipe'') ret))
     else ret ()))"

definition Reexec :: "sandbox \<Rightarrow> reexecer" where
  "Reexec r commandName spec =
     (if \<not> isRegistered r commandName then throw (Msg (''unregistered command: '' @ commandName))
      else checked (launch r (CloneUserns spec)) throw (\<lambda>_.
        wait_for (if CloneUserns spec then wrapper_process r commandName spec
                  else command_process r commandName spec)))"

section \<open>Unpacking in the sandbox\<close>

fun node_inode :: "node \<Rightarrow> inode" where
  "node_inode (Dir a) = \<lparr>kind = KDir, imode = int (mode a), iuid = owner_uid a, igid = owner_gid a, iprojid = projid a, imtime = 0, ixattrs = xattrs a\<rparr>"
| "node_inode (Regular a c) = \<lparr>kind = KFile c, imode = int (mode a), iuid = owner_uid a, igid = owner_gid a, iprojid = projid a, imtime = 0, ixattrs = xattrs a\<rparr>"
| "node_inode (Symlink t) = \<lparr>kind = KLink t, imode = 511, iuid = 0, igid = 0, iprojid = 0, imtime = 0, ixattrs = []\<rparr>"
| "node_inode (CharDev a d) = \<lparr>kind = KDev d, imode = int (mode a), iuid = owner_uid a, igid = owner_gid a, iprojid = projid a, imtime = 0, ixattrs = xattrs a\<rparr>"
| "node_inode (BlockDev a d) = \<lparr>kind = KBlock d, imode = int (mode a), iuid = owner_uid a, igid = owner_gid a, iprojid = projid a, imtime = 0, ixattrs = xattrs a\<rparr>"

definition inode_attr :: "inode \<Rightarrow> attr" where
  "inode_attr x = \<lparr>mode = nat (imode x), owner_uid = iuid x, owner_gid = igid x, projid = iprojid x, xattrs = ixattrs x\<rparr>"

definition inode_node :: "inode \<Rightarrow> node" where
  "inode_node x = (case kind x of
     KDir \<Rightarrow> Dir (inode_attr x) | KFile c \<Rightarrow> Regular (inode_attr x) c
   | KLink t \<Rightarrow> Symlink t | KDev d \<Rightarrow> CharDev (inode_attr x) d
   | KBlock d \<Rightarrow> BlockDev (inode_attr x) d)"

definition identity_ids :: "int \<Rightarrow> int option" where
  "identity_ids i = Some i"

definition load_vfs :: "(int \<Rightarrow> int option) \<Rightarrow> (int \<Rightarrow> int option) \<Rightarrow> node option \<Rightarrow> world \<Rightarrow> vfs" where
  "load_vfs uids gids dev w =
     (let paths = remdups (map fst (tree w)); n = length paths in
      \<lparr>entries = zip paths [0..<n],
       inodes = map_of (zip [0..<n] (map (\<lambda>q. node_inode (the (nodes w q))) paths) @
         (case dev of None \<Rightarrow> [] | Some x \<Rightarrow> [(n, node_inode x)])),
       next_ino = Suc n, vfaults = faults w, vumask = int (umask w),
       fs_uid = (case uids 0 of Some u \<Rightarrow> u | None \<Rightarrow> euid w),
       fs_gid = (case gids 0 of Some g \<Rightarrow> g | None \<Rightarrow> rgid w),
       host_uid = uids, host_gid = gids, vnonces = nonces w, clock = 0\<rparr>)"

definition vfs_tree :: "vfs \<Rightarrow> (path \<times> node) list" where
  "vfs_tree v = concat (map (\<lambda>(q, i). case inodes v i of None \<Rightarrow> [] | Some x \<Rightarrow> [(q, inode_node x)]) (entries v))"

definition on_inodes :: "(int \<Rightarrow> int option) \<Rightarrow> (int \<Rightarrow> int option) \<Rightarrow> node option \<Rightarrow> (nat option \<Rightarrow> 'a usys) \<Rightarrow> 'a sys" where
  "on_inodes uids gids dev m = (\<lambda>w.
     case m (map_option (\<lambda>_. length (remdups (map fst (tree w)))) dev) (load_vfs uids gids dev w) of
       (r, v) \<Rightarrow> (r, w\<lparr>tree := vfs_tree v, faults := vfaults v, nonces := vnonces v\<rparr>))"

definition mapping_to_json :: "IDMappingSpec \<Rightarrow> json" where
  "mapping_to_json m = JObj [(''HostID'', JNum (HostID m)), (''NamespaceID'', JNum (NamespaceID m)), (''Size'', JNum (map_size m))]"

definition mapping_of_json :: "json \<Rightarrow> IDMappingSpec option" where
  "mapping_of_json v = Option.bind (as_obj v) (\<lambda>kvs.
     Option.bind (as_int64 (json_field ''HostID'' kvs)) (\<lambda>h.
     Option.bind (as_int64 (json_field ''NamespaceID'' kvs)) (\<lambda>n.
     Option.bind (as_int64 (json_field ''Size'' kvs)) (\<lambda>s.
     Some \<lparr>HostID = h, NamespaceID = n, map_size = s\<rparr>))))"

fun mappings_of_json :: "json \<Rightarrow> IDMappingSpec list option" where
  "mappings_of_json (JArr xs) = those (map mapping_of_json xs)"
| "mappings_of_json JNull = Some []"
| "mappings_of_json _ = None"

definition output_to_json :: "UnpackOutput \<Rightarrow> json" where
  "output_to_json u = JObj [(''BytesWritten'', JNum (BytesWritten u)), (''OpaqueWhiteouts'', JArr (map JStr (OpaqueWhiteouts u)))]"

definition output_of_json :: "json \<Rightarrow> UnpackOutput option" where
  "output_of_json v = Option.bind (as_obj v) (\<lambda>kvs.
     Option.bind (as_int64 (json_field ''BytesWritten'' kvs)) (\<lambda>n.
     Option.bind (as_strs (json_field ''OpaqueWhiteouts'' kvs)) (\<lambda>ws.
     Some \<lparr>BytesWritten = n, OpaqueWhiteouts = ws\<rparr>)))"

definition FormatBool :: "bool \<Rightarrow> string" where
  "FormatBool b = (if b then ''true'' else ''false'')"

definition ParseBool :: "string \<Rightarrow> bool option" where
  "ParseBool s =
     (if s \<in> {''1'', ''t'', ''T'', ''TRUE'', ''true'', ''True''} then Some True
      else if s \<in> {''0'', ''f'', ''F'', ''FALSE'', ''false'', ''False''} then Some False
      else None)"

text \<open>
  The command \<open>unpack\<close>. \<open>read_tar\<close> is \<open>archive/tar\<close>; \<open>uids\<close> and \<open>gids\<close> are the mappings of the user
  namespace the process runs in.
\<close>

definition unpack_command ::
    "(string \<Rightarrow> tar_stream) \<Rightarrow> (int \<Rightarrow> int option) \<Rightarrow> (int \<Rightarrow> int option) \<Rightarrow> action" where
  "unpack_command read_tar uids gids stdin extraFiles args =
     (if length args \<noteq> 6 then throw (Msg ''wrong number of arguments'') else
      case ParseBool (args ! 5) of
        None \<Rightarrow> throw (Wrapped ''parsing 'shouldMapUidGid' to bool'' (Msg (''strconv.ParseBool: parsing '' @ args ! 5 @ '': invalid syntax'')))
      | Some shouldMapUidGid \<Rightarrow>
        if length extraFiles \<noteq> 1 then throw (Msg ''wrong number of extra files'') else
        (case Option.bind (json_unmarshal (args ! 3)) mappings_of_json of
           None \<Rightarrow> throw (Wrapped ''unmarshaling uid mappings'' (Msg ''invalid JSON''))
         | Some uidMappings \<Rightarrow>
           (case Option.bind (json_unmarshal (args ! 4)) mappings_of_json of
              None \<Rightarrow> throw (Wrapped ''unmarshaling gid mappings'' (Msg ''invalid JSON''))
            | Some gidMappings \<Rightarrow>
              let translator = (if shouldMapUidGid then NewIDTranslator uidMappings gidMappings else NewNoopIDTranslator) in
              checked (on_inodes uids gids (map_of (hd extraFiles) WhiteoutDevice)
                 (\<lambda>dev. Unpack \<lparr>whiteout_dev = dev, idTranslator = translator\<rparr>
                    \<lparr>tar_data = read_tar stdin, targetPath = args ! 1, baseDirectory = args ! 2\<rparr>))
                (wrapping ''unpacking-failed'') (\<lambda>unpackOutput.
              ret (print_json (output_to_json \<lparr>BytesWritten = bytesWritten unpackOutput,
                OpaqueWhiteouts = opaqueWhiteouts unpackOutput\<rparr>) @ newline)))))"

record ns_unpacker =
  shouldCloneUserNsOnUnpack :: bool
  un_store :: string
  un_reexec :: reexecer
  un_mappings :: IDMappings

text \<open>A nil slice of mappings is printed as \<open>null\<close>, which decodes to the same.\<close>

definition mappings_json :: "IDMappingSpec list \<Rightarrow> string" where
  "mappings_json ms = print_json (if ms = [] then JNull else JArr (map mapping_to_json ms))"

definition ns_Unpack :: "ns_unpacker \<Rightarrow> UnpackSpec \<Rightarrow> UnpackOutput sys" where
  "ns_Unpack u spec =
     checked (un_reexec u ''unpack'' \<lparr>Stdin = Stream spec, ChrootDir = TargetPath spec, ExtraFiles = [un_store u],
         Args = [''.'', unpack_base_directory spec, mappings_json (UIDMappings (un_mappings u)),
           mappings_json (GIDMappings (un_mappings u)), FormatBool (\<not> shouldCloneUserNsOnUnpack u)],
         CloneUserns = shouldCloneUserNsOnUnpack u\<rparr>)
       (wrapping ''failed to unpack: '') (\<lambda>out.
     (case Option.bind (json_decode out) output_of_json of
        None \<Rightarrow> throw (Wrapped ''invalid unpack output'' (Msg ''invalid JSON''))
      | Some unpackOutput \<Rightarrow> ret unpackOutput))"

section \<open>What is registered\<close>

definition ensure_base_command :: "nat \<Rightarrow> action" where
  "ensure_base_command fuel stdin extraFiles args =
     (if length args < 4 then throw (Panic ''index out of range'')
      else checked (ensureBaseDirectoryExists fuel (args ! 1) (args ! 2) (args ! 3)) throw (\<lambda>r.
        case r of None \<Rightarrow> throw (Panic ''stack overflow'') | Some _ \<Rightarrow> ret []))"

definition commands_of ::
    "(string list \<Rightarrow> exec_result sys) \<Rightarrow> (int \<Rightarrow> goerr + string) \<Rightarrow> (string \<Rightarrow> tar_stream) \<Rightarrow>
     (int \<Rightarrow> int option) \<Rightarrow> (int \<Rightarrow> int option) \<Rightarrow> nat \<Rightarrow> string \<Rightarrow> action option" where
  "commands_of tardis sid read_tar uids gids fuel commandName =
     (if commandName = ''destroy-volume'' then
        Some (\<lambda>stdin extra args. checked (destroy_volume_command tardis sid args) throw (\<lambda>_. ret []))
      else if commandName = ''destroy-image'' then
        Some (\<lambda>stdin extra args. checked (destroy_image_command tardis sid args) throw (\<lambda>_. ret []))
      else if commandName = ''ensure-base'' then Some (ensure_base_command fuel)
      else if commandName = ''unpack'' then Some (unpack_command read_tar uids gids)
      else None)"

end
