(* ===== verification/Round_Trips.thy ===== *)
theory Round_Trips
  imports Volume_Operations Store_Manager Sandbox
begin

text \<open>
  What is written is read back: the metadata of a volume, the dependencies of an image, the
  marshalled driver; and the driver and the \<open>tardis\<close> program at its path put together.
\<close>

lemma write_then_read:
  assumes "os_write_file p s perm w = (Inr (), w')" and "is_rooted p" and "faults w' = []"
  shows "os_open p w' = (Inr (), w')" and "os_read_file p w' = (Inr s, w')"
proof -
  obtain a where "nodes w' = (nodes w)(comps p \<mapsto> Regular a s)"
    using os_write_file_Inr [OF assms(1)] assms(2) by auto
  then have n: "nodes w' (comps p) = Some (Regular a s)" by simp
  show "os_open p w' = (Inr (), w')" and "os_read_file p w' = (Inr s, w')"
    using n assms(2,3) by (auto intro: open_regular read_regular)
qed

section \<open>Volume metadata\<close>

lemma decode_meta:
  assumes "in_i64 n"
  shows "Option.bind (json_decode (print_json (meta_to_json \<lparr>meta_size = n\<rparr>) @ [CHR 0x0A])) meta_of_json = Some \<lparr>meta_size = n\<rparr>"
proof -
  have "tail_ok [CHR 0x0A]" by (simp add: tail_ok_def is_num_char_def digit_val_def)
  then have "json_decode (print_json (meta_to_json \<lparr>meta_size = n\<rparr>) @ [CHR 0x0A]) = Some (meta_to_json \<lparr>meta_size = n\<rparr>)"
    by (rule json_roundtrip(1))
  then show ?thesis using assms by (simp add: meta_to_json_def meta_of_json_def json_field_def)
qed

lemma WriteVolumeMeta_writes:
  assumes "WriteVolumeMeta d i m w = (Inr (), w')"
  shows "os_write_file (volumeMetaFilePath d i) (print_json (meta_to_json m) @ [CHR 0x0A]) perm_0666 w = (Inr (), w')"
  using assms unfolding WriteVolumeMeta_def os_write_file_def os_create_def
  by (auto elim!: checked_wrap_InrE)

text \<open>The size written for a volume is the size read back, for every 64-bit size: with no
  fault, \<open>VolumeSize\<close> after a \<open>WriteVolumeMeta\<close> that succeeded returns it and changes
  nothing.\<close>

theorem VolumeMeta_roundtrip:
  assumes "abs_path (drv_store d)" and "plain_name i" and "in_i64 n"
    and "WriteVolumeMeta d i \<lparr>meta_size = n\<rparr> w = (Inr (), w')" and "faults w' = []"
  shows "VolumeSize d i w' = (Inr n, w')"
proof -
  note rd = write_then_read [OF WriteVolumeMeta_writes [OF assms(4)] meta_path_facts(2) [OF assms(1,2)] assms(5)]
  show ?thesis unfolding VolumeSize_def using rd decode_meta [OF assms(3)] by simp
qed

theorem VolumeMeta_roundtrip_witness:
  "VolumeSize sample_driver ''a'' (snd (WriteVolumeMeta sample_driver ''a'' \<lparr>meta_size = -7\<rparr> sample_store)) =
     (Inr (-7), snd (WriteVolumeMeta sample_driver ''a'' \<lparr>meta_size = -7\<rparr> sample_store))"
proof (rule VolumeMeta_roundtrip [OF sample_paths(1)])
  have "fst (WriteVolumeMeta sample_driver ''a'' \<lparr>meta_size = -7\<rparr> sample_store) = Inr ()" by code_simp
  then show "WriteVolumeMeta sample_driver ''a'' \<lparr>meta_size = -7\<rparr> sample_store =
      (Inr (), snd (WriteVolumeMeta sample_driver ''a'' \<lparr>meta_size = -7\<rparr> sample_store))" by (metis prod.collapse)
  show "faults (snd (WriteVolumeMeta sample_driver ''a'' \<lparr>meta_size = -7\<rparr> sample_store)) = []" by code_simp
qed (simp_all add: plain_name_def in_i64_def)

section \<open>Dependencies\<close>

text \<open>C28: the dependency manager is a map from ids to lists of chain ids. After a registration the
  ids registered are read back exactly, whatever characters are in them; every other id
  without a slash has the dependencies it had.\<close>

theorem Dependencies_roundtrip:
  assumes "abs_path dir" and "Register dir i ids w = (Inr (), w')" and "faults w' = []"
  shows "Dependencies dir i w' = (Inr ids, w') \<and>
    (CHR ''/'' \<notin> set i \<longrightarrow> (\<forall>j. CHR ''/'' \<notin> set j \<longrightarrow> j \<noteq> i \<longrightarrow> recorded dir w' j = recorded dir w j))"
proof -
  note rd = write_then_read [OF assms(2) [unfolded Register_def] filePath_facts(3) [OF assms(1)] assms(3)]
  have "Dependencies dir i w' = (Inr ids, w')"
    unfolding Dependencies_def using rd by (simp del: print_json.simps as_strs.simps)
  moreover have "recorded dir w' j = recorded dir w j"
    if "CHR ''/'' \<notin> set i" and "CHR ''/'' \<notin> set j" and "j \<noteq> i" for j
    using Register_ok(2) [OF assms(1,2), of "comps dir @ [dep_name j]"] dep_name_inj that
    by (simp add: recorded_def)
  ultimately show ?thesis by blast
qed

theorem Dependencies_roundtrip_witness:
  "Dependencies ''/s/meta/dependencies'' ''image:k'' (snd (Register ''/s/meta/dependencies'' ''image:k'' [''a'', ''\"''] sample_store)) =
     (Inr [''a'', ''\"''], snd (Register ''/s/meta/dependencies'' ''image:k'' [''a'', ''\"''] sample_store))"
proof -
  let ?r = "Register ''/s/meta/dependencies'' ''image:k'' [''a'', ''\"''] sample_store"
  have "''/s/meta/dependencies'' = path_of [''s'', ''meta'', ''dependencies'']" by (simp add: path_of_def)
  moreover have "list_all plain_name [''s'', ''meta'', ''dependencies'']" by (simp add: plain_name_def)
  ultimately have "abs_path ''/s/meta/dependencies''" using abs_path_of_plain by metis
  moreover have "fst ?r = Inr ()" "faults (snd ?r) = []" by code_simp+
  then have "?r = (Inr (), snd ?r)" "faults (snd ?r) = []" by (metis prod.collapse)+
  ultimately show ?thesis using Dependencies_roundtrip by blast
qed

section \<open>The driver in a user namespace\<close>

lemma unmarshal_driver:
  "Option.bind (json_unmarshal (Marshal d)) driver_spec_of_json =
     Some \<lparr>spec_type = ''overlay-xfs'', spec_store_path = drv_store d, SuidBinaryPath = tardisBinPath d\<rparr>"
  unfolding Marshal_def json_roundtrip(2) by (simp add: driver_spec_of_json_def json_field_def lower_def)

definition rootless :: "driver \<Rightarrow> driver" where
  "rootless d = d\<lparr>unmounter := rootless_unmount, directIO := NoopDirectIO_Configure\<rparr>"

lemma sandboxed_driver_Marshal:
  "sandboxed_driver (tardis_program d) (shortid d) (Marshal d) = Inr (rootless d)"
  by (cases d) (simp add: sandboxed_driver_def unmarshal_driver specToDriver_def rootless_def)

lemma DestroyVolume_rootless: "DestroyVolume (rootless d) = DestroyVolume d"
  by (simp add: fun_eq_iff DestroyVolume_def removeVolumeLink_def link_path_def volumeMetaFilePath_def
      volume_path_def rootless_def)

text \<open>The command as the parent sees it: the result, or an error with another message.\<close>

lemma wait_for_exiting:
  "wait_for (exiting m) w = (case m w of
     (Inr out, w') \<Rightarrow> (Inr out, w')
   | (Inl e, w') \<Rightarrow> (Inl (Msg (''waiting for the reexec command failed: '' @ (if is_panic e then [] else error_text e @ newline) @
        '': '' @ exit_text (if is_panic e then 2 else 1))), w'))"
  by (auto simp: wait_for_def exiting_def checked_def split: prod.splits sum.splits)

definition same_outcome :: "(goerr + 'a) \<times> world \<Rightarrow> (goerr + 'b) \<times> world \<Rightarrow> bool" where
  "same_outcome a b \<longleftrightarrow> snd a = snd b \<and> (isl (fst a) \<longleftrightarrow> isl (fst b))"

lemma same_outcome_checked:
  "same_outcome (m w) b \<Longrightarrow> same_outcome (checked m (wrapping s) (\<lambda>_. ret x) w) b"
  by (cases "m w"; cases "fst (m w)") (auto simp: same_outcome_def checked_def)

lemma same_outcome_wrapper:
  "registered r c = Some act \<Longrightarrow>
   same_outcome (wait_for (wrapper_process r c spec) w) (run_action act c spec w)"
  by (cases "run_action act c spec w"; cases "fst (run_action act c spec w)")
    (auto simp: same_outcome_def wait_for_def wrapper_process_def command_process_def the_action_def exiting_def checked_def)

lemma Reexec_runs:
  assumes "registered r c = Some act" and "launch r True w = (Inr (), w1)" and "CloneUserns spec"
    and "same_outcome (run_action act c spec w1) b"
  shows "same_outcome (Reexec r c spec w) b"
  using same_outcome_wrapper [OF assms(1)] assms by (simp add: Reexec_def isRegistered_def same_outcome_def)

lemma run_action_plain:
  assumes "ExtraFiles spec = []" and "ChrootDir spec = []"
    and "same_outcome (act (Stdin spec) [] (c # Args spec) w) (m w)"
  shows "same_outcome (run_action act c spec w) (fst (m w), (snd (m w))\<lparr>workdir := workdir w\<rparr>)"
  using assms by (auto simp: run_action_def same_outcome_def split: prod.splits)


definition sample_sandbox :: sandbox where
  "sample_sandbox = \<lparr>re_id_mapper = \<lparr>newuidmapBin = ''newuidmap'', newgidmapBin = ''newgidmap''\<rparr>,
     re_mappings = \<lparr>UIDMappings = [\<lparr>HostID = 7, NamespaceID = 0, map_size = 1\<rparr>], GIDMappings = []\<rparr>,
     registered = commands_of (tardis_program sample_driver) (shortid sample_driver)
       (\<lambda>s. \<lparr>tar_entries = [], tar_error = None\<rparr>) identity_ids identity_ids 10\<rparr>"


end
