(* ===== verification/Tardis_Facts.thy ===== *)
theory Tardis_Facts
  imports Round_Trips
begin

text \<open>
  The promises of \<open>tardis\<close> to the driver that runs it: the statistics survive the way through
  the process's output, a quota that was set is the quota read back, and the allocation of
  project ids ends and hands out an id no image holds.
\<close>

section \<open>The driver and tardis\<close>

definition stats_in_range :: "VolumeStats \<Rightarrow> bool" where
  "stats_in_range s \<longleftrightarrow> in_i64 (TotalBytesUsed s) \<and> in_i64 (ExclusiveBytesUsed s) \<and>
     in_i64 (QuotaSizeBytes s) \<and> in_i64 (CommittedSpaceBytes s)"

lemma stats_roundtrip:
  assumes "stats_in_range s"
  shows "Option.bind (json_unmarshal (print_json (stats_to_json s))) stats_of_json = Some s"
  unfolding json_roundtrip(2) using assms
  by (cases s) (simp add: stats_to_json_def stats_of_json_def json_field_def lower_def stats_in_range_def)

lemma in_i64_sint [simp]: "in_i64 (sint (x :: 64 word))"
  using sint_greater_eq [of x] sint_less [of x] by (simp add: in_i64_def)

lemma tardis_VolumeStats_range:
  assumes "tardis_VolumeStats p w = (Inr s, w')"
  shows "stats_in_range s"
proof -
  from assms obtain w1 x q w2 v w3 where "listQuota p w1 = (Inr (x, q), w2)"
    and v: "readImageInfo p w2 = (Inr v, w3)"
    and s: "s = \<lparr>TotalBytesUsed = i64 (v + x), ExclusiveBytesUsed = x,
           QuotaSizeBytes = q, CommittedSpaceBytes = i64 (v + q)\<rparr>"
    unfolding tardis_VolumeStats_def
    by (auto elim!: if_missing_InrE checked_wrap_InrE)
  moreover from this have "in_i64 x" "in_i64 q"
    unfolding listQuota_def by (auto elim!: checked_wrap_InrE)
  ultimately show ?thesis by (simp add: stats_in_range_def)
qed

lemma runTardis_runs:
  assumes "look_path (tardisBinPath d) w = Some b" and "hasSUID d w = (Inr suid, w1)" and "suid \<or> euid w1 = 0"
  shows "runTardis d args w = checked (tardis_program d args) throw (\<lambda>r.
     case r of ExecFail out \<Rightarrow> throw (Wrapped ('' '' @ out) (Msg ''exit status 1'')) | ExecOk out \<Rightarrow> ret out) w1"
  using assms by (auto simp: runTardis_def tardisInPath_def lookup_path_def geteuid_def)

text \<open>C26: the driver's \<open>FetchStats\<close> is \<open>VolumeStats\<close> of the \<open>tardis\<close> it runs. With the binary in the
  path, and setuid or run as root, it returns the statistics that \<open>VolumeStats\<close> computes, unchanged by
  their way through a process's output, and the same machine; when \<open>VolumeStats\<close> fails it fails.\<close>

theorem FetchStats_equivalent:
  assumes "tardis_program d = tardis_process fuel"
    and "look_path (tardisBinPath d) w = Some b" and "hasSUID d w = (Inr suid, w1)" and "suid \<or> euid w1 = 0"
  shows "case tardis_VolumeStats p w1 of
      (Inr s, w2) \<Rightarrow> FetchStats d p w = (Inr s, w2)
    | (Inl e, w2) \<Rightarrow> \<exists>e'. FetchStats d p w = (Inl e', w2)"
proof -
  have run: "runTardis d [''stats'', ''--volume-path'', p] w =
     checked (tardis_process fuel [''stats'', ''--volume-path'', p]) throw (\<lambda>r.
       case r of ExecFail out \<Rightarrow> throw (Wrapped ('' '' @ out) (Msg ''exit status 1'')) | ExecOk out \<Rightarrow> ret out) w1"
    using runTardis_runs [OF assms(2-4)] assms(1) by simp
  obtain r w2 where st: "tardis_VolumeStats p w1 = (r, w2)" by (cases "tardis_VolumeStats p w1")
  show ?thesis
  proof (cases r)
    case (Inr s)
    then have "tardis_process fuel [''stats'', ''--volume-path'', p] w1 = (Inr (ExecOk (print_json (stats_to_json s))), w2)"
      using st by (simp add: tardis_process_def tardis_main_def StatsCommand_def)
    then have "runTardis d [''stats'', ''--volume-path'', p] w = (Inr (print_json (stats_to_json s)), w2)"
      unfolding run by simp
    then have "FetchStats d p w = (Inr s, w2)"
      unfolding FetchStats_def using stats_roundtrip [OF tardis_VolumeStats_range [OF st [unfolded Inr]]] by simp
    with st Inr show ?thesis by simp
  next
    case (Inl e)
    then show ?thesis using st
      by (cases "is_panic e") (auto simp: FetchStats_def run tardis_process_def tardis_main_def StatsCommand_def checked_def)
  qed
qed

definition tardis_world :: world where
  "tardis_world = sample_store\<lparr>tree := ([''bin'', ''tardis''], Regular root_attr []) #
     (in_store [''images'', ''i'', ''image_info''], Regular root_attr ''10'') # tree sample_store\<rparr>"

definition tardis_driver :: driver where
  "tardis_driver = sample_driver\<lparr>tardis_program := tardis_process 3\<rparr>"

lemma tardis_found: "hasSUID tardis_driver tardis_world = (Inr False, tardis_world)"
proof -
  have "look_path (tardisBinPath tardis_driver) tardis_world = Some ''/bin/tardis''"
    and "stat_node tardis_world (at_path tardis_world ''/bin/tardis'') = Inr (Regular root_attr [])"
    and "faults tardis_world = []" and "Bit_Operations.and (mode root_attr) 2048 = 0"
    by code_simp+
  then show ?thesis
    by (simp add: hasSUID_def lookup_path_def os_stat_def faulty_def)
qed

lemma tardis_stats:
  "tardis_VolumeStats ''/s/images/i'' tardis_world = (Inr \<lparr>TotalBytesUsed = 10, ExclusiveBytesUsed = 0,
     QuotaSizeBytes = 0, CommittedSpaceBytes = 10\<rparr>, tardis_world)"
proof -
  have "listQuota ''/s/images/i'' tardis_world = (Inr (0,0), tardis_world)"
    and "readImageInfo ''/s/images/i'' tardis_world = (Inr 10, tardis_world)"
    and "fst (os_stat ''/s/images/i'' tardis_world) = Inr (Dir root_attr)"
    and "snd (os_stat ''/s/images/i'' tardis_world) = tardis_world"
    by code_simp+
  then show ?thesis
    by (cases "os_stat ''/s/images/i'' tardis_world") (simp add: tardis_VolumeStats_def if_missing_def i64_def)
qed

theorem FetchStats_equivalent_witness:
  "\<exists>s. tardis_VolumeStats ''/s/images/i'' tardis_world = (Inr s, tardis_world) \<and> TotalBytesUsed s = 10 \<and>
     FetchStats tardis_driver ''/s/images/i'' tardis_world = (Inr s, tardis_world)"
proof -
  have "tardis_program tardis_driver = tardis_process 3" by (simp add: tardis_driver_def)
  moreover have "look_path (tardisBinPath tardis_driver) tardis_world = Some ''/bin/tardis''"
    and "euid tardis_world = 0"
    by code_simp+
  ultimately show ?thesis
    using FetchStats_equivalent [OF _ _ tardis_found, of 3 "''/bin/tardis''" "''/s/images/i''"]
    by (simp add: tardis_stats)
qed

section \<open>Project quotas\<close>

lemma openDir_Inr: "openDir p w = (Inr q, w') \<Longrightarrow> q = at_path w p \<and> is_dir w q \<and> nodes w' = nodes w \<and>
    workdir w' = workdir w \<and> quotas w' = quotas w"
  unfolding openDir_def c_opendir_def
  by (auto elim!: checked_throw_InrE faulty_cases split: option.splits if_splits)

lemma ioctl_getxattr_Inr: "ioctl_getxattr q w = (Inr i, w') \<Longrightarrow>
    (\<exists>a. nodes w q = Some (Dir a) \<and> projid a = i) \<and> nodes w' = nodes w \<and> workdir w' = workdir w \<and> quotas w' = quotas w"
  unfolding ioctl_getxattr_def
  by (auto elim!: faulty_cases split: option.splits node.splits)

lemma ioctl_setxattr_Inr: "ioctl_setxattr q i w = (Inr u, w') \<Longrightarrow>
    (\<exists>a. nodes w q = Some (Dir a) \<and> nodes w' = (nodes w)(q \<mapsto> Dir (a\<lparr>projid := i\<rparr>))) \<and> workdir w' = workdir w \<and> quotas w' = quotas w"
  unfolding ioctl_setxattr_def
  by (auto elim!: faulty_cases split: option.splits node.splits)

lemma setProjectID_Inr:
  assumes "setProjectID i p w = (Inr (), w')"
  shows "\<exists>a. nodes w' = (nodes w)(at_path w p \<mapsto> Dir (a\<lparr>projid := i\<rparr>))" and "workdir w' = workdir w"
proof -
  from assms obtain q w1 x w2 where o: "openDir p w = (Inr q, w1)" and g: "ioctl_getxattr q w1 = (Inr x, w2)"
    and s: "ioctl_setxattr q i w2 = (Inr (), w')"
    unfolding setProjectID_def by (auto elim!: checked_throw_InrE checked_wrap_InrE)
  from openDir_Inr [OF o] ioctl_getxattr_Inr [OF g] ioctl_setxattr_Inr [OF s]
  show "\<exists>a. nodes w' = (nodes w)(at_path w p \<mapsto> Dir (a\<lparr>projid := i\<rparr>))" and "workdir w' = workdir w"
    by auto
qed

lemma image_device:
  assumes abs: "abs_path store" and i: "plain_name i"
  shows "filepath_dir (filepath_dir (imagePath store i)) = store"
    and "comps (filepath_join [store, ''storeDevice'']) = comps store @ [''storeDevice'']"
    and "is_rooted (filepath_join [store, ''storeDevice''])"
    and "comps (imagePath store i) = comps store @ [ImageDirName, i]" and "is_rooted (imagePath store i)"
proof -
  have pl: "list_all plain_name (comps store)" using abs_path_plain [OF abs] .
  have p: "imagePath store i = path_of (comps store @ [ImageDirName, i])"
    using abs_path_join [OF abs, of "[ImageDirName, i]"] i by (simp add: imagePath_def)
  then show "filepath_dir (filepath_dir (imagePath store i)) = store"
    using filepath_dir_path_of [of "comps store @ [ImageDirName]" i] filepath_dir_path_of [OF pl, of ImageDirName]
      pl i abs_path_path_of [OF abs] by simp
  have "plain_name ''storeDevice''" by (simp add: plain_name_def)
  then show "comps (filepath_join [store, ''storeDevice'']) = comps store @ [''storeDevice'']"
    and "is_rooted (filepath_join [store, ''storeDevice''])"
    using join_comps [OF abs, of "[''storeDevice'']"] by simp_all
  show "comps (imagePath store i) = comps store @ [ImageDirName, i]" and "is_rooted (imagePath store i)"
    using pl i by (simp_all add: p)
qed

lemma getStoreDevicePath_Inr:
  assumes abs: "abs_path store" and i: "plain_name i" and run: "getStoreDevicePath (imagePath store i) w = (Inr p, w')"
  shows "p = filepath_join [store, ''storeDevice''] \<and> (\<forall>q. q \<noteq> comps store @ [''storeDevice''] \<longrightarrow> nodes w' q = nodes w q)"
proof -
  let ?dev = "filepath_join [store, ''storeDevice'']" and ?q = "comps store @ [''storeDevice'']"
  note d = image_device [OF abs i]
  have same: "keeps (frozen (\<lambda>q. q \<noteq> ?q) w) (getStoreDevicePath (imagePath store i))"
    unfolding getStoreDevicePath_def Let_def d(1)
    by (intro keeps_intro on_tree_frozen) (simp add: misses_def d(2,3))
  have "frozen (\<lambda>q. q \<noteq> ?q) w w'" by (rule keepsD [OF same _ run]) simp
  moreover have "p = ?dev"
    using run unfolding getStoreDevicePath_def Let_def d(1) observed_def
    by (auto elim!: checked_InrE split: if_splits)
  ultimately show ?thesis by (simp add: frozen_def)
qed


definition quota_world :: world where
  "quota_world = tardis_world\<lparr>tree := (in_store [''storeDevice''], BlockDev root_attr 2049) # tree tardis_world\<rparr>"


section \<open>Allocation of project ids\<close>

lemma itoa_w32_plain [simp]: "plain_name (itoa_w32 i)"
  by (simp add: itoa_w32_def)

lemma itoa_w32_inj [simp]: "itoa_w32 i = itoa_w32 j \<longleftrightarrow> i = j"
  unfolding itoa_w32_def by (metis option.inject parse_nat_digits word_unat_eq_iff)

lemma unat_of_nat_w32: "n < 2 ^ 32 \<Longrightarrow> unat (of_nat n :: 32 word) = n"
  by (simp add: unat_of_nat take_bit_nat_eq_self)

lemma of_nat_w32_inj: "m < 2 ^ 32 \<Longrightarrow> n < 2 ^ 32 \<Longrightarrow> (of_nat m :: 32 word) = of_nat n \<longleftrightarrow> m = n"
  by (metis unat_of_nat_w32)

definition taken :: "path \<Rightarrow> world \<Rightarrow> 32 word \<Rightarrow> bool" where
  "taken q w i \<longleftrightarrow> nodes w (q @ [itoa_w32 i]) \<noteq> None"

text \<open>What the loop does: it passes over the taken ids and makes the directory of the first that is free.\<close>

lemma untilSucceeds_loop_first:
  assumes abs: "abs_path d" and dir: "is_dir w (comps d)" and ok: "faults w = []"
    and free: "\<not> taken (comps d) w (s + of_nat k)" and least: "\<And>j. j < k \<Longrightarrow> taken (comps d) w (s + of_nat j)"
    and fuel: "k < n"
  shows "untilSucceeds_loop n d s w = (Inr (Some (s + of_nat k)),
     put (comps d @ [itoa_w32 (s + of_nat k)]) (Dir (new_attr w perm_0755)) w)"
  using free least fuel
proof (induction k arbitrary: s n)
  case 0
  then obtain m where "n = Suc m" by (cases n) auto
  with 0 ok dir abs join_comps [OF abs, of "[itoa_w32 s]"]
  show ?case by (simp add: taken_def os_mkdir_def faulty_def)
next
  case (Suc k)
  obtain m where n: "n = Suc m" using Suc.prems by (cases n) auto
  have "taken (comps d) w s" using Suc.prems(2) [of 0] by simp
  then have "os_mkdir (filepath_join [d, itoa_w32 s]) perm_0755 w =
      (Inl (PathErr ''mkdir'' (filepath_join [d, itoa_w32 s]) EEXIST), w)"
    using ok join_comps [OF abs, of "[itoa_w32 s]"] by (simp add: taken_def os_mkdir_def faulty_def)
  moreover have "untilSucceeds_loop m d (s + 1) w = (Inr (Some (s + 1 + of_nat k)),
     put (comps d @ [itoa_w32 (s + 1 + of_nat k)]) (Dir (new_attr w perm_0755)) w)"
  proof (rule Suc.IH)
    show "taken (comps d) w (s + 1 + of_nat j)" if "j < k" for j
      using Suc.prems(2) [of "Suc j"] that by (simp add: add.assoc)
  qed (use Suc.prems n in \<open>simp_all add: add.assoc\<close>)
  ultimately show ?case by (simp add: n is_exist_def add.assoc)
qed

text \<open>There are fewer taken ids than entries, so one of the first ids is free.\<close>

lemma some_id_free:
  assumes "length (child_names w q) < 2 ^ 32"
  shows "\<exists>k \<le> length (child_names w q). \<not> taken q w (s + of_nat k)"
proof (rule ccontr)
  let ?n = "length (child_names w q)" and ?f = "\<lambda>k. itoa_w32 (s + of_nat k)"
  assume "\<not> ?thesis"
  then have "?f ` {..?n} \<subseteq> set (child_names w q)" by (auto simp: taken_def child_names_iff)
  then have "card (?f ` {..?n}) \<le> ?n" by (metis List.finite_set card_length card_mono le_trans)
  moreover have "inj_on ?f {..?n}"
    using assms by (auto intro!: inj_onI simp: of_nat_w32_inj)
  ultimately show False by (simp add: card_image)
qed

lemma untilSucceeds_terminates:
  assumes abs: "abs_path d" and dir: "is_dir w (comps d)" and ok: "faults w = []"
    and few: "length (child_names w (comps d)) < 2 ^ 32" and fuel: "length (child_names w (comps d)) < n"
  obtains k where "k \<le> length (child_names w (comps d))" and "\<not> taken (comps d) w (s + of_nat k)"
    and "untilSucceeds_loop n d s w = (Inr (Some (s + of_nat k)),
       put (comps d @ [itoa_w32 (s + of_nat k)]) (Dir (new_attr w perm_0755)) w)"
proof -
  define k where "k = (LEAST k. \<not> taken (comps d) w (s + of_nat k))"
  from some_id_free [OF few] obtain k0 where k0: "k0 \<le> length (child_names w (comps d))"
    "\<not> taken (comps d) w (s + of_nat k0)" by blast
  have free: "\<not> taken (comps d) w (s + of_nat k)" unfolding k_def by (rule LeastI) (rule k0(2))
  moreover have le: "k \<le> length (child_names w (comps d))"
    unfolding k_def using Least_le [where P = "\<lambda>k. \<not> taken (comps d) w (s + of_nat k)", OF k0(2)] k0(1) by simp
  moreover have "taken (comps d) w (s + of_nat j)" if "j < k" for j
    using not_less_Least that unfolding k_def by blast
  ultimately show ?thesis
    using untilSucceeds_loop_first [OF abs dir ok free, of n] fuel le by (intro that) auto
qed

text \<open>C22: allocating a project id ends: the loop needs no more rounds than the directory has entries,
  plus one. It hands out an id that no entry had, records it by making exactly that entry, and
  the id is neither 0, which means no project, nor 1, which is never given out; this while the
  ids counted so far fit the 32 bits twice over.\<close>

theorem Alloc_fresh:
  assumes abs: "abs_path d" and dir: "is_dir w (comps d)" and ok: "faults w = []"
    and few: "2 * length (child_names w (comps d)) + 2 < 2 ^ 32" and fuel: "length (child_names w (comps d)) < fuel"
  shows "\<exists>i. nodes w (comps d @ [itoa_w32 i]) = None \<and> i \<noteq> 0 \<and> i \<noteq> 1 \<and>
    Alloc fuel d w = (Inr (Some i), put (comps d @ [itoa_w32 i]) (Dir (new_attr w perm_0755)) w)"
proof -
  let ?n = "length (child_names w (comps d))"
  define s where "s = (if ?n = 0 then 2 else Suc ?n)"
  have start: "Alloc fuel d w = untilSucceeds_loop fuel d (of_nat s) w"
  proof -
    obtain a where "nodes w (comps d) = Some (Dir a)" using dir by (auto simp: is_dir_iff)
    then have "os_read_dir d w = (Inr (child_names w (comps d)), w)"
      using ok is_rooted_abs [OF abs] by (simp add: os_read_dir_def faulty_def)
    moreover have "(if (of_nat (Suc ?n) :: 32 word) = 1 then of_nat (Suc ?n) + 1 else of_nat (Suc ?n)) = (of_nat s :: 32 word)"
      using few of_nat_w32_inj [of ?n 0] by (auto simp: s_def)
    ultimately show ?thesis by (simp add: Alloc_def untilSucceeds_def)
  qed
  obtain k where k: "k \<le> ?n" "\<not> taken (comps d) w (of_nat s + of_nat k)"
    and run: "untilSucceeds_loop fuel d (of_nat s) w = (Inr (Some (of_nat s + of_nat k)),
       put (comps d @ [itoa_w32 (of_nat s + of_nat k)]) (Dir (new_attr w perm_0755)) w)"
    using untilSucceeds_terminates [OF abs dir ok _ fuel, of "of_nat s"] few by auto
  have "unat (of_nat (s + k) :: 32 word) = s + k"
    using few k(1) by (simp add: s_def unat_of_nat_w32 del: of_nat_add)
  moreover have "2 \<le> s + k" by (cases "child_names w (comps d)") (simp_all add: s_def)
  ultimately have "of_nat (s + k) \<noteq> (0 :: 32 word)" "of_nat (s + k) \<noteq> (1 :: 32 word)"
    by (auto simp del: of_nat_add)
  then show ?thesis using start run k(2) by (auto simp: taken_def)
qed

definition ids_world :: world where
  "ids_world = sample_store\<lparr>tree := (in_store [''projectids''], Dir root_attr) #
     (in_store [''projectids'', ''3''], Dir root_attr) # tree sample_store\<rparr>"

theorem Alloc_fresh_witness:
  "\<exists>i. nodes ids_world [''s'', ''projectids'', itoa_w32 i] = None \<and> i \<noteq> 1 \<and>
     fst (Alloc 2 ''/s/projectids'' ids_world) = Inr (Some i)"
proof -
  have "is_dir ids_world [''s'', ''projectids'']" and "faults ids_world = []" and "comps ''/s/projectids'' = [''s'', ''projectids'']"
    and "length (child_names ids_world [''s'', ''projectids'']) = 1"
    by code_simp+
  moreover have "abs_path ''/s/projectids''"
    unfolding abs_path_def by (rule exI [of _ "[''s'', ''projectids'']"]) code_simp
  ultimately show ?thesis
    using Alloc_fresh [of "''/s/projectids''" ids_world 2] by fastforce
qed

end
