(* ===== verification/Inode_Facts.thy ===== *)
theory Inode_Facts
  imports Sandbox
begin

text \<open>
  The file system of the unpacker: what the resolution of names depends on and where it leads, the
  well-formedness of the tree and that every call keeps it, and how calls can return. The last
  part lifts the invariant to the unpacker.
\<close>

section \<open>Well-formed trees\<close>

text \<open>Every name has an inode and lies in a directory; the root is one.\<close>

definition wf_vfs :: "vfs \<Rightarrow> bool" where
  "wf_vfs v \<longleftrightarrow> kind_at v [] = Some KDir \<and>
     (\<forall>q. ino_at v q \<noteq> None \<longrightarrow> inode_at v q \<noteq> None) \<and>
     (\<forall>q. q \<noteq> [] \<longrightarrow> ino_at v q \<noteq> None \<longrightarrow> kind_at v (butlast q) = Some KDir) \<and>
     (\<forall>i. inodes v i \<noteq> None \<longrightarrow> i < next_ino v)"

lemma wf_vfsD:
  assumes "wf_vfs v"
  shows "kind_at v [] = Some KDir" and "ino_at v q \<noteq> None \<Longrightarrow> inode_at v q \<noteq> None"
    and "ino_at v (d @ [n]) \<noteq> None \<Longrightarrow> kind_at v d = Some KDir" and "inodes v i \<noteq> None \<Longrightarrow> i < next_ino v"
  using assms unfolding wf_vfs_def by (auto simp: butlast_snoc dest: spec [of _ "d @ [n]"])

lemma kind_at_iff:
  "kind_at v q = Some k \<longleftrightarrow> (\<exists>i x. ino_at v q = Some i \<and> inodes v i = Some x \<and> kind x = k)"
  by (auto simp: kind_at_def inode_at_def bind_eq_Some_conv)

lemma kind_at_ino: "kind_at v q = Some k \<Longrightarrow> ino_at v q \<noteq> None"
  by (auto simp: kind_at_iff)

lemma wf_prefix:
  assumes "wf_vfs v" and "ino_at v q \<noteq> None" and "prefix p q"
  shows "ino_at v p \<noteq> None"
proof -
  obtain r where "q = p @ r" using assms(3) by (auto simp: prefix_def)
  then show ?thesis using assms(2)
  proof (induction r arbitrary: q rule: rev_induct)
    case (snoc n r)
    then have "kind_at v (p @ r) = Some KDir" using wf_vfsD(3) [OF assms(1), of "p @ r" n] by simp
    then have "ino_at v (p @ r) \<noteq> None" by (rule kind_at_ino)
    with snoc.IH show ?case by blast
  qed simp
qed

text \<open>What a resolution depends on, and where it leads.\<close>

fun shape :: "kind option \<Rightarrow> kind option" where
  "shape (Some (KFile c)) = Some (KFile [])"
| "shape k = k"

definition same_shape :: "vfs \<Rightarrow> vfs \<Rightarrow> bool" where
  "same_shape v v' \<longleftrightarrow> (\<forall>q. shape (kind_at v' q) = shape (kind_at v q))"

lemma shape_eq:
  "shape k = shape k' \<Longrightarrow> k = k' \<or> (\<exists>c c'. k = Some (KFile c) \<and> k' = Some (KFile c'))"
  by (cases k rule: shape.cases; cases k' rule: shape.cases) auto

lemma walk_same_shape:
  assumes "same_shape v v'"
  shows "walk n v' f cur cs = walk n v f cur cs"
  using assms
proof (induction n v f cur cs rule: walk.induct)
  case (2 n v f cur c cs)
  have "shape (kind_at v' (cur @ [c])) = shape (kind_at v (cur @ [c]))" using 2(5) by (simp add: same_shape_def)
  then consider "kind_at v' (cur @ [c]) = kind_at v (cur @ [c])"
    | a b where "kind_at v (cur @ [c]) = Some (KFile a)" "kind_at v' (cur @ [c]) = Some (KFile b)"
    using shape_eq by metis
  then show ?case
  proof cases
    case 1
    have skip: "c = [] \<or> c = ''.'' \<Longrightarrow> walk n v' f cur cs = walk n v f cur cs" using 2(1,5) by blast
    have up: "c \<noteq> [] \<Longrightarrow> c \<noteq> ''.'' \<Longrightarrow> c = ''..'' \<Longrightarrow> walk n v' f (butlast cur) cs = walk n v f (butlast cur) cs"
      using 2(2,5) by blast
    have down: "c \<noteq> [] \<Longrightarrow> c \<noteq> ''.'' \<Longrightarrow> c \<noteq> ''..'' \<Longrightarrow> kind_at v (cur @ [c]) = Some KDir \<Longrightarrow>
        walk n v' f (cur @ [c]) cs = walk n v f (cur @ [c]) cs"
      using 2(3,5) by blast
    have link: "\<forall>t m. c \<noteq> [] \<longrightarrow> c \<noteq> ''.'' \<longrightarrow> c \<noteq> ''..'' \<longrightarrow> kind_at v (cur @ [c]) = Some (KLink t) \<longrightarrow>
        \<not> (cs = [] \<and> \<not> f) \<longrightarrow> n = Suc m \<longrightarrow>
        walk m v' f (if is_rooted t then [] else cur) (split_on CHR ''/'' t @ cs) =
        walk m v f (if is_rooted t then [] else cur) (split_on CHR ''/'' t @ cs)"
      using 2(4,5) by blast
    show ?thesis
      by (simp only: walk.simps 1 split: option.split kind.split nat.split)
        (use skip up down link in \<open>auto simp del: walk.simps\<close>)
  qed (use 2(1,2,5) in simp)
qed simp

text \<open>A resolved name is in a directory.\<close>

lemma wf_up: "wf_vfs v \<Longrightarrow> kind_at v cur = Some KDir \<Longrightarrow> kind_at v (butlast cur) = Some KDir"
  using wf_vfsD(1,3) [of v] by (cases cur rule: rev_cases) (auto dest: kind_at_ino)

lemma walk_in_directory:
  assumes "walk n v f cur cs = Inr q" and "wf_vfs v" and "kind_at v cur = Some KDir"
  shows "kind_at v (butlast q) = Some KDir"
  using assms
proof (induction n v f cur cs rule: walk.induct)
  case (1 n v f cur)
  then show ?case by (simp add: wf_up)
next
  case (2 n v f cur c cs)
  show ?case
  proof (cases "c = [] \<or> c = ''.'' \<or> c = ''..''")
    case True
    then show ?thesis using 2(1,2,5-) wf_up by auto
  next
    case False
    show ?thesis
    proof (cases "kind_at v (cur @ [c])")
      case None
      then show ?thesis using False 2(5-) by (auto split: if_splits)
    next
      case (Some k)
      show ?thesis
      proof (cases k)
        case KDir
        then show ?thesis using 2(3) [OF _ _ Some] 2(5-) False Some by simp
      next
        case (KLink t)
        show ?thesis
        proof (cases n)
          case (Suc m)
          then show ?thesis using 2(4) [OF _ _ Some KLink _ Suc] 2(5-) False Some KLink wf_vfsD(1) by (auto split: if_splits)
        qed (use 2(5-) False Some KLink in \<open>auto split: if_splits\<close>)
      qed (use False 2(5-) Some in \<open>auto split: if_splits\<close>)
    qed
  qed
qed

lemma resolve_in_directory:
  "wf_vfs v \<Longrightarrow> resolve v f p = Inr q \<Longrightarrow> kind_at v (butlast q) = Some KDir"
  unfolding resolve_def using walk_in_directory wf_vfsD(1) by blast

section \<open>Every call keeps the tree well-formed\<close>

lemma at_set_inode [simp]:
  "ino_at (set_inode i x v) = ino_at v" "next_ino (set_inode i x v) = next_ino v"
  "inodes (set_inode i x v) = (inodes v)(i \<mapsto> x)" "vfaults (set_inode i x v) = vfaults v"
  by (simp_all add: set_inode_def ino_at_def fun_eq_iff)

lemma kind_at_set_inode:
  "kind_at (set_inode i x v) q = (if ino_at v q = Some i then Some (kind x) else kind_at v q)"
  by (cases "ino_at v q") (auto simp: kind_at_def inode_at_def)

lemma wf_vfsI:
  assumes "kind_at v [] = Some KDir" and "\<And>q i. ino_at v q = Some i \<Longrightarrow> inodes v i \<noteq> None"
    and "\<And>q i. q \<noteq> [] \<Longrightarrow> ino_at v q = Some i \<Longrightarrow> kind_at v (butlast q) = Some KDir"
    and "\<And>i x. inodes v i = Some x \<Longrightarrow> i < next_ino v"
  shows "wf_vfs v"
  unfolding wf_vfs_def using assms by (auto simp: inode_at_def)

lemma wf_set_inode:
  assumes wf: "wf_vfs v" and y: "inodes v i = Some y" and k: "kind y = KDir \<longleftrightarrow> kind x = KDir"
  shows "wf_vfs (set_inode i x v)"
proof (rule wf_vfsI)
  have dirs: "kind_at (set_inode i x v) q = Some KDir" if "kind_at v q = Some KDir" for q
    using that y k by (auto simp: kind_at_set_inode kind_at_iff)
  show "kind_at (set_inode i x v) [] = Some KDir" using dirs wf_vfsD(1) [OF wf] .
  show "kind_at (set_inode i x v) (butlast q) = Some KDir" if "q \<noteq> []" "ino_at (set_inode i x v) q = Some j" for q j
    using dirs wf_vfsD(3) [OF wf, of "butlast q" "last q"] that by simp
  show "inodes (set_inode i x v) j \<noteq> None" if "ino_at (set_inode i x v) q = Some j" for q j
    using wf_vfsD(2) [OF wf, of q] that by (simp add: inode_at_def)
  show "j < next_ino (set_inode i x v)" if "inodes (set_inode i x v) j = Some z" for j z
    using wf_vfsD(4) [OF wf] that y by (auto split: if_splits)
qed

lemma wf_stamp: "wf_vfs v \<Longrightarrow> wf_vfs (stamp d v)"
  unfolding stamp_def by (auto intro: wf_set_inode split: option.splits)

lemma stamp_simps [simp]:
  "ino_at (stamp d v) = ino_at v" "next_ino (stamp d v) = next_ino v" "kind_at (stamp d v) = kind_at v"
  "vfaults (stamp d v) = vfaults v"
proof -
  show "kind_at (stamp d v) = kind_at v"
    by (auto simp: stamp_def fun_eq_iff kind_at_set_inode split: option.splits) (simp add: kind_at_def inode_at_def)
qed (auto simp: stamp_def split: option.splits)

lemma wf_drop_names:
  assumes "wf_vfs v" and "\<not> D []" and "\<And>q. \<not> D q \<Longrightarrow> q \<noteq> [] \<Longrightarrow> ino_at v q \<noteq> None \<Longrightarrow> \<not> D (butlast q)"
  shows "wf_vfs (drop_names D v)"
proof -
  have ino: "ino_at (drop_names D v) q = (if D q then None else ino_at v q)" for q
    by (simp add: ino_at_def drop_names_def map_of_filter_key)
  then have "inode_at (drop_names D v) q = (if D q then None else inode_at v q)" for q
    by (simp add: inode_at_def drop_names_def)
  then show ?thesis using assms ino unfolding wf_vfs_def kind_at_def
    by (auto simp: drop_names_def)
qed

lemma vfs_upd_faults [simp]:
  "ino_at (v\<lparr>vfaults := fs\<rparr>) = ino_at v" "inode_at (v\<lparr>vfaults := fs\<rparr>) = inode_at v"
  "kind_at (v\<lparr>vfaults := fs\<rparr>) = kind_at v" "wf_vfs (v\<lparr>vfaults := fs\<rparr>) = wf_vfs v"
  "ino_at (v\<lparr>vnonces := ns\<rparr>) = ino_at v" "inode_at (v\<lparr>vnonces := ns\<rparr>) = inode_at v"
  "kind_at (v\<lparr>vnonces := ns\<rparr>) = kind_at v" "wf_vfs (v\<lparr>vnonces := ns\<rparr>) = wf_vfs v"
  by (simp_all add: fun_eq_iff wf_vfs_def ino_at_def inode_at_def kind_at_def)

lemma at_name_cases:
  assumes "at_name f p m v = (r, v')"
  obtains (refused) e where "r = Inl e" and "v' = v" | (found) q where "resolve v f p = Inr q" and "m q v = (r, v')"
  using assms by (auto simp: at_name_def split: sum.splits)

lemma at_inode_cases:
  assumes "at_inode f p m v = (r, v')"
  obtains (refused) e where "r = Inl e" and "v' = v"
    | (found) q i x where "resolve v f p = Inr q" and "ino_at v q = Some i" and "inodes v i = Some x" and "m i x v = (r, v')"
  using assms unfolding at_inode_def by (elim at_name_cases) (auto split: option.splits)

lemma ucall_cases:
  assumes "ucall err partial m v = (r, v')"
  obtains (fault) e k fs where "r = Inl (err e)" and "v' = partial k (v\<lparr>vfaults := fs\<rparr>)"
    | (ok) x fs where "r = Inr x" and "m (v\<lparr>vfaults := fs\<rparr>) = (Inr x, v')"
    | (failed) e fs where "r = Inl (err e)" and "m (v\<lparr>vfaults := fs\<rparr>) = (Inl e, v')"
proof -
  have same: "v\<lparr>vfaults := vfaults v\<rparr> = v" by simp
  have ran: thesis if "(r, v') = (case m (v\<lparr>vfaults := fs\<rparr>) of (Inl e, v') \<Rightarrow> (Inl (err e), v') | (Inr x, v') \<Rightarrow> (Inr x, v'))" for fs
    using that ok failed by (auto split: prod.splits sum.splits)
  show ?thesis
  proof (cases "vfaults v")
    case Nil
    have "v\<lparr>vfaults := []\<rparr> = v" using same unfolding Nil .
    then show ?thesis using ran [of "[]"] assms Nil by (simp only: ucall_def Let_def list.case)
  next
    case (Cons x fs)
    then show ?thesis
    proof (cases x)
      case None
      then show ?thesis using ran [of fs] assms Cons by (simp add: ucall_def)
    next
      case (Some ek)
      then show ?thesis using fault [of "fst ek" "snd ek" fs] assms Cons by (cases ek) (simp add: ucall_def)
    qed
  qed
qed

lemma keeps_ucall:
  assumes f: "\<And>v fs. I v \<Longrightarrow> I (v\<lparr>vfaults := fs\<rparr>)" and p: "\<And>k v. I v \<Longrightarrow> I (partial k v)"
    and m: "\<And>v r v'. I v \<Longrightarrow> m v = (r, v') \<Longrightarrow> I v'"
  shows "keeps I (ucall err partial m)"
proof (rule keepsI)
  fix v r v'
  assume "I v" and "ucall err partial m v = (r, v')"
  from this(2) show "I v'" by (cases rule: ucall_cases) (use f p m \<open>I v\<close> in blast)+
qed

lemma wf_add_name:
  assumes wf: "wf_vfs v" and new: "ino_at v q = None" and dir: "kind_at v (butlast q) = Some KDir"
    and i: "inodes v i \<noteq> None"
  shows "wf_vfs (add_name q i v)"
proof -
  let ?v = "v\<lparr>entries := (q, i) # entries v\<rparr>"
  have ino: "ino_at ?v p = (if p = q then Some i else ino_at v p)" for p by (simp add: ino_at_def)
  have kind: "kind_at ?v p = kind_at v p" if "ino_at v p \<noteq> None" for p
    using that new by (cases "p = q") (auto simp: kind_at_def inode_at_def ino)
  have "wf_vfs ?v"
  proof (rule wf_vfsI)
    show "kind_at ?v [] = Some KDir" using kind wf_vfsD(1) [OF wf] kind_at_ino by metis
    show "inodes ?v j \<noteq> None" if "ino_at ?v p = Some j" for p j
      using that i wf_vfsD(2) [OF wf, of p] by (auto simp: ino inode_at_def split: if_splits)
    show "kind_at ?v (butlast p) = Some KDir" if "p \<noteq> []" "ino_at ?v p = Some j" for p j
    proof (cases "p = q")
      case True
      then show ?thesis using kind dir kind_at_ino by metis
    next
      case False
      then have "kind_at v (butlast p) = Some KDir" using wf_vfsD(3) [OF wf, of "butlast p" "last p"] that by (simp add: ino)
      then show ?thesis using kind kind_at_ino by metis
    qed
    show "j < next_ino ?v" if "inodes ?v j = Some x" for j x using wf_vfsD(4) [OF wf] that by simp
  qed
  then show ?thesis by (simp add: add_name_def wf_stamp)
qed

lemma wf_new_inode:
  assumes wf: "wf_vfs v" and new: "ino_at v q = None" and dir: "kind_at v (butlast q) = Some KDir"
  shows "wf_vfs (new_inode q k m v)"
proof -
  let ?x = "\<lparr>kind = k, imode = m, iuid = fs_uid v, igid = fs_gid v, iprojid = 0, imtime = clock v, ixattrs = []\<rparr>"
  let ?v = "set_inode (next_ino v) ?x (v\<lparr>next_ino := Suc (next_ino v)\<rparr>)"
  have ino: "ino_at (v\<lparr>next_ino := n\<rparr>) = ino_at v" for n by (simp add: ino_at_def fun_eq_iff)
  have fresh: "inodes v (next_ino v) = None" using wf_vfsD(4) [OF wf, of "next_ino v"] by (cases "inodes v (next_ino v)") auto
  have kind: "kind_at ?v p = kind_at v p" for p
  proof (cases "ino_at v p")
    case (Some j)
    then have "j \<noteq> next_ino v" using fresh wf_vfsD(2) [OF wf, of p] by (auto simp: inode_at_def)
    then show ?thesis using Some by (simp add: kind_at_def inode_at_def ino)
  qed (simp add: kind_at_def inode_at_def ino)
  have "wf_vfs ?v"
  proof (rule wf_vfsI)
    show "kind_at ?v [] = Some KDir" using wf_vfsD(1) [OF wf] by (simp add: kind)
    show "inodes ?v j \<noteq> None" if "ino_at ?v p = Some j" for p j
      using that wf_vfsD(2) [OF wf, of p] by (auto simp: ino inode_at_def)
    show "kind_at ?v (butlast p) = Some KDir" if "p \<noteq> []" "ino_at ?v p = Some j" for p j
      using wf_vfsD(3) [OF wf, of "butlast p" "last p"] that by (simp add: ino kind)
    show "j < next_ino ?v" if "inodes ?v j = Some x" for j x
      using wf_vfsD(4) [OF wf, of j] that by (auto split: if_splits)
  qed
  moreover have "ino_at ?v q = None" "kind_at ?v (butlast q) = Some KDir" using new dir by (simp_all add: ino kind)
  ultimately show ?thesis unfolding new_inode_def by (intro wf_add_name) simp_all
qed

lemma wf_u_calls [keeps_intro]:
  "keeps wf_vfs (u_stat p)" "keeps wf_vfs (u_lstat p)" "keeps wf_vfs (u_mkdir p perm)"
  "keeps wf_vfs (u_symlink s p)" "keeps wf_vfs (u_link old p)"
  unfolding u_stat_def u_lstat_def u_mkdir_def u_symlink_def u_link_def
  by ((rule keeps_ucall; (simp add: nothing_def)?),
      (auto elim!: at_name_cases at_inode_cases intro!: wf_new_inode wf_add_name dest: resolve_in_directory split: if_splits)[1])+

lemma wf_u_attr_calls [keeps_intro]:
  "keeps wf_vfs (u_chmod p m)" "keeps wf_vfs (u_chown p uid gid)" "keeps wf_vfs (u_lchown p uid gid)"
  "keeps wf_vfs (u_utimensat p t)" "keeps wf_vfs (u_chtimes p t)" "keeps wf_vfs (u_lsetxattr p n x)"
  "keeps wf_vfs (u_open_dir p)"
  unfolding u_chmod_def u_chown_def u_lchown_def u_utimensat_def u_chtimes_def u_lsetxattr_def u_open_dir_def
  by ((rule keeps_ucall; (simp add: nothing_def)?),
      (auto elim!: at_inode_cases at_name_cases intro!: wf_set_inode simp: owned_def split: option.splits if_splits)[1])+

lemma wf_u_ranged [keeps_intro]: "keeps wf_vfs (u_ranged xs)"
  by (rule keepsI) (auto simp: u_ranged_def split: list.splits)

lemma wf_append_content: "wf_vfs v \<Longrightarrow> wf_vfs (append_content i s v)"
  by (auto simp: append_content_def intro: wf_set_inode split: option.splits kind.splits)

lemma wf_u_write [keeps_intro]: "keeps wf_vfs (u_write p i s)"
  unfolding u_write_def by (rule keeps_ucall) (auto simp: wf_append_content)

lemma wf_u_open_trunc [keeps_intro]: "keeps wf_vfs (u_open_trunc p perm)"
  unfolding u_open_trunc_def
  by (rule keeps_ucall) (auto simp: nothing_def elim!: at_name_cases intro!: wf_new_inode wf_set_inode
      dest: resolve_in_directory split: option.splits kind.splits)

lemma wf_u_close [keeps_intro]: "keeps wf_vfs (u_close p)"
  unfolding u_close_def by (rule keeps_ucall) (auto simp: nothing_def)

lemma prefix_up: "r \<noteq> [] \<Longrightarrow> prefix p (butlast r) \<Longrightarrow> prefix p r \<and> r \<noteq> p"
  by (cases r rule: rev_cases) (auto simp: prefix_def)

text \<open>The deepest names come first, so what is removed of a tree leaves no name without its directory.\<close>

lemma take_descending:
  assumes "sorted_wrt (\<lambda>a b. f b \<le> (f a :: nat)) xs" and "x \<in> set (take k xs)" and "y \<in> set xs" and "f x < f y"
  shows "y \<in> set (take k xs)"
proof (rule ccontr)
  assume "y \<notin> set (take k xs)"
  then have "y \<in> set (drop k xs)" using assms(3) by (metis Un_iff append_take_drop_id set_append)
  moreover have "sorted_wrt (\<lambda>a b. f b \<le> f a) (take k xs @ drop k xs)" using assms(1) by simp
  ultimately have "f y \<le> f x" using assms(2) unfolding sorted_wrt_append by blast
  then show False using assms(4) by simp
qed

lemma below_descending: "sorted_wrt (\<lambda>a b. length b \<le> length a) (below v p)"
proof -
  have "sorted_wrt (\<lambda>a b. length a \<le> length b) (sort_key length xs)" for xs :: "path list"
    using sorted_sort_key [of length xs] by (simp add: sorted_map)
  then show ?thesis by (simp add: below_def sorted_wrt_rev)
qed

lemma below_set: "q \<in> set (below v p) \<longleftrightarrow> prefix p q \<and> ino_at v q \<noteq> None"
  by (auto simp: below_def ino_at_def map_of_eq_None_iff)

lemma wf_remove_names:
  assumes wf: "wf_vfs v"
  shows "q \<noteq> [] \<Longrightarrow> wf_vfs (drop_names (prefix q) v)" and "wf_vfs (drop_names (strict_prefix p) v)"
    and "q \<noteq> [] \<Longrightarrow> kind_at v q = Some KDir \<longrightarrow> \<not> has_children v q \<Longrightarrow> wf_vfs (drop_names (\<lambda>r. r = q) v)"
    and "wf_vfs (drop_names (\<lambda>r. r \<noteq> [] \<and> r \<in> set (take k (below v p))) v)"
proof -
  show "wf_vfs (drop_names (prefix q) v)" if "q \<noteq> []"
    using that by (intro wf_drop_names [OF wf]) (auto dest: prefix_up)
  show "wf_vfs (drop_names (strict_prefix p) v)"
    by (intro wf_drop_names [OF wf]) (auto simp: strict_prefix_def dest: prefix_up)
  show "wf_vfs (drop_names (\<lambda>r. r = q) v)" if q: "q \<noteq> []" and no: "kind_at v q = Some KDir \<longrightarrow> \<not> has_children v q"
  proof (intro wf_drop_names [OF wf] notI)
    fix r
    assume r: "r \<noteq> q" "r \<noteq> []" "ino_at v r \<noteq> None" "butlast r = q"
    then have "kind_at v q = Some KDir" using wf_vfsD(3) [OF wf, of q "last r"] by (metis append_butlast_last_id)
    moreover have "strict_prefix q r" using r by (cases r rule: rev_cases) (auto simp: strict_prefix_def)
    then have "has_children v q" using r(3) by (auto simp: has_children_def list_ex_iff ino_at_def dest: map_of_SomeD)
    ultimately show False using no by blast
  qed (use q in simp)
  show "wf_vfs (drop_names (\<lambda>r. r \<noteq> [] \<and> r \<in> set (take k (below v p))) v)"
  proof (intro wf_drop_names [OF wf])
    fix r
    assume r: "\<not> (r \<noteq> [] \<and> r \<in> set (take k (below v p)))" "r \<noteq> []" "ino_at v r \<noteq> None"
    show "\<not> (butlast r \<noteq> [] \<and> butlast r \<in> set (take k (below v p)))"
    proof
      assume "butlast r \<noteq> [] \<and> butlast r \<in> set (take k (below v p))"
      then have b: "butlast r \<in> set (take k (below v p))" ..
      then have "prefix p (butlast r)" using below_set in_set_takeD by metis
      then have "r \<in> set (below v p)" using r prefix_up [of r p] by (simp add: below_set)
      then have "r \<in> set (take k (below v p))"
        using take_descending [OF below_descending b] r(2) by (simp add: length_butlast)
      with r show False by blast
    qed
  qed simp
qed

lemma wf_u_remove [keeps_intro]: "keeps wf_vfs (u_remove p)"
  unfolding u_remove_def
  by (rule keeps_ucall) (auto simp: nothing_def elim!: at_name_cases intro!: wf_stamp wf_remove_names split: if_splits)

lemma wf_u_remove_all [keeps_intro]: "keeps wf_vfs (u_remove_all p)"
proof -
  let ?m = "ucall (PathErr ''unlinkat'' p)
        (\<lambda>k v. case resolve v False p of
            Inl _ \<Rightarrow> v
          | Inr q \<Rightarrow> drop_names (\<lambda>r. r \<noteq> [] \<and> r \<in> set (take k (below v q))) v)
        (\<lambda>v. case resolve v False p of
            Inl ENOENT \<Rightarrow> (Inr (), v)
          | Inl e \<Rightarrow> (Inl e, v)
          | Inr q \<Rightarrow>
              if filepath_base p = ''..'' \<or> q = [] then (Inl ENOTEMPTY, drop_names (strict_prefix q) v)
              else if ino_at v q = None then (Inr (), v)
              else (Inr (), stamp (butlast q) (drop_names (prefix q) v)))"
  have "keeps wf_vfs ?m"
  proof (rule keeps_ucall, goal_cases)
    case (2 k v)
    then show ?case by (auto intro: wf_remove_names split: sum.splits)
  next
    case (3 v r v')
    then show ?case by (auto intro!: wf_remove_names wf_stamp split: sum.splits errno.splits if_splits)
  qed simp
  then show ?thesis by (auto simp: u_remove_all_def intro: keeps_intro)
qed

text \<open>The inode of the whiteout device is one of the file system's.\<close>

definition has_ino :: "nat \<Rightarrow> vfs \<Rightarrow> bool" where
  "has_ino i v \<longleftrightarrow> inodes v i \<noteq> None"

lemma has_ino_simps [simp]:
  "has_ino i (v\<lparr>vfaults := fs\<rparr>) = has_ino i v" "has_ino i (v\<lparr>vnonces := ns\<rparr>) = has_ino i v"
  "has_ino i (drop_names D v) = has_ino i v"
  by (simp_all add: has_ino_def drop_names_def)

lemma has_ino_set: "has_ino i v \<Longrightarrow> has_ino i (set_inode j x v)"
  by (simp add: has_ino_def)

lemma has_ino_stamp: "has_ino i v \<Longrightarrow> has_ino i (stamp d v)"
  by (auto simp: stamp_def has_ino_def split: option.splits)

lemma has_ino_add: "has_ino i v \<Longrightarrow> has_ino i (add_name q j v)"
  unfolding add_name_def by (rule has_ino_stamp) (simp add: has_ino_def)

lemma has_ino_new: "has_ino i v \<Longrightarrow> has_ino i (new_inode q k m v)"
  unfolding new_inode_def by (rule has_ino_add) (simp add: has_ino_def)

lemma has_ino_append: "has_ino i v \<Longrightarrow> has_ino i (append_content j s v)"
  by (auto simp: append_content_def has_ino_set split: option.splits kind.splits)

lemmas has_ino_intros = has_ino_set has_ino_stamp has_ino_add has_ino_new has_ino_append

lemma has_ino_calls [keeps_intro]:
  "keeps (has_ino i) (u_stat p)" "keeps (has_ino i) (u_lstat p)" "keeps (has_ino i) (u_mkdir p perm)"
  "keeps (has_ino i) (u_symlink s p)" "keeps (has_ino i) (u_link old p)" "keeps (has_ino i) (u_remove p)"
  "keeps (has_ino i) (u_chmod p m)" "keeps (has_ino i) (u_chown p uid gid)" "keeps (has_ino i) (u_lchown p uid gid)"
  "keeps (has_ino i) (u_utimensat p t)" "keeps (has_ino i) (u_chtimes p t)" "keeps (has_ino i) (u_lsetxattr p n x)"
  "keeps (has_ino i) (u_open_dir p)" "keeps (has_ino i) (u_open_trunc p perm)" "keeps (has_ino i) (u_linkat src d n)"
  unfolding u_stat_def u_lstat_def u_mkdir_def u_symlink_def u_link_def u_remove_def u_chmod_def u_chown_def
    u_lchown_def u_utimensat_def u_chtimes_def u_lsetxattr_def u_open_dir_def u_open_trunc_def u_linkat_def
  by ((rule keeps_ucall; (simp add: nothing_def)?),
      (auto elim!: at_name_cases at_inode_cases intro!: has_ino_intros simp: owned_def
        split: option.splits kind.splits if_splits)[1])+

lemma has_ino_calls' [keeps_intro]:
  "keeps (has_ino i) (u_write p j x)" "keeps (has_ino i) (u_close p)" "keeps (has_ino i) (u_ranged xs)"
proof -
  show "keeps (has_ino i) (u_write p j x)" unfolding u_write_def by (rule keeps_ucall) (auto simp: has_ino_append)
  show "keeps (has_ino i) (u_close p)" unfolding u_close_def by (rule keeps_ucall) (auto simp: nothing_def)
  show "keeps (has_ino i) (u_ranged xs)" by (rule keepsI) (auto simp: u_ranged_def split: list.splits)
qed

lemma has_ino_remove_all [keeps_intro]: "keeps (has_ino i) (u_remove_all p)"
  unfolding u_remove_all_def
  by (intro keeps_intro keeps_ucall) (auto split: sum.splits errno.splits if_splits intro: has_ino_stamp)

section \<open>Unpacking\<close>

text \<open>A file system for an unpacker: well-formed, with the inode of the whiteout device.\<close>

definition unpack_ok :: "tar_unpacker \<Rightarrow> vfs \<Rightarrow> bool" where
  "unpack_ok u v \<longleftrightarrow> wf_vfs v \<and> (\<forall>i. whiteout_dev u = Some i \<longrightarrow> has_ino i v)"

lemma keeps_unpack_ok:
  assumes "keeps wf_vfs m" and "\<And>i. keeps (has_ino i) m"
  shows "keeps (unpack_ok u) m"
  by (rule keepsI) (use assms in \<open>auto simp: unpack_ok_def dest: keepsD\<close>)

lemma ok_u_calls [keeps_intro]:
  "keeps (unpack_ok u) (u_stat p)" "keeps (unpack_ok u) (u_lstat p)" "keeps (unpack_ok u) (u_mkdir p perm)"
  "keeps (unpack_ok u) (u_symlink s p)" "keeps (unpack_ok u) (u_link old p)" "keeps (unpack_ok u) (u_remove p)"
  "keeps (unpack_ok u) (u_chmod p m)" "keeps (unpack_ok u) (u_chown p uid gid)" "keeps (unpack_ok u) (u_lchown p uid gid)"
  "keeps (unpack_ok u) (u_utimensat p t)" "keeps (unpack_ok u) (u_chtimes p t)" "keeps (unpack_ok u) (u_lsetxattr p n x)"
  "keeps (unpack_ok u) (u_open_dir p)" "keeps (unpack_ok u) (u_open_trunc p perm)" "keeps (unpack_ok u) (u_write p j x)"
  "keeps (unpack_ok u) (u_close p)" "keeps (unpack_ok u) (u_ranged xs)" "keeps (unpack_ok u) (u_remove_all p)"
  by (intro keeps_unpack_ok keeps_intro)+

lemma wf_add_ino: "wf_vfs v \<Longrightarrow> ino_at v q = None \<Longrightarrow> kind_at v (butlast q) = Some KDir \<Longrightarrow> has_ino i v \<Longrightarrow>
    wf_vfs (add_name q i v)"
  by (simp add: wf_add_name has_ino_def)

lemma ok_linkat [keeps_intro]: "keeps (unpack_ok u) (u_linkat (whiteout_dev u) d n)"
  unfolding u_linkat_def
proof (rule keeps_ucall, goal_cases)
  case (3 v r v')
  then show ?case
    by (auto simp: unpack_ok_def intro!: wf_add_ino has_ino_add split: option.splits if_splits)
qed (simp_all add: nothing_def unpack_ok_def)

lemma ok_ensureParentDir [keeps_intro]: "keeps (unpack_ok u) (ensureParentDir_loop n u' p)"
  by (induction n arbitrary: p) (simp_all add: keeps_throw Let_def, intro keeps_intro)

lemma ok_steps [keeps_intro]:
  "keeps (unpack_ok u) (changeModTime p t)" "keeps (unpack_ok u) (safeMkdir p perm)"
  "keeps (unpack_ok u) (RemoveWhiteout u p)" "keeps (unpack_ok u) (ensureParentDir u' p)"
proof -
  show "keeps (unpack_ok u) (ensureParentDir u' p)"
    unfolding ensureParentDir_def by (rule keepsI) (rule keepsD [OF ok_ensureParentDir])
qed (unfold changeModTime_def safeMkdir_def RemoveWhiteout_def Let_def, (intro keeps_intro)+)

lemma ok_entries [keeps_intro]:
  "keeps (unpack_ok u) (createDirectory u' p h)" "keeps (unpack_ok u) (createSymlink u' p h)"
  "keeps (unpack_ok u) (createLink p h spec)" "keeps (unpack_ok u) (createRegularFile u' p e)"
  unfolding createDirectory_def createSymlink_def createLink_def createRegularFile_def copy_body_def set_xattr_def Let_def
  by (intro keeps_intro)+

lemma ok_handleEntry [keeps_intro]: "keeps (unpack_ok u) (handleEntry u' p e spec)"
  unfolding handleEntry_def by (cases "Typeflag (header e)") (simp_all, (intro keeps_intro)+)

lemma ok_unpack_entries [keeps_intro]: "keeps (unpack_ok u) (unpack_entries u spec es acc)"
proof (induction es arbitrary: acc)
  case (Cons e es)
  show ?case unfolding unpack_entries.simps Let_def by (intro keeps_intro Cons)
qed (simp add: keeps_case_option keeps_ret keeps_throw)


definition layer_vfs :: vfs where
  "layer_vfs = \<lparr>entries = [([], 0)], inodes = [0 \<mapsto> \<lparr>kind = KDir, imode = 493, iuid = 0, igid = 0,
     iprojid = 0, imtime = 0, ixattrs = []\<rparr>, 1 \<mapsto> \<lparr>kind = KDev 0, imode = 0, iuid = 0, igid = 0,
     iprojid = 0, imtime = 0, ixattrs = []\<rparr>], next_ino = 2, vfaults = [], vumask = 18, fs_uid = 0, fs_gid = 0,
     host_uid = Some, host_gid = Some, vnonces = [], clock = 99\<rparr>"

definition plain_header :: "string \<Rightarrow> typeflag \<Rightarrow> tar_header" where
  "plain_header n t = \<lparr>Name = n, Linkname = ''bin/sh'', Typeflag = t, hdr_mode = 2541, Uid = 3, Gid = 4,
     ModTime = 5, PAXRecords = []\<rparr>"

definition tar_file :: "string \<Rightarrow> typeflag \<Rightarrow> string \<Rightarrow> tar_entry" where
  "tar_file n t c = \<lparr>header = plain_header n t, body = c, body_error = None\<rparr>"

text \<open>A layer with a set-user-ID file in a directory that has no entry, a hard link, a symbolic link,
  a whiteout and an opaque directory.\<close>

definition layer_spec :: unpack_spec where
  "layer_spec = \<lparr>tar_data = \<lparr>tar_entries = [tar_file ''bin/sh'' TypeReg ''elf'', tar_file ''bin/ash'' TypeLink [],
      tar_file ''lib'' TypeSymlink [], tar_file ''bin/.wh.old'' TypeReg [], tar_file ''bin/.wh..wh..opq'' TypeReg []],
      tar_error = None\<rparr>, targetPath = ''.'', baseDirectory = []\<rparr>"

definition layer_unpacker :: tar_unpacker where
  "layer_unpacker = \<lparr>whiteout_dev = Some 1, idTranslator = NewNoopIDTranslator\<rparr>"

lemma layer_vfs_ok: "unpack_ok layer_unpacker layer_vfs"
proof -
  have ino: "ino_at layer_vfs q = (if q = [] then Some 0 else None)" for q
    by (simp add: ino_at_def layer_vfs_def)
  have root: "kind_at layer_vfs [] = Some KDir" and inodes: "inodes layer_vfs i \<noteq> None \<longleftrightarrow> i < 2" and "next_ino layer_vfs = 2" for i
    by (auto simp: kind_at_iff ino) (auto simp: layer_vfs_def split: if_splits)
  then have "wf_vfs layer_vfs"
    by (intro wf_vfsI) (auto simp: ino split: if_splits)
  then show ?thesis by (simp add: unpack_ok_def layer_unpacker_def layer_vfs_def has_ino_def)
qed

lemma layer_unpacks:
  "fst (Unpack layer_unpacker layer_spec layer_vfs) =
     Inr \<lparr>bytesWritten = 3, opaqueWhiteouts = [''bin/.wh..wh..opq'']\<rparr>"
  by code_simp


end
