(* ===== verification/Unpacker_Facts.thy ===== *)
theory Unpacker_Facts
  imports Inode_Facts
begin

text \<open>
  The unpacker is correct: what it reports is what the stream says, a regular file gets the content,
  owner and permissions of its header, a whiteout hides what it names, and the search for
  parent directories ends.
\<close>

section \<open>What is reported\<close>

definition is_opaque :: "tar_entry \<Rightarrow> bool" where
  "is_opaque e \<longleftrightarrow> contains (Name (header e)) ''.wh..wh..opq''"

definition is_whiteout :: "tar_entry \<Rightarrow> bool" where
  "is_whiteout e \<longleftrightarrow> contains (Name (header e)) ''.wh.''"

definition payload :: "tar_entry \<Rightarrow> int" where
  "payload e = (if is_whiteout e \<or> Typeflag (header e) \<noteq> TypeReg then 0 else int (length (body e)))"

lemma contains_prefix: "contains s (a @ b) \<Longrightarrow> contains s a"
  by (induction s) (auto dest: append_prefixD)

lemma opaque_whiteout: "is_opaque e \<Longrightarrow> is_whiteout e"
  unfolding is_opaque_def is_whiteout_def using contains_prefix [of _ "''.wh.''" "''.wh..opq''"] by simp

lemma payload_nonneg: "0 \<le> payload e"
  by (simp add: payload_def)

lemma logged_wrapping [simp]: "logged m (wrapping s e) w = (Inr x, w') \<longleftrightarrow> False"
  by (auto simp: logged_def elim: checked_InrE)

lemma createRegularFile_size:
  "createRegularFile u p e v = (Inr n, v') \<Longrightarrow> n = int (length (body e))"
  unfolding createRegularFile_def copy_body_def Let_def
  by (auto elim!: checked_InrE split: option.splits if_splits)

lemma handleEntry_size: "handleEntry u p e spec v = (Inr n, v') \<Longrightarrow> \<not> is_whiteout e \<Longrightarrow> n = payload e"
  unfolding handleEntry_def payload_def
  by (auto elim!: checked_throw_InrE dest: createRegularFile_size split: typeflag.splits)

lemma unpack_entries_output:
  assumes "unpack_entries u spec es acc v = (Inr out, v')" and "0 \<le> bytesWritten acc"
    and "bytesWritten acc + sum_list (map payload es) < 2 ^ 63"
  shows "tar_error (tar_data spec) = None \<and>
    opaqueWhiteouts out = opaqueWhiteouts acc @ map (\<lambda>e. entryPath spec (header e)) (filter is_opaque es) \<and>
    bytesWritten out = bytesWritten acc + sum_list (map payload es)"
  using assms
proof (induction es arbitrary: acc v)
  case Nil
  then show ?case by (auto split: option.splits)
next
  case (Cons e es)
  have rest: "0 \<le> sum_list (map payload es)" by (induction es) (auto simp: payload_nonneg)
  let ?p = "filepath_join [targetPath spec, entryPath spec (header e)]"
  consider "is_opaque e" "payload e = 0"
      "unpack_entries u spec es (acc\<lparr>opaqueWhiteouts := opaqueWhiteouts acc @ [entryPath spec (header e)]\<rparr>) v = (Inr out, v')"
    | v1 where "\<not> is_opaque e" "payload e = 0" "unpack_entries u spec es acc v1 = (Inr out, v')"
    | v1 where "\<not> is_opaque e"
      "unpack_entries u spec es (acc\<lparr>bytesWritten := i64 (bytesWritten acc + payload e)\<rparr>) v1 = (Inr out, v')"
    using Cons.prems(1) opaque_whiteout [of e] handleEntry_size [of u ?p e spec]
    by (auto simp: Let_def payload_def is_opaque_def is_whiteout_def elim!: checked_throw_InrE split: if_splits)
  then show ?case
  proof cases
    case 1
    then show ?thesis using Cons.IH [OF 1(3)] Cons.prems by simp
  next
    case 2
    then show ?thesis using Cons.IH [OF 2(3)] Cons.prems by simp
  next
    case 3
    have "i64 (bytesWritten acc + payload e) = bytesWritten acc + payload e"
      using Cons.prems rest payload_nonneg [of e] by (intro i64_id) (simp add: in_i64_def)
    then show ?thesis using Cons.IH [OF 3(2)] Cons.prems 3(1) payload_nonneg [of e] by simp
  qed
qed

text \<open>C17: what \<open>Unpack\<close> reports is what the stream says. A run that succeeds read the stream to its
  end; the size it returns is the sum of the contents of the regular files, and the opaque
  directories are those of the opaque entries, in order.\<close>

theorem Unpack_reports_stream:
  assumes "Unpack u spec v = (Inr out, v')" and "sum_list (map payload (tar_entries (tar_data spec))) < 2 ^ 63"
  shows "tar_error (tar_data spec) = None \<and>
    bytesWritten out = sum_list (map payload (tar_entries (tar_data spec))) \<and>
    opaqueWhiteouts out = map (\<lambda>e. entryPath spec (header e)) (filter is_opaque (tar_entries (tar_data spec)))"
  using assms unfolding Unpack_def by (auto elim!: checked_throw_InrE dest!: unpack_entries_output)

theorem Unpack_reports_stream_witness:
  "fst (Unpack layer_unpacker layer_spec layer_vfs) =
     Inr \<lparr>bytesWritten = sum_list (map payload (tar_entries (tar_data layer_spec))),
       opaqueWhiteouts = map (\<lambda>e. entryPath layer_spec (header e)) (filter is_opaque (tar_entries (tar_data layer_spec)))\<rparr>"
proof -
  have "\<exists>out. fst (Unpack layer_unpacker layer_spec layer_vfs) = Inr out"
    using layer_unpacks by blast
  moreover have "sum_list (map payload (tar_entries (tar_data layer_spec))) < 2 ^ 63" by code_simp
  ultimately show ?thesis
    using Unpack_reports_stream [of layer_unpacker layer_spec layer_vfs]
    by (cases "Unpack layer_unpacker layer_spec layer_vfs") auto
qed

section \<open>A regular file\<close>

text \<open>The file that is open under a name, and what a run that goes on knows of it.\<close>

definition facts_of :: "inode \<Rightarrow> kind \<times> int \<times> int \<times> int" where
  "facts_of x = (kind x, imode x, iuid x, igid x)"

definition file_at :: "string \<Rightarrow> path \<Rightarrow> nat \<Rightarrow> (int \<Rightarrow> int option) \<Rightarrow> (int \<Rightarrow> int option) \<Rightarrow> (kind \<times> int \<times> int \<times> int) \<Rightarrow> vfs \<Rightarrow> bool" where
  "file_at p q i hu hg K v \<longleftrightarrow> resolve v True p = Inr q \<and> ino_at v q = Some i \<and> host_uid v = hu \<and> host_gid v = hg \<and>
     (\<exists>x. inodes v i = Some x \<and> facts_of x = K)"

lemma host_set_inode [simp]:
  "host_uid (set_inode i x v) = host_uid v" "host_gid (set_inode i x v) = host_gid v" "clock (set_inode i x v) = clock v"
  by (simp_all add: set_inode_def)

lemma resolve_upd [simp]: "resolve (v\<lparr>vfaults := fs\<rparr>) f p = resolve v f p" "resolve (v\<lparr>vnonces := ns\<rparr>) f p = resolve v f p"
  using walk_same_shape [of v "v\<lparr>vfaults := fs\<rparr>"] walk_same_shape [of v "v\<lparr>vnonces := ns\<rparr>"]
  by (simp_all add: resolve_def same_shape_def)

lemma file_at_upd [simp]:
  "file_at p q i hu hg K (v\<lparr>vfaults := fs\<rparr>) = file_at p q i hu hg K v"
  "file_at p q i hu hg K (v\<lparr>vnonces := ns\<rparr>) = file_at p q i hu hg K v"
  by (simp_all add: file_at_def)

lemma resolve_set_inode:
  "inodes v j = Some y \<Longrightarrow> shape (Some (kind z)) = shape (Some (kind y)) \<Longrightarrow> resolve (set_inode j z v) f p = resolve v f p"
  unfolding resolve_def
proof (rule walk_same_shape)
  assume y: "inodes v j = Some y" and z: "shape (Some (kind z)) = shape (Some (kind y))"
  have "kind_at v r = Some (kind y)" if "ino_at v r = Some j" for r using that y by (auto simp: kind_at_iff)
  with z show "same_shape v (set_inode j z v)" by (simp add: same_shape_def kind_at_set_inode)
qed

lemma file_at_set_inode:
  assumes "file_at p q i hu hg K v" and "inodes v j = Some y" and "shape (Some (kind z)) = shape (Some (kind y))"
    and "j = i \<Longrightarrow> facts_of z = K'" and "j \<noteq> i \<Longrightarrow> K' = K"
  shows "file_at p q i hu hg K' (set_inode j z v)"
  using assms resolve_set_inode [OF assms(2,3)] by (cases "j = i") (auto simp: file_at_def)

lemma hoare_ucall:
  assumes "\<And>v fs. P v \<Longrightarrow> P (v\<lparr>vfaults := fs\<rparr>)" and "\<And>v x v'. P v \<Longrightarrow> m v = (Inr x, v') \<Longrightarrow> Q x v'"
  shows "hoare P (ucall err partial m) Q (\<lambda>_ _. True)"
  by (rule hoareI) (auto elim!: ucall_cases intro: assms)

lemma hoare_u_write:
  "hoare (file_at p q i hu hg (KFile c, m, u, g)) (u_write p' i s) (\<lambda>_. file_at p q i hu hg (KFile (c @ s), m, u, g)) (\<lambda>_ _. True)"
  unfolding u_write_def
  by (rule hoare_ucall) (auto simp: append_content_def file_at_def facts_of_def resolve_set_inode split: option.splits kind.splits)

lemma hoare_u_close: "hoare (file_at p q i hu hg K) (u_close p') (\<lambda>_. file_at p q i hu hg K) (\<lambda>_ _. True)"
  unfolding u_close_def by (rule hoare_ucall) auto

lemma hoare_u_chown:
  "hoare (file_at p q i hu hg (KFile c, m, u0, g0)) (u_chown p u g)
     (\<lambda>_ v. \<exists>m' u' g'. mapped hu u0 u = Some u' \<and> mapped hg g0 g = Some g' \<and> file_at p q i hu hg (KFile c, m', u', g') v) (\<lambda>_ _. True)"
  unfolding u_chown_def
  by (rule hoare_ucall)
    (auto simp: file_at_def facts_of_def owned_def resolve_set_inode elim!: at_inode_cases split: option.splits)

lemma hoare_u_chmod:
  "hoare (file_at p q i hu hg (k, m, u, g)) (u_chmod p n) (\<lambda>_. file_at p q i hu hg (k, n mod 4096, u, g)) (\<lambda>_ _. True)"
  unfolding u_chmod_def
  by (rule hoare_ucall) (auto simp: file_at_def facts_of_def resolve_set_inode elim!: at_inode_cases)

lemma hoare_harmless:
  assumes "\<And>x. facts_of (h x) = facts_of x"
  shows "hoare (file_at p q i hu hg K) (ucall err nothing (at_inode f p' (\<lambda>i x v. (Inr (), set_inode i (h x) v))))
     (\<lambda>_. file_at p q i hu hg K) (\<lambda>_ _. True)"
proof (rule hoare_ucall)
  have kind: "kind (h x) = kind x" for x using assms [of x] by (simp add: facts_of_def)
  show "file_at p q i hu hg K v'"
    if at: "file_at p q i hu hg K v" and run: "at_inode f p' (\<lambda>i x v. (Inr (), set_inode i (h x) v)) v = (Inr x, v')" for v x v'
    using run
  proof (cases rule: at_inode_cases)
    case (found r j y)
    have "file_at p q i hu hg K (set_inode j (h y) v)"
      by (rule file_at_set_inode [OF at found(3)]) (use at found assms kind in \<open>auto simp: file_at_def\<close>)
    then show ?thesis using found by simp
  qed simp
qed simp

lemma hoare_attributes:
  "hoare (file_at p q i hu hg K) (u_utimensat p' t) (\<lambda>_. file_at p q i hu hg K) (\<lambda>_ _. True)"
  "hoare (file_at p q i hu hg K) (u_chtimes p' t) (\<lambda>_. file_at p q i hu hg K) (\<lambda>_ _. True)"
  "hoare (file_at p q i hu hg K) (u_lsetxattr p' n s) (\<lambda>_. file_at p q i hu hg K) (\<lambda>_ _. True)"
  unfolding u_utimensat_def u_chtimes_def u_lsetxattr_def
  by (rule hoare_harmless; simp add: facts_of_def)+

text \<open>A new name that is neither a directory nor a link does not change where a name leads.\<close>

definition leaf :: "kind \<Rightarrow> bool" where
  "leaf k \<longleftrightarrow> k \<noteq> KDir \<and> (\<forall>t. k \<noteq> KLink t)"

lemma walk_new_name:
  assumes "walk n v f cur cs = Inr q" and "kind_at v s = None" and "kind_at v' s = Some k" "leaf k"
    and "\<And>r. r \<noteq> s \<Longrightarrow> kind_at v' r = kind_at v r"
  shows "walk n v' f cur cs = Inr q"
  using assms
proof (induction n v f cur cs rule: walk.induct)
  case (2 n v f cur d cs)
  show ?case
  proof (cases "d = [] \<or> d = ''.'' \<or> d = ''..''")
    case True
    then show ?thesis using 2(1,2,5-) by auto
  next
    case False
    show ?thesis
    proof (cases "kind_at v (cur @ [d])")
      case None
      then show ?thesis using False 2(5-) by (cases k; cases "cur @ [d] = s") (auto simp: leaf_def split: if_splits)
    next
      case (Some k0)
      then have k': "kind_at v' (cur @ [d]) = Some k0" using 2(6,9) by (cases "cur @ [d] = s") auto
      show ?thesis
      proof (cases k0)
        case KDir
        then show ?thesis using 2(3) [OF _ _ Some] 2(5-) False Some k' by simp
      next
        case (KLink t)
        show ?thesis
        proof (cases n)
          case (Suc m)
          then show ?thesis using 2(4) [OF _ _ Some KLink _ Suc] 2(5-) False Some KLink k' by (auto split: if_splits)
        qed (use 2(5-) False Some KLink k' in \<open>auto split: if_splits\<close>)
      qed (use False 2(5-) Some k' in \<open>auto split: if_splits\<close>)
    qed
  qed
qed simp

lemma stamp_frame [simp]:
  "host_uid (stamp d v) = host_uid v" "host_gid (stamp d v) = host_gid v"
  by (simp_all add: stamp_def split: option.splits)

lemma new_inode_facts:
  assumes wf: "wf_vfs v" and new: "ino_at v q = None"
  shows "ino_at (new_inode q k m v) r = (if r = q then Some (next_ino v) else ino_at v r)"
    and "kind_at (new_inode q k m v) r = (if r = q then Some k else kind_at v r)"
    and "host_uid (new_inode q k m v) = host_uid v" and "host_gid (new_inode q k m v) = host_gid v"
proof -
  let ?x = "\<lparr>kind = k, imode = m, iuid = fs_uid v, igid = fs_gid v, iprojid = 0, imtime = clock v, ixattrs = []\<rparr>"
  let ?w = "v\<lparr>next_ino := Suc (next_ino v)\<rparr>"
  let ?v = "set_inode (next_ino v) ?x ?w\<lparr>entries := (q, next_ino v) # entries (set_inode (next_ino v) ?x ?w)\<rparr>"
  have e: "entries (set_inode (next_ino v) ?x ?w) = entries v" by (simp add: set_inode_def)
  have ino: "ino_at ?v r = (if r = q then Some (next_ino v) else ino_at v r)" for r
    unfolding e by (simp add: ino_at_def)
  have ix: "inodes ?v = (inodes v)(next_ino v \<mapsto> ?x)" by simp
  have fresh: "ino_at v r \<noteq> Some (next_ino v)" for r
    using wf_vfsD(2) [OF wf, of r] wf_vfsD(4) [OF wf, of "next_ino v"] by (auto simp: inode_at_def)
  have kind: "kind_at ?v r = (if r = q then Some k else kind_at v r)"
    using fresh [of r] by (cases "ino_at v r") (simp_all add: kind_at_def inode_at_def ino ix)
  show "ino_at (new_inode q k m v) r = (if r = q then Some (next_ino v) else ino_at v r)"
    "kind_at (new_inode q k m v) r = (if r = q then Some k else kind_at v r)"
    by (simp_all add: new_inode_def add_name_def ino kind del: at_set_inode)
  show "host_uid (new_inode q k m v) = host_uid v" "host_gid (new_inode q k m v) = host_gid v"
    by (simp_all add: new_inode_def add_name_def)
qed

lemma u_open_trunc_Inr:
  assumes "u_open_trunc p m v = (Inr i, v')" and wf: "wf_vfs v"
  shows "\<exists>q m' u g. resolve v True p = Inr q \<and> file_at p q i (host_uid v) (host_gid v) (KFile [], m', u, g) v'"
proof -
  from assms(1) obtain fs w where w: "w = v\<lparr>vfaults := fs\<rparr>" and
    "at_name True p (\<lambda>q v. (case ino_at v q of
        None \<Rightarrow> (Inr (next_ino v), new_inode q (KFile []) (masked v (m mod 4096)) v)
      | Some i \<Rightarrow> (case inodes v i of
          None \<Rightarrow> (Inl ENOENT, v)
        | Some x \<Rightarrow> (case kind x of
            KDir \<Rightarrow> (Inl EISDIR, v)
          | KFile _ \<Rightarrow> (Inr i, set_inode i (x\<lparr>kind := KFile [], imtime := clock v\<rparr>) v)
          | KLink _ \<Rightarrow> (Inl ELOOP, v)
          | KDev _ \<Rightarrow> (Inl ENXIO, v)
          | KBlock _ \<Rightarrow> (Inl ENXIO, v))))) w = (Inr i, v')"
    unfolding u_open_trunc_def by (elim ucall_cases) auto
  then consider q where "resolve w True p = Inr q" "ino_at w q = None" "i = next_ino w"
      "v' = new_inode q (KFile []) (masked w (m mod 4096)) w"
    | q x c where "resolve w True p = Inr q" "ino_at w q = Some i" "inodes w i = Some x" "kind x = KFile c"
      "v' = set_inode i (x\<lparr>kind := KFile [], imtime := clock w\<rparr>) w"
    by (auto elim!: at_name_cases split: option.splits kind.splits)
  then show ?thesis
  proof cases
    case 1
    have wf': "wf_vfs w" using wf w by simp
    note n = new_inode_facts [OF wf' 1(2), of "KFile []" "masked w (m mod 4096)"]
    have "resolve v' True p = Inr q"
      unfolding resolve_def
    proof (rule walk_new_name)
      show "walk 40 w True [] (split_on CHR ''/'' p) = Inr q" using 1(1) by (simp only: resolve_def)
      show "kind_at w q = None" using 1(2) by (simp add: kind_at_def inode_at_def)
      show "kind_at v' q = Some (KFile [])" using n(2) 1(4) by simp
      show "leaf (KFile [])" by (simp add: leaf_def)
      show "kind_at v' r = kind_at w r" if "r \<noteq> q" for r using n(2) 1(4) that by simp
    qed
    moreover have "kind_at v' q = Some (KFile [])" "ino_at v' q = Some i" using n 1 by simp_all
    moreover from this obtain x where "inodes v' i = Some x" "kind x = KFile []" by (auto simp: kind_at_iff)
    moreover have "host_uid v' = host_uid v" "host_gid v' = host_gid v" using n(3,4) 1(4) w by simp_all
    ultimately have "file_at p q i (host_uid v) (host_gid v) (KFile [], imode x, iuid x, igid x) v'"
      by (simp add: file_at_def facts_of_def)
    then show ?thesis using 1(1) w by auto
  next
    case 2
    have "file_at p q i (host_uid v) (host_gid v) (KFile [], imode x, iuid x, igid x) v'"
      unfolding 2(5) using 2 w
      by (intro file_at_set_inode [where K = "facts_of x" and v = w and y = x]) (auto simp: file_at_def facts_of_def)
    then show ?thesis using 2(1) w by auto
  qed
qed

text \<open>The rest of the creation, step by step.\<close>

lemma hoare_then:
  assumes "hoare P m Q (\<lambda>_ _. True)" and "\<And>x. hoare (Q x) (k x) R (\<lambda>_ _. True)"
    and "\<And>e. hoare (\<lambda>_. True) (h e) R (\<lambda>_ _. True)"
  shows "hoare P (checked m h k) R (\<lambda>_ _. True)"
  by (rule hoare_checked [OF assms(1)]) (use assms(2,3) in \<open>auto simp: hoare_def\<close>)

lemma hoare_refuse [simp]: "hoare (\<lambda>_. True) (throw e) R (\<lambda>_ _. True)" "hoare (\<lambda>_. True) (wrapping s e) R (\<lambda>_ _. True)"
  by simp_all

lemma hoare_changeModTime:
  "hoare (file_at p q i hu hg K) (changeModTime p' t) (\<lambda>_. file_at p q i hu hg K) (\<lambda>_ _. True)"
proof -
  have "hoare (file_at p q i hu hg K) (u_utimensat p' t) (\<lambda>_. file_at p q i hu hg K) (\<lambda>_. file_at p q i hu hg K)"
  proof (rule hoareI)
    fix v e v'
    assume "file_at p q i hu hg K v" and "u_utimensat p' t v = (Inl e, v')"
    then show "file_at p q i hu hg K v'"
      unfolding u_utimensat_def by (auto elim!: ucall_cases at_inode_cases simp: nothing_def)
  qed (rule hoare_Inr [OF hoare_attributes(1)])
  then show ?thesis
    unfolding changeModTime_def
    by (rule hoare_checked) (use hoare_attributes(2) in auto)
qed

lemma hoare_set_xattrs:
  "hoare (file_at p q i hu hg K) (for_each rs (set_xattr p')) (\<lambda>_. file_at p q i hu hg K) (\<lambda>_ _. True)"
proof (induction rs)
  case (Cons r rs)
  have "hoare (file_at p q i hu hg K) (set_xattr p' r) (\<lambda>_. file_at p q i hu hg K) (\<lambda>_ _. True)"
    unfolding set_xattr_def Let_def by (cases r) (auto intro!: hoare_then hoare_attributes)
  with Cons show ?case by (auto intro!: hoare_then)
qed (simp add: hoare_def)

lemma hoare_copy_body:
  "hoare (file_at p q i hu hg (KFile [], m, u, g)) (copy_body p' i e)
     (\<lambda>n v. n = int (length (body e)) \<and> file_at p q i hu hg (KFile (body e), m, u, g) v) (\<lambda>_ _. True)"
  unfolding copy_body_def
  by (rule hoare_then [where Q = "\<lambda>_. file_at p q i hu hg (KFile (body e), m, u, g)"])
    (use hoare_u_write [where c = "[]"] in \<open>auto split: option.splits\<close>)

text \<open>C13: a regular file is unpacked as its header says. When it succeeds, the name leads to a
  file with the content of the stream, the permissions of the header with its set-user-ID and
  set-group-ID bits, which the change of the owner would have cleared, and the host ids of
  the translated owner; its size is what is returned. The name leads where it led before.\<close>

theorem createRegularFile_file:
  assumes "createRegularFile un p e v = (Inr n, v')" and "wf_vfs v"
    and uid: "TranslateUID (idTranslator un) (Uid (header e)) \<noteq> - 1" and gid: "TranslateGID (idTranslator un) (Gid (header e)) \<noteq> - 1"
  shows "n = int (length (body e)) \<and> (\<exists>q x. resolve v True p = Inr q \<and> resolve v' True p = Inr q \<and> inode_at v' q = Some x \<and>
    kind x = KFile (body e) \<and> imode x = hdr_mode (header e) mod 4096 \<and>
    host_uid v (TranslateUID (idTranslator un) (Uid (header e))) = Some (iuid x) \<and>
    host_gid v (TranslateGID (idTranslator un) (Gid (header e))) = Some (igid x))"
proof -
  let ?h = "header e" and ?u = "TranslateUID (idTranslator un) (Uid (header e))"
    and ?g = "TranslateGID (idTranslator un) (Gid (header e))"
  define st where "st P i w \<longleftrightarrow> (\<exists>q m u g. resolve v True p = Inr q \<and> P m u g \<and>
    file_at p q i (host_uid v) (host_gid v) (KFile (body e), m, u, g) w)" for P i w
  let ?own = "\<lambda>m u g. host_uid v ?u = Some u \<and> host_gid v ?g = Some g"
  let ?all = "\<lambda>m u g. ?own m u g \<and> m = hdr_mode ?h mod 4096"
  have opened: "hoare (\<lambda>w. w = v) (u_open_trunc p (hdr_mode ?h)) (\<lambda>i w. \<exists>q m u g. resolve v True p = Inr q \<and>
      file_at p q i (host_uid v) (host_gid v) (KFile [], m, u, g) w) (\<lambda>_ _. True)"
    using u_open_trunc_Inr [OF _ assms(2)] by (auto intro!: hoareI)
  have copied: "hoare (\<lambda>w. \<exists>q m u g. resolve v True p = Inr q \<and> file_at p q i (host_uid v) (host_gid v) (KFile [], m, u, g) w)
      (copy_body p i e) (\<lambda>n w. n = int (length (body e)) \<and> st (\<lambda>_ _ _. True) i w) (\<lambda>_ _. True)" for i
    unfolding st_def by (rule hoareI; blast dest: hoare_Inr [OF hoare_copy_body])
  have lift: "hoare (\<lambda>w. n = N \<and> st P i w) M (\<lambda>_ w. n = N \<and> st P i w) (\<lambda>_ _. True)"
    if M: "\<And>q K. hoare (file_at p q i (host_uid v) (host_gid v) K) M (\<lambda>_. file_at p q i (host_uid v) (host_gid v) K) (\<lambda>_ _. True)"
    for n N :: int and i P and M :: "'b usys"
    unfolding st_def by (rule hoareI; blast dest: hoare_Inr [OF M])
  have chown: "hoare (\<lambda>w. n = N \<and> st (\<lambda>_ _ _. True) i w) (u_chown p ?u ?g) (\<lambda>_ w. n = N \<and> st ?own i w) (\<lambda>_ _. True)" for n N :: int and i
  proof (rule hoareI)
    fix w w' x
    assume a: "n = N \<and> st (\<lambda>_ _ _. True) i w" and run: "u_chown p ?u ?g w = (Inr x, w')"
    then obtain q m u0 g0 where "resolve v True p = Inr q"
      and at: "file_at p q i (host_uid v) (host_gid v) (KFile (body e), m, u0, g0) w" unfolding st_def by blast
    with hoare_Inr [OF hoare_u_chown at run] uid gid a show "n = N \<and> st ?own i w'"
      unfolding st_def mapped_def by auto
  qed simp
  have chmod: "hoare (\<lambda>w. n = N \<and> st ?own i w) (u_chmod p (hdr_mode ?h)) (\<lambda>_ w. n = N \<and> st ?all i w) (\<lambda>_ _. True)" for n N :: int and i
    unfolding st_def by (rule hoareI; blast dest: hoare_Inr [OF hoare_u_chmod])
  have ranged: "hoare (file_at p q i hu hg K) (u_ranged rs) (\<lambda>_. file_at p q i hu hg K) (\<lambda>_ _. True)"
    for q i hu hg K and rs :: "(string \<times> string) list"
    by (auto simp: hoare_def u_ranged_def split: list.splits)
  have "hoare (\<lambda>w. w = v) (createRegularFile un p e) (\<lambda>n w. n = int (length (body e)) \<and> (\<exists>i. st ?all i w)) (\<lambda>_ _. True)"
    unfolding createRegularFile_def Let_def
    by (rule hoare_then [OF opened], rule hoare_then [OF copied], rule hoare_then [OF lift [OF hoare_u_close]],
        rule hoare_then [OF chown], rule hoare_then [OF chmod], rule hoare_then [OF lift [OF hoare_changeModTime]],
        rule hoare_then [OF lift [OF ranged]], rule hoare_then [OF lift [OF hoare_set_xattrs]])
      (auto simp: hoare_def split: sum.splits)
  from hoare_Inr [OF this refl assms(1)] show ?thesis by (auto simp: st_def file_at_def facts_of_def inode_at_def)
qed

theorem createRegularFile_file_witness:
  "\<exists>q x. inode_at (snd (createRegularFile layer_unpacker ''sh'' (tar_file ''sh'' TypeReg ''elf'') layer_vfs)) q = Some x \<and>
     kind x = KFile ''elf'' \<and> imode x = 2541 \<and> iuid x = 3 \<and> igid x = 4"
proof -
  let ?e = "tar_file ''sh'' TypeReg ''elf''"
  have "fst (createRegularFile layer_unpacker ''sh'' ?e layer_vfs) = Inr 3" by code_simp
  then obtain v' where run: "createRegularFile layer_unpacker ''sh'' ?e layer_vfs = (Inr 3, v')"
    by (cases "createRegularFile layer_unpacker ''sh'' ?e layer_vfs") auto
  have wf: "wf_vfs layer_vfs" using layer_vfs_ok by (simp add: unpack_ok_def)
  have tr: "TranslateUID (idTranslator layer_unpacker) n = n" "TranslateGID (idTranslator layer_unpacker) n = n" for n
    by (simp_all add: layer_unpacker_def NewNoopIDTranslator_def)
  have h: "header ?e = plain_header ''sh'' TypeReg" "body ?e = ''elf''" "Uid (plain_header ''sh'' TypeReg) = 3"
    "Gid (plain_header ''sh'' TypeReg) = 4" "hdr_mode (plain_header ''sh'' TypeReg) = 2541"
    by (simp_all add: plain_header_def tar_file_def)
  have "host_uid layer_vfs = Some" "host_gid layer_vfs = Some" by (simp_all add: layer_vfs_def)
  with createRegularFile_file [OF run wf] show ?thesis unfolding tr h run by auto
qed

section \<open>Whiteouts\<close>

definition ino_kind :: "nat \<Rightarrow> kind \<Rightarrow> vfs \<Rightarrow> bool" where
  "ino_kind i k v \<longleftrightarrow> (\<exists>x. inodes v i = Some x \<and> kind x = k)"

lemma ino_kind_simps [simp]:
  "ino_kind i k (v\<lparr>vfaults := fs\<rparr>) = ino_kind i k v" "ino_kind i k (drop_names D v) = ino_kind i k v"
  "ino_kind i k (v\<lparr>entries := es\<rparr>) = ino_kind i k v"
  by (simp_all add: ino_kind_def drop_names_def)

lemma ino_kind_stamp [simp]: "ino_kind i k (stamp d v) = ino_kind i k v"
  by (auto simp: stamp_def ino_kind_def split: option.splits)

lemma keeps_ino_kind [keeps_intro]:
  "keeps (ino_kind i k) (u_open_dir p)" "keeps (ino_kind i k) (u_remove_all p)"
proof -
  show "keeps (ino_kind i k) (u_open_dir p)"
    unfolding u_open_dir_def by (rule keeps_ucall) (auto simp: nothing_def elim!: at_name_cases split: if_splits)
  show "keeps (ino_kind i k) (u_remove_all p)"
    unfolding u_remove_all_def by (intro keeps_intro keeps_ucall) (auto split: sum.splits errno.splits if_splits)
qed

lemma u_open_dir_Inr:
  "u_open_dir p v = (Inr q, v') \<Longrightarrow> resolve v' True p = Inr q \<and> (\<exists>fs. v' = v\<lparr>vfaults := fs\<rparr>)"
  unfolding u_open_dir_def by (auto elim!: ucall_cases at_name_cases split: if_splits)

lemma u_linkat_Inr:
  assumes "u_linkat s d n v = (Inr (), v')"
  shows "\<exists>i fs. s = Some i \<and> kind_at v d = Some KDir \<and> ino_at v (d @ [n]) = None \<and> v' = add_name (d @ [n]) i (v\<lparr>vfaults := fs\<rparr>)"
  using assms unfolding u_linkat_def by (auto elim!: ucall_cases split: option.splits if_splits)

lemma add_name_facts:
  "ino_at (add_name q i v) r = (if r = q then Some i else ino_at v r)"
  "kind_at (add_name q i v) r = (if r = q then map_option kind (inodes v i) else kind_at v r)"
  by (simp_all add: add_name_def) (simp_all add: ino_at_def kind_at_def inode_at_def)

text \<open>C15: a whiteout hides what it names. After a removal that succeeds, the name without the
  marker is the whiteout device, in the directory that the name's directory leads to, and
  there is nothing below it.\<close>

theorem RemoveWhiteout_hides:
  assumes ok: "unpack_ok u v" and dev: "whiteout_dev u = Some i" "ino_kind i (KDev 0) v"
    and run: "RemoveWhiteout u p v = (Inr (), v')"
  shows "\<exists>d. resolve v' True (filepath_dir (replace_first p ''.wh.'' [])) = Inr d \<and>
    kind_at v' (d @ [filepath_base (replace_first p ''.wh.'' [])]) = Some (KDev 0) \<and>
    (\<forall>r. strict_prefix (d @ [filepath_base (replace_first p ''.wh.'' [])]) r \<longrightarrow> ino_at v' r = None)"
proof -
  let ?p = "replace_first p ''.wh.'' []"
  from run obtain v1 d v2 where rm: "u_remove_all ?p v = (Inr (), v1)" and op: "u_open_dir (filepath_dir ?p) v1 = (Inr d, v2)"
    and ln: "u_linkat (whiteout_dev u) d (filepath_base ?p) v2 = (Inr (), v')"
    unfolding RemoveWhiteout_def Let_def by (auto elim!: checked_wrap_InrE)
  let ?q = "d @ [filepath_base ?p]"
  have "unpack_ok u v2" using keepsD [OF ok_u_calls(13)] keepsD [OF ok_u_calls(18)] ok rm op by blast
  then have wf: "wf_vfs v2" by (simp add: unpack_ok_def)
  have kind: "ino_kind i (KDev 0) v2" using keepsD [OF keeps_ino_kind(1)] keepsD [OF keeps_ino_kind(2)] dev rm op by blast
  from u_linkat_Inr [OF ln] dev obtain fs where d: "kind_at v2 d = Some KDir" and new: "ino_at v2 ?q = None"
    and v': "v' = add_name ?q i (v2\<lparr>vfaults := fs\<rparr>)" by auto
  have k: "kind_at v' r = (if r = ?q then Some (KDev 0) else kind_at v2 r)" for r
    using kind by (auto simp: v' add_name_facts ino_kind_def)
  have "walk 40 v2 True [] (split_on CHR ''/'' (filepath_dir ?p)) = Inr d"
    using u_open_dir_Inr [OF op] by (simp add: resolve_def)
  then have "walk 40 v' True [] (split_on CHR ''/'' (filepath_dir ?p)) = Inr d"
  proof (rule walk_new_name)
    show "kind_at v2 ?q = None" using new by (simp add: kind_at_def inode_at_def)
  qed (use k in \<open>auto simp: leaf_def\<close>)
  moreover have "ino_at v' r = None" if "strict_prefix ?q r" for r
    using wf_prefix [OF wf, of r ?q] new that by (cases "ino_at v2 r") (auto simp: v' add_name_facts strict_prefix_def)
  ultimately show ?thesis using k by (auto simp: resolve_def)
qed

definition old_vfs :: vfs where
  "old_vfs = layer_vfs\<lparr>entries := [([''d''], 2), ([''d'', ''f''], 3), ([], 0)],
     inodes := (inodes layer_vfs)(2 \<mapsto> the (inodes layer_vfs 0), 3 \<mapsto> (the (inodes layer_vfs 0))\<lparr>kind := KFile ''x''\<rparr>), next_ino := 4\<rparr>"

lemma old_vfs_ok: "unpack_ok layer_unpacker old_vfs"
proof -
  have ino: "ino_at old_vfs q = (if q = [] then Some 0 else if q = [''d''] then Some 2 else if q = [''d'', ''f''] then Some 3 else None)" for q
    by (simp add: ino_at_def old_vfs_def)
  have root: "kind_at old_vfs [] = Some KDir" "kind_at old_vfs [''d''] = Some KDir" and inodes: "inodes old_vfs i \<noteq> None \<longleftrightarrow> i < 4"
    and "next_ino old_vfs = 4" for i
    by (auto simp: kind_at_iff ino) (auto simp: old_vfs_def layer_vfs_def split: if_splits)
  then have "wf_vfs old_vfs"
    by (intro wf_vfsI) (auto simp: ino split: if_splits)
  then show ?thesis using inodes by (simp add: unpack_ok_def layer_unpacker_def has_ino_def)
qed

theorem RemoveWhiteout_hides_witness:
  "fst (RemoveWhiteout layer_unpacker ''.wh.d'' old_vfs) = Inr () \<and>
   kind_at (snd (RemoveWhiteout layer_unpacker ''.wh.d'' old_vfs)) [''d''] = Some (KDev 0) \<and>
   ino_at (snd (RemoveWhiteout layer_unpacker ''.wh.d'' old_vfs)) [''d'', ''f''] = None"
proof -
  have "fst (RemoveWhiteout layer_unpacker ''.wh.d'' old_vfs) = Inr ()"
    and res: "resolve (snd (RemoveWhiteout layer_unpacker ''.wh.d'' old_vfs)) True ''.'' = Inr []"
    and p: "filepath_dir (replace_first ''.wh.d'' ''.wh.'' []) = ''.''" "filepath_base (replace_first ''.wh.d'' ''.wh.'' []) = ''d''"
    by code_simp+
  moreover have "ino_kind 1 (KDev 0) old_vfs" by (simp add: ino_kind_def old_vfs_def layer_vfs_def)
  moreover have "whiteout_dev layer_unpacker = Some 1" by (simp add: layer_unpacker_def)
  ultimately show ?thesis
    using RemoveWhiteout_hides [OF old_vfs_ok, of 1 "''.wh.d''"]
    by (cases "RemoveWhiteout layer_unpacker ''.wh.d'' old_vfs") (auto simp: strict_prefix_def)
qed

text \<open>The marker is looked for anywhere in a name, not only at its start: the entry of a regular file
  \<open>d.wh.\<close> makes the directory \<open>d\<close> go.\<close>

lemma whiteout_anywhere:
  "let (r, v) = Unpack layer_unpacker (layer_spec\<lparr>tar_data := \<lparr>tar_entries = [tar_file ''d.wh.'' TypeReg ''data''], tar_error = None\<rparr>\<rparr>) old_vfs in
     r = Inr \<lparr>bytesWritten = 0, opaqueWhiteouts = []\<rparr> \<and> kind_at v [''d''] = Some (KDev 0) \<and> ino_at v [''d.wh.''] = None"
  by code_simp

section \<open>Parent directories\<close>

text \<open>The directory of a name is shorter than the name, or the root or the working directory.\<close>

definition total :: "string list \<Rightarrow> nat" where
  "total cs = sum_list (map (\<lambda>c. Suc (length c)) cs)"

lemma total_simps [simp]: "total [] = 0" "total (c # cs) = Suc (length c) + total cs" "total (as @ bs) = total as + total bs" "total (rev cs) = total cs"
  by (simp_all add: total_def rev_map [symmetric])

lemma total_split: "total (split_on c s) = Suc (length s)"
  by (induction s) (auto split: list.splits simp: total_def)

lemma length_join: "cs \<noteq> [] \<Longrightarrow> length (join_with [c] cs) = total cs - 1"
  by (induction "[c]" cs rule: join_with.induct) auto

lemma total_push: "total (push_comp r st c) \<le> total st + (if c = [] then 0 else Suc (length c))"
  by (cases st) auto

lemma total_clean: "total (clean_comps r cs) \<le> total (filter (\<lambda>c. c \<noteq> []) cs)"
proof -
  have "total (foldl (push_comp r) st cs) \<le> total st + total (filter (\<lambda>c. c \<noteq> []) cs)" for st
  proof (induction cs arbitrary: st)
    case (Cons c cs)
    show ?case using Cons [of "push_comp r st c"] total_push [of r st c] by (auto split: if_splits)
  qed simp
  from this [of "[]"] show ?thesis by (simp add: clean_comps_def)
qed

lemma total_filter: "total (filter P cs) \<le> total cs"
  by (induction cs) auto

lemma filepath_clean_dir:
  assumes "s = t @ ''/''"
  shows "filepath_clean s \<in> {''.'', ''/''} \<or> length (filepath_clean s) < length s"
proof -
  let ?ne = "filter (\<lambda>c. c \<noteq> [])"
  let ?cs = "clean_comps (is_rooted s) (split_on CHR ''/'' s)"
  have sp: "split_on CHR ''/'' s = split_on CHR ''/'' t @ [[]]"
    using split_on_append [of "CHR ''/''" t "[]"] assms by simp
  have le: "total ?cs \<le> total (?ne (split_on CHR ''/'' t))"
    using total_clean [of "is_rooted s" "split_on CHR ''/'' s"] by (simp add: sp)
  show ?thesis
  proof (cases "?cs = []")
    case True
    then show ?thesis by (simp add: filepath_clean_def Let_def)
  next
    case False
    then have len: "length (join_with ''/'' ?cs) = total ?cs - 1" "0 < total ?cs"
      using length_join [of ?cs "CHR ''/''"] by (auto simp: neq_Nil_conv)
    show ?thesis
    proof (cases "is_rooted s")
      case True
      then obtain t1 where t1: "t = CHR ''/'' # t1 \<or> t = []" using assms by (cases t) (auto simp: is_rooted_def)
      then have "t \<noteq> []" using le len by auto
      with t1 have "total (?ne (split_on CHR ''/'' t)) \<le> length t"
        using total_filter [of "\<lambda>c. c \<noteq> []" "split_on CHR ''/'' t1"] total_split [of "CHR ''/''" t1] by auto
      then show ?thesis using True le len assms by (simp add: filepath_clean_def Let_def)
    next
      case nr: False
      have "total (?ne (split_on CHR ''/'' t)) \<le> Suc (length t)"
        using total_filter [of "\<lambda>c. c \<noteq> []" "split_on CHR ''/'' t"] total_split [of "CHR ''/''" t] by simp
      then have "total ?cs - 1 < length s" using le len(2) assms by simp
      then show ?thesis using nr False len(1) by (simp add: filepath_clean_def Let_def)
    qed
  qed
qed

lemma filepath_dir_shorter:
  "filepath_dir s \<in> {''.'', ''/''} \<or> length (filepath_dir s) < length s"
proof -
  define t where "t = rev (dropWhile (\<lambda>c. c \<noteq> CHR ''/'') (rev s))"
  have len: "length t \<le> length s" unfolding t_def using length_dropWhile_le [of _ "rev s"] by simp
  show ?thesis
  proof (cases "dropWhile (\<lambda>c. c \<noteq> CHR ''/'') (rev s)")
    case Nil
    then have "t = []" by (simp add: t_def)
    moreover have "filepath_dir s = filepath_clean t" by (simp only: filepath_dir_def t_def)
    ultimately have "filepath_dir s = filepath_clean []" by simp
    then show ?thesis by (simp add: filepath_clean_def clean_comps_def is_rooted_def)
  next
    case (Cons c cs)
    then have "c = CHR ''/''" using hd_dropWhile [of "\<lambda>c. c \<noteq> CHR ''/''" "rev s"] by auto
    with Cons have "t = rev cs @ ''/''" by (simp add: t_def)
    from filepath_clean_dir [OF this] len show ?thesis by (auto simp: filepath_dir_def t_def)
  qed
qed

lemma u_stat_root:
  assumes "wf_vfs v" and "p \<in> {''.'', ''/''}"
  shows "\<exists>x v'. u_stat p v = (Inr x, v') \<or> (\<exists>e. u_stat p v = (Inl e, v') \<and> length (vfaults v') < length (vfaults v))"
proof -
  have "resolve v True p = Inr []" for v using assms(2) by (auto simp: resolve_def)
  moreover obtain i x where "ino_at v [] = Some i" "inodes v i = Some x" using wf_vfsD(1) [OF assms(1)] by (auto simp: kind_at_iff)
  ultimately show ?thesis
    by (auto simp: u_stat_def nothing_def ucall_def at_inode_def at_name_def split: list.splits option.splits prod.splits)
qed

lemma u_stat_faults: "u_stat p v = (r, v') \<Longrightarrow> length (vfaults v') \<le> length (vfaults v) \<and> wf_vfs v' = wf_vfs v"
  unfolding u_stat_def
  by (auto simp: ucall_def nothing_def split: list.splits option.splits prod.splits sum.splits elim!: at_inode_cases)

text \<open>Operations that do not panic.\<close>

definition calm :: "('w, 'a) io \<Rightarrow> bool" where
  "calm m \<longleftrightarrow> (\<forall>v e v'. m v = (Inl e, v') \<longrightarrow> \<not> is_panic e)"

lemma calm_ucall: "(\<And>e. \<not> is_panic (err e)) \<Longrightarrow> calm (ucall err partial m)"
  unfolding calm_def by (auto elim!: ucall_cases)

lemma calm_simps [simp]: "calm (ret x)" "calm (throw e) \<longleftrightarrow> \<not> is_panic e" "calm (wrapping s e)"
  by (simp_all add: calm_def)

lemma calm_checked: "calm m \<Longrightarrow> (\<And>e. \<not> is_panic e \<Longrightarrow> calm (h e)) \<Longrightarrow> (\<And>x. calm (k x)) \<Longrightarrow> calm (checked m h k)"
  unfolding calm_def by (auto simp: checked_def split: prod.splits sum.splits if_splits)

lemma calm_calls [simp]: "calm (u_stat p)" "calm (u_mkdir p m)" "calm (u_chmod p m)" "calm (u_chown p uid gid)"
  unfolding u_stat_def u_mkdir_def u_chmod_def u_chown_def by (rule calm_ucall; simp)+

lemma ensureParentDir_loop_stops:
  assumes "wf_vfs v" and "(if p \<in> {''.'', ''/''} then 0 else length p) + length (vfaults v) < n"
    and "ensureParentDir_loop n u p v = (Inl e, v')"
  shows "\<not> is_panic e"
  using assms
proof (induction n arbitrary: p v e v')
  case (Suc n)
  let ?d = "filepath_dir p" and ?top = "\<lambda>p. p \<in> {''.'', ''/''}"
  let ?make = "checked (u_mkdir ?d defaultDirectoryFileMode)
               (wrapping (''creating parent dir `'' @ ?d @ ''`'')) (\<lambda>_.
             checked (u_chmod ?d defaultDirectoryFileMode) throw (\<lambda>_.
             u_chown ?d (TranslateUID (idTranslator u) defaultDirectoryUid)
               (TranslateGID (idTranslator u) defaultDirectoryGid)))"
  have make: "calm ?make" by (intro calm_checked) simp_all
  obtain r v1 where st: "u_stat ?d v = (r, v1)" by (cases "u_stat ?d v")
  note f = u_stat_faults [OF st]
  show ?case
  proof (cases r)
    case (Inl e1)
    then have np: "\<not> is_panic e1" using calm_calls(1) [of ?d] st unfolding calm_def by blast
    have "(if ?top ?d then 0 else length ?d) + length (vfaults v1) < n"
    proof (cases "?top ?d")
      case True
      then have "length (vfaults v1) < length (vfaults v)" using u_stat_root [OF Suc.prems(1) True] st Inl by auto
      then show ?thesis using True Suc.prems(2) by simp
    next
      case False
      then have "length ?d < length p" using filepath_dir_shorter [of p] by simp
      moreover have "\<not> ?top p" using False by (auto simp: filepath_dir_def filepath_clean_def clean_comps_def is_rooted_def)
      ultimately show ?thesis using False f Suc.prems(2) by simp
    qed
    then have IH: "ensureParentDir_loop n u ?d v1 = (Inl e2, v2) \<Longrightarrow> \<not> is_panic e2" for e2 v2
      using Suc.IH [of v1 ?d] f Suc.prems(1) by simp
    have "ensureParentDir_loop (Suc n) u p v = checked (ensureParentDir_loop n u ?d) throw (\<lambda>_. ?make) v1"
      using st Inl np by (simp add: Let_def)
    then show ?thesis using Suc.prems(3) IH make unfolding calm_def
      by (auto simp: checked_def [of "ensureParentDir_loop n u ?d"] split: prod.splits sum.splits if_splits)
  next
    case (Inr x)
    then show ?thesis using st Suc.prems(3) by (simp add: Let_def)
  qed
qed simp

text \<open>The search for a directory that exists ends: \<open>ensureParentDir\<close> never recurses without end. Each
  step shortens the name until it is the root or the working directory, where only a fault
  can make \<open>stat\<close> fail; the fuel of the model, the length of the name and the number of
  scheduled calls, is enough, so that a stack overflow is never its result.\<close>

theorem ensureParentDir_stops:
  assumes "wf_vfs v"
  shows "fst (ensureParentDir u p v) \<noteq> Inl (Panic s)"
proof
  let ?n = "Suc (length p + length (vfaults v))"
  assume a: "fst (ensureParentDir u p v) = Inl (Panic s)"
  obtain r v' where run: "ensureParentDir_loop ?n u p v = (r, v')" by (cases "ensureParentDir_loop ?n u p v")
  then have "r = Inl (Panic s)" using a unfolding ensureParentDir_def by (simp del: ensureParentDir_loop.simps)
  moreover have "(if p \<in> {''.'', ''/''} then 0 else length p) + length (vfaults v) < ?n" by simp
  ultimately have "\<not> is_panic (Panic s)" using ensureParentDir_loop_stops [OF assms _ run [unfolded \<open>r = Inl (Panic s)\<close>]] by blast
  then show False by simp
qed

theorem ensureParentDir_stops_witness:
  "fst (ensureParentDir layer_unpacker ''a/b/c'' layer_vfs) = Inr ()"
proof -
  have "wf_vfs layer_vfs" using layer_vfs_ok by (simp add: unpack_ok_def)
  from ensureParentDir_stops [OF this, of layer_unpacker "''a/b/c''" "''stack overflow''"]
  have "fst (ensureParentDir layer_unpacker ''a/b/c'' layer_vfs) \<noteq> Inl (Panic ''stack overflow'')" .
  moreover have "fst (ensureParentDir layer_unpacker ''a/b/c'' layer_vfs) = Inr ()" by code_simp
  ultimately show ?thesis by blast
qed

end
