(* ===== verification/Go_URL.thy ===== *)
theory Go_URL
  imports Groot_Types Json
begin

text \<open>
  What the commands use of Go's package \<open>net/url\<close>: a base image is given as a URL whose scheme
  chooses where it comes from. \<open>url_Parse\<close> and \<open>url_String\<close> are \<open>url.Parse\<close> and \<open>URL.String\<close>.
  An authority with user information, an IPv6 literal or an escape is left to an argument,
  which gives the host and the text it is printed as.
\<close>

record base_url =
  Scheme :: string
  Opaque :: string
  Host :: string
  authority :: string \<comment> \<open>as printed\<close>
  Path :: string
  RawPath :: string
  OmitHost :: bool
  RawQuery :: string
  ForceQuery :: bool
  RawFragment :: string

definition is_letter :: "char \<Rightarrow> bool" where
  "is_letter c \<longleftrightarrow> (let n = of_char c :: nat in (65 \<le> n \<and> n \<le> 90) \<or> (97 \<le> n \<and> n \<le> 122))"

definition is_digit :: "char \<Rightarrow> bool" where
  "is_digit c \<longleftrightarrow> (let n = of_char c :: nat in 48 \<le> n \<and> n \<le> 57)"

definition url_error :: "string \<Rightarrow> string \<Rightarrow> goerr" where
  "url_error raw msg = UrlErr (''parse '' @ [quote] @ raw @ [quote] @ '': '' @ msg) False"

section \<open>Escapes\<close>

definition path_safe :: "char \<Rightarrow> bool" where
  "path_safe c \<longleftrightarrow> is_letter c \<or> is_digit c \<or> c \<in> set ''-_.~$&+,/:;=@''"

definition fragment_safe :: "char \<Rightarrow> bool" where
  "fragment_safe c \<longleftrightarrow> path_safe c \<or> c \<in> set ''?!()*''"

definition upper_hex :: "nat \<Rightarrow> char" where
  "upper_hex n = ''0123456789ABCDEF'' ! n"

definition escape :: "(char \<Rightarrow> bool) \<Rightarrow> string \<Rightarrow> string" where
  "escape safe s = concat (map (\<lambda>c. if safe c then [c]
     else [CHR ''%'', upper_hex (of_char c div 16), upper_hex (of_char c mod 16)]) s)"

fun unescape :: "string \<Rightarrow> string option" where
  "unescape [] = Some []"
| "unescape (c # s) =
     (if c \<noteq> CHR ''%'' then map_option (Cons c) (unescape s)
      else (case s of
          x # y # t \<Rightarrow> (case (hex_val x, hex_val y) of
              (Some a, Some b) \<Rightarrow> map_option (Cons (char_of (16 * a + b))) (unescape t)
            | _ \<Rightarrow> None)
        | _ \<Rightarrow> None))"

text \<open>The first escape that is not one, as the error shows it.\<close>

fun bad_escape :: "string \<Rightarrow> string" where
  "bad_escape [] = []"
| "bad_escape (c # s) =
     (if c \<noteq> CHR ''%'' then bad_escape s
      else (case s of
          x # y # t \<Rightarrow> if hex_val x \<noteq> None \<and> hex_val y \<noteq> None then bad_escape t else [c, x, y]
        | _ \<Rightarrow> c # s))"

text \<open>The escaped form is the one that was given, if that is a valid encoding.\<close>

definition valid_encoded :: "(char \<Rightarrow> bool) \<Rightarrow> string \<Rightarrow> bool" where
  "valid_encoded safe s \<longleftrightarrow> list_all (\<lambda>c. safe c \<or> c \<in> set ''!$&'()*+,;=:@[]%'') s"

definition re_escaped :: "(char \<Rightarrow> bool) \<Rightarrow> string \<Rightarrow> string \<Rightarrow> string" where
  "re_escaped safe raw decoded =
     (if raw \<noteq> [] \<and> valid_encoded safe raw \<and> unescape raw = Some decoded then raw
      else escape safe decoded)"

section \<open>Parsing\<close>

fun getScheme_from :: "nat \<Rightarrow> string \<Rightarrow> string \<Rightarrow> (string \<times> string) option" where
  "getScheme_from i raw [] = Some ([], raw)"
| "getScheme_from i raw (c # s) =
     (if is_letter c then getScheme_from (Suc i) raw s
      else if is_digit c \<or> c \<in> set ''+-.'' then (if i = 0 then Some ([], raw) else getScheme_from (Suc i) raw s)
      else if c = CHR '':'' then (if i = 0 then None else Some (take i raw, s))
      else Some ([], raw))"

definition getScheme :: "string \<Rightarrow> (string \<times> string) option" where
  "getScheme raw = getScheme_from 0 raw raw"

text \<open>\<open>strings.Cut\<close>.\<close>

definition cut :: "char \<Rightarrow> string \<Rightarrow> string \<times> string" where
  "cut c s = (takeWhile (\<lambda>x. x \<noteq> c) s, tl (dropWhile (\<lambda>x. x \<noteq> c) s))"

definition plain_host :: "string \<Rightarrow> bool" where
  "plain_host s \<longleftrightarrow> list_all (\<lambda>c. is_letter c \<or> is_digit c \<or> c \<in> set ''-_.~'') s"

definition plain_authority :: "string \<Rightarrow> bool" where
  "plain_authority s \<longleftrightarrow> (case split_on CHR '':'' s of
     [h] \<Rightarrow> plain_host h | [h, port] \<Rightarrow> plain_host h \<and> list_all is_digit port | _ \<Rightarrow> False)"

definition invalid_escape :: "string \<Rightarrow> string" where
  "invalid_escape s = ''invalid URL escape '' @ [quote] @ bad_escape s @ [quote]"

definition is_control :: "char \<Rightarrow> bool" where
  "is_control c \<longleftrightarrow> (of_char c :: nat) < 32 \<or> (of_char c :: nat) = 127"

definition url_Parse :: "(string \<Rightarrow> goerr + (string \<times> string)) \<Rightarrow> string \<Rightarrow> goerr + base_url" where
  "url_Parse other_authority rawURL =
     (let (u, frag) = cut CHR ''#'' rawURL; failing = (\<lambda>msg. Inl (url_error u msg));
          check_fragment = (\<lambda>url. if unescape frag = None then Inl (url_error rawURL (invalid_escape frag)) else Inr url) in
      if list_ex is_control u then failing ''net/url: invalid control character in URL''
      else case getScheme u of
        None \<Rightarrow> failing ''missing protocol scheme''
      | Some (scheme, rest0) \<Rightarrow>
        (let force = (rest0 \<noteq> [] \<and> last rest0 = CHR ''?'' \<and> count_list rest0 CHR ''?'' = 1);
             (rest1, query) = (if force then (butlast rest0, []) else cut CHR ''?'' rest0);
             url = \<lparr>Scheme = map lower scheme, Opaque = [], Host = [], authority = [], Path = [], RawPath = [],
                    OmitHost = False, RawQuery = query, ForceQuery = force, RawFragment = frag\<rparr>;
             with_path = (\<lambda>url rest. case unescape rest of
                 Some p \<Rightarrow> check_fragment (url\<lparr>Path := p, RawPath := (if escape path_safe p = rest then [] else rest)\<rparr>)
               | None \<Rightarrow> failing (invalid_escape rest)) in
         if \<not> prefix ''/'' rest1 \<and> scheme \<noteq> [] then
           check_fragment (url\<lparr>Opaque := rest1\<rparr>)
         else if \<not> prefix ''/'' rest1 \<and> CHR '':'' \<in> set (fst (cut CHR ''/'' rest1)) then
           failing ''first path segment in URL cannot contain colon''
         else if prefix ''//'' rest1 \<and> (scheme \<noteq> [] \<or> \<not> prefix ''///'' rest1) then
           (let auth = takeWhile (\<lambda>c. c \<noteq> CHR ''/'') (drop 2 rest1);
                rest2 = dropWhile (\<lambda>c. c \<noteq> CHR ''/'') (drop 2 rest1) in
            case (if plain_authority auth then Inr (auth, auth) else other_authority auth) of
              Inl e \<Rightarrow> Inl e
            | Inr (host, shown) \<Rightarrow> with_path (url\<lparr>Host := host, authority := shown\<rparr>) rest2)
         else with_path (url\<lparr>OmitHost := (scheme \<noteq> [] \<and> prefix ''/'' rest1)\<rparr>) rest1))"

definition EscapedPath :: "base_url \<Rightarrow> string" where
  "EscapedPath u = (if Path u = ''*'' \<and> RawPath u = [] then ''*'' else re_escaped path_safe (RawPath u) (Path u))"

definition EscapedFragment :: "base_url \<Rightarrow> string" where
  "EscapedFragment u = (case unescape (RawFragment u) of
     None \<Rightarrow> [] | Some f \<Rightarrow> re_escaped fragment_safe (RawFragment u) f)"

definition url_String :: "base_url \<Rightarrow> string" where
  "url_String u =
     (if Scheme u \<noteq> [] then Scheme u @ '':'' else []) @
     (if Opaque u \<noteq> [] then Opaque u
      else
        (let start = (if (Scheme u \<noteq> [] \<or> authority u \<noteq> []) \<and> \<not> (OmitHost u \<and> authority u = []) then
               (if authority u \<noteq> [] \<or> Path u \<noteq> [] then ''//'' else []) @ authority u else []);
             p = EscapedPath u;
             slash = (if p \<noteq> [] \<and> hd p \<noteq> CHR ''/'' \<and> Host u \<noteq> [] then ''/'' else []);
             dot = (if Scheme u = [] \<and> start @ slash = [] \<and> CHR '':'' \<in> set (fst (cut CHR ''/'' p)) then ''./'' else []) in
         start @ slash @ dot @ p)) @
     (if ForceQuery u \<or> RawQuery u \<noteq> [] then ''?'' @ RawQuery u else []) @
     (if RawFragment u \<noteq> [] then ''#'' @ EscapedFragment u else [])"

end
