(* ===== verification/Fetcher.thy ===== *)
theory Fetcher
  imports Puller
begin

text \<open>
  Packages \<open>fetcher/layer_fetcher\<close>, \<open>fetcher/layer_fetcher/source\<close> and \<open>fetcher/tar_fetcher\<close>.

  What other modules provide are parameters: the SHA-256 digest in hexadecimal, the image
  source of a registry and its images (\<open>registry\<close>), and the decompressors (\<open>codec\<close>: opening a
  blob, reading the next bytes, and how much of the blob has been consumed so far).
  A blob is what arrives over the network, in chunks, and how it ends.
\<close>

section \<open>Readers\<close>

datatype read_status = More | EOF | ReadError goerr

text \<open>A reader with state \<open>'s\<close>: \<open>read n\<close> is \<open>Read(p)\<close> with \<open>len(p) = n\<close>.\<close>

type_synonym 's reader = "nat \<Rightarrow> 's \<Rightarrow> (string \<times> read_status) \<times> 's"

record 's quotaed =
  DelegateReader :: 's
  QuotaLeft :: int

text \<open>
  \<open>QuotaedReader.Read\<close>. Slicing with a negative bound is a run-time panic. The error status is
  the quota error whenever the quota is used up.
\<close>

definition quota_read :: "'s reader \<Rightarrow> string \<Rightarrow> nat \<Rightarrow> 's quotaed \<Rightarrow> (string \<times> read_status) \<times> 's quotaed" where
  "quota_read rd msg len q =
     (if int len > QuotaLeft q \<and> i64 (QuotaLeft q + 1) < 0 then
        (([], ReadError (Panic ''slice bounds out of range'')), q)
      else
        (let n = (if int len > QuotaLeft q then nat (i64 (QuotaLeft q + 1)) else len) in
         case rd n (DelegateReader q) of
           ((bytes, status), s) \<Rightarrow>
             (let left = i64 (QuotaLeft q - int (length bytes)); q' = q\<lparr>DelegateReader := s, QuotaLeft := left\<rparr> in
              if left < 0 then ((bytes, ReadError (Msg msg)), q') else ((bytes, status), q'))))"

record 's counting =
  bytesRead :: int
  count_delegate :: 's

definition counting_read :: "'s reader \<Rightarrow> nat \<Rightarrow> 's counting \<Rightarrow> (string \<times> read_status) \<times> 's counting" where
  "counting_read rd len c =
     (case rd len (count_delegate c) of
        ((bytes, status), s) \<Rightarrow>
          ((bytes, status), c\<lparr>bytesRead := i64 (bytesRead c + int (length bytes)), count_delegate := s\<rparr>))"

text \<open>
  \<open>io.Copy\<close> with its buffer of 32 KB: everything read until the end or an error. A reader may
  return no bytes for ever, so there is fuel; \<open>None\<close> is a copy that has not ended.
\<close>

definition copy_buffer :: nat where "copy_buffer = 32 * 1024"

fun io_copy :: "nat \<Rightarrow> 's reader \<Rightarrow> 's \<Rightarrow> string \<Rightarrow> (string \<times> goerr option \<times> 's) option" where
  "io_copy 0 rd s acc = None"
| "io_copy (Suc fuel) rd s acc =
     (case rd copy_buffer s of
        ((bytes, More), s') \<Rightarrow> io_copy fuel rd s' (acc @ bytes)
      | ((bytes, EOF), s') \<Rightarrow> Some (acc @ bytes, None, s')
      | ((bytes, ReadError e), s') \<Rightarrow> Some (acc @ bytes, Some e, s'))"

text \<open>The network stream of a blob, read as it arrives; each read consumes what it returns.\<close>

record blob =
  chunks :: "string list"
  blob_end :: read_status

definition blob_read :: "nat \<Rightarrow> blob \<Rightarrow> (string \<times> read_status) \<times> blob" where
  "blob_read n b =
     (case chunks b of
        [] \<Rightarrow> (([], blob_end b), b)
      | c # cs \<Rightarrow> ((take n c, More), b\<lparr>chunks := (if length c \<le> n then cs else drop n c # cs)\<rparr>))"

section \<open>layer_fetcher\<close>

record manifest_layer =
  Digest :: string
  man_size :: int
  base_directory_annotation :: string
  man_urls :: "string list"
  man_media_type :: string

definition cfBaseDirectoryAnnotation :: string where
  "cfBaseDirectoryAnnotation = ''org.cloudfoundry.experimental.image.base-directory''"

definition index_panic :: goerr where "index_panic = Panic ''index out of range''"

text \<open>\<open>strings.Split(d, ":")[1]\<close>.\<close>

definition after_colon :: "string \<Rightarrow> goerr + string" where
  "after_colon d = (case split_on CHR '':'' d of x # y # _ \<Rightarrow> Inr y | _ \<Rightarrow> Inl index_panic)"

text \<open>\<open>Digest.Hex()\<close> of go-digest is what follows the first colon; without one it panics.\<close>

definition digest_hex :: "string \<Rightarrow> goerr + string" where
  "digest_hex d = (if CHR '':'' \<in> set d then Inr (tl (dropWhile (\<lambda>c. c \<noteq> CHR '':'') d))
     else Inl (Panic ''no : separator in digest''))"

definition chainID :: "(string \<Rightarrow> string) \<Rightarrow> string \<Rightarrow> string \<Rightarrow> goerr + string" where
  "chainID sha256_hex diffID parentChainID =
     (case (if diffID \<noteq> [] then after_colon diffID else Inr diffID) of
        Inl e \<Rightarrow> Inl e
      | Inr diffID \<Rightarrow>
          if parentChainID \<noteq> [] then Inr (sha256_hex (parentChainID @ '' '' @ diffID)) else Inr diffID)"

fun createLayerInfos :: "(string \<Rightarrow> string) \<Rightarrow> manifest_layer list \<Rightarrow> string list \<Rightarrow> string \<Rightarrow> goerr + LayerInfo list" where
  "createLayerInfos h [] ds parentChainID = Inr []"
| "createLayerInfos h (layer # layers) [] parentChainID = Inl index_panic"
| "createLayerInfos h (layer # layers) (diffID # ds) parentChainID =
     (case chainID h diffID parentChainID of
        Inl e \<Rightarrow> Inl e
      | Inr cid \<Rightarrow> (case digest_hex diffID of
          Inl e \<Rightarrow> Inl e
        | Inr hex \<Rightarrow> (case createLayerInfos h layers ds cid of
            Inl e \<Rightarrow> Inl e
          | Inr infos \<Rightarrow> Inr (\<lparr>BlobID = Digest layer, ChainID = cid, DiffID = hex, ParentChainID = parentChainID,
              layer_size = man_size layer, BaseDirectory = base_directory_annotation layer,
              URLs = man_urls layer, MediaType = man_media_type layer\<rparr> # infos))))"

section \<open>source\<close>

text \<open>
  The image of a registry: its layers, media type and configuration, each fetched by a call
  that may fail; \<open>updated\<close> is the image converted from the first schema.
\<close>

record image =
  img_layers :: "manifest_layer list"
  img_mimetype :: "string sys"
  img_config_blob :: "unit sys"
  img_oci_config :: "oci_image sys"

record 'r registry =
  reg_source :: "'r sys"                           \<comment> \<open>\<open>ImageSourceCreator\<close>\<close>
  reg_image :: "'r \<Rightarrow> image sys"                    \<comment> \<open>\<open>image.FromUnparsedImage\<close>\<close>
  reg_blob :: "'r \<Rightarrow> string \<Rightarrow> string list \<Rightarrow> (blob \<times> int) sys"
  reg_updated :: "image \<Rightarrow> string list \<Rightarrow> image sys"

datatype media = PlainBlob | Gzip | Zstd

record 's codec =
  open_codec :: "media \<Rightarrow> blob \<Rightarrow> goerr + 's"
  read_codec :: "'s reader"
  consumed :: "'s \<Rightarrow> string"  \<comment> \<open>the bytes of the blob read so far\<close>
  read_all :: "blob \<Rightarrow> goerr + string"

record layer_source =
  skipOCILayerValidation :: bool
  skipImageQuotaValidation :: bool
  imageQuota :: int
  url_scheme :: string

definition MAX_DOCKER_RETRIES :: nat where "MAX_DOCKER_RETRIES = 3"
definition UNKNOWN_LAYER_SIZE :: int where "UNKNOWN_LAYER_SIZE = - 1"

text \<open>\<open>for i := 0; i < n; i++\<close> around a call whose success ends the loop.\<close>

fun retried :: "nat \<Rightarrow> 'a sys \<Rightarrow> goerr \<Rightarrow> 'a sys" where
  "retried 0 m err = throw err"
| "retried (Suc n) m err = checked m (\<lambda>e. retried n m e) ret"

definition no_error :: goerr where "no_error = Msg ''<nil>''"

definition isV1Image :: "LayerInfo \<Rightarrow> bool" where
  "isV1Image layerInfo \<longleftrightarrow> layer_size layerInfo = - 1"

definition validateLayerSize :: "layer_source \<Rightarrow> LayerInfo \<Rightarrow> int \<Rightarrow> unit sys" where
  "validateLayerSize s layerInfo n =
     (if skipOCILayerValidation s \<or> isV1Image layerInfo \<or> n = UNKNOWN_LAYER_SIZE \<or> layer_size layerInfo = n then ret ()
      else throw (Msg (''layer size is different from the value in the manifest; expected: '' @
             itoa (layer_size layerInfo) @ '', actual '' @ itoa n)))"

definition checkCheckSum :: "(string \<Rightarrow> string) \<Rightarrow> layer_source \<Rightarrow> string \<Rightarrow> string \<Rightarrow> unit sys" where
  "checkCheckSum h s hashed digest =
     (if skipOCILayerValidation s \<and> url_scheme s = ''oci'' then ret ()
      else if digest \<noteq> h hashed then throw (Msg (''expected: '' @ digest @ '', actual: '' @ h hashed))
      else ret ())"

definition shouldEnforceImageQuotaValidation :: "layer_source \<Rightarrow> bool" where
  "shouldEnforceImageQuotaValidation s \<longleftrightarrow> \<not> skipImageQuotaValidation s"

definition media_of :: "string \<Rightarrow> media" where
  "media_of mt = (if mt = [] \<or> contains mt ''gzip'' then Gzip
     else if contains mt ''zstd'' then Zstd else PlainBlob)"

definition getBlobWithRetries :: "'r registry \<Rightarrow> 'r \<Rightarrow> string \<Rightarrow> string list \<Rightarrow> (blob \<times> int) sys" where
  "getBlobWithRetries reg src digest urls = retried MAX_DOCKER_RETRIES (reg_blob reg src digest urls) no_error"

text \<open>
  The source is created on demand and kept; the model creates it again each time, which is
  the same for a creator that always gives the same source.
\<close>

definition getImageWithRetries :: "'r registry \<Rightarrow> image sys" where
  "getImageWithRetries reg =
     checked (retried MAX_DOCKER_RETRIES (checked (reg_source reg) throw (reg_image reg)) no_error)
       (wrapping ''creating image'') ret"

definition v1DiffID :: "(string \<Rightarrow> string) \<Rightarrow> 's codec \<Rightarrow> 'r registry \<Rightarrow> 'r \<Rightarrow> manifest_layer \<Rightarrow> string sys" where
  "v1DiffID h cd reg src layer =
     checked (getBlobWithRetries reg src (Digest layer) (man_urls layer)) (wrapping ''fetching V1 layer blob'') (\<lambda>(b, _).
     (case open_codec cd Gzip b of
        Inl e \<Rightarrow> wrapping ''creating reader for V1 layer blob'' e
      | Inr _ \<Rightarrow> (case read_all cd b of
          Inl e \<Rightarrow> wrapping ''reading V1 layer blob'' e
        | Inr data \<Rightarrow> ret (''sha256:'' @ h data))))"

fun v1DiffIDs :: "(string \<Rightarrow> string) \<Rightarrow> 's codec \<Rightarrow> 'r registry \<Rightarrow> 'r \<Rightarrow> manifest_layer list \<Rightarrow> string list sys" where
  "v1DiffIDs h cd reg src [] = ret []"
| "v1DiffIDs h cd reg src (layer # layers) =
     checked (v1DiffID h cd reg src layer) (wrapping ''converting V1 schema failed'') (\<lambda>diffID.
     checked (v1DiffIDs h cd reg src layers) throw (\<lambda>diffIDs. ret (diffID # diffIDs)))"

definition DockerV2Schema1MediaType :: string where
  "DockerV2Schema1MediaType = ''application/vnd.docker.distribution.manifest.v1+json''"
definition DockerV2Schema1SignedMediaType :: string where
  "DockerV2Schema1SignedMediaType = ''application/vnd.docker.distribution.manifest.v1+prettyjws''"

definition convertImage :: "(string \<Rightarrow> string) \<Rightarrow> 's codec \<Rightarrow> 'r registry \<Rightarrow> image \<Rightarrow> image sys" where
  "convertImage h cd reg originalImage =
     checked (img_mimetype originalImage) throw (\<lambda>mimetype.
     if mimetype \<noteq> DockerV2Schema1MediaType \<and> mimetype \<noteq> DockerV2Schema1SignedMediaType then ret originalImage
     else checked (reg_source reg) throw (\<lambda>imgSrc.
       checked (v1DiffIDs h cd reg imgSrc (img_layers originalImage)) throw (\<lambda>diffIDs.
       reg_updated reg originalImage diffIDs)))"

definition Manifest :: "(string \<Rightarrow> string) \<Rightarrow> 's codec \<Rightarrow> 'r registry \<Rightarrow> image sys" where
  "Manifest h cd reg =
     checked (getImageWithRetries reg) (wrapping ''fetching image reference'') (\<lambda>img.
     checked (convertImage h cd reg img) throw (\<lambda>img.
     checked (retried MAX_DOCKER_RETRIES (img_config_blob img) no_error)
       (wrapping ''fetching image configuration'') (\<lambda>_. ret img)))"

text \<open>
  \<open>os.CreateTemp\<close>: a new file in the temporary directory whose name ends in random digits. It
  tries 10,000 names.
\<close>

function create_temp_loop :: "nat \<Rightarrow> string \<Rightarrow> string sys" where
  "create_temp_loop try pattern = checked nonce throw (\<lambda>n. (\<lambda>w.
     let name = filepath_join [tmpdir w, pattern @ itoa n] in
     checked (open_excl name perm_0600)
       (\<lambda>e. if is_exist e \<and> try + 1 < 10000 then create_temp_loop (try + 1) pattern
         else if is_exist e then throw (PathErr ''createtemp'' (filepath_join [tmpdir w, pattern @ ''*'']) EEXIST)
         else throw e)
       (\<lambda>_. ret name) w))"
  by pat_completeness auto

termination by (relation "measure (\<lambda>(try, _). 10000 - try)") auto

declare create_temp_loop.simps [simp del]

definition create_temp :: "string \<Rightarrow> string sys" where
  "create_temp pattern =
     (if CHR ''/'' \<in> set pattern then throw (Msg (''createtemp '' @ pattern @ '': pattern contains path separator''))
      else create_temp_loop 0 pattern)"

text \<open>
  What \<open>Blob\<close> does between creating the temporary file and returning: the quota left afterwards
  is part of the result. The first component of the state of a quota-checked copy is the
  decompressor; \<open>fuel\<close> bounds the number of reads of \<open>io.Copy\<close>.
\<close>

definition copy_blob :: "nat \<Rightarrow> 's codec \<Rightarrow> layer_source \<Rightarrow> 's \<Rightarrow> (string \<times> goerr option \<times> 's) option" where
  "copy_blob fuel cd s st =
     (if shouldEnforceImageQuotaValidation s then
        (case io_copy fuel (quota_read (read_codec cd) ''uncompressed layer size exceeds quota'')
                \<lparr>DelegateReader = st, QuotaLeft = imageQuota s\<rparr> [] of
           None \<Rightarrow> None | Some (out, err, q) \<Rightarrow> Some (out, err, DelegateReader q))
      else io_copy fuel (read_codec cd) st [])"

definition validate_blob :: "(string \<Rightarrow> string) \<Rightarrow> layer_source \<Rightarrow> LayerInfo \<Rightarrow> string \<Rightarrow> string \<Rightarrow> int sys" where
  "validate_blob h s layerInfo raw out =
     (let actualSize = i64 (int (length raw)) in
      checked (validateLayerSize s layerInfo actualSize) (wrapping ''validating actual blob size'') (\<lambda>_.
      (case after_colon (BlobID layerInfo) of
         Inl e \<Rightarrow> throw e
       | Inr blobIDHex \<Rightarrow>
           checked (checkCheckSum h s raw blobIDHex) (wrapping ''layerID digest mismatch'') (\<lambda>_.
           checked (checkCheckSum h s out (DiffID layerInfo)) (wrapping ''diffID digest mismatch'') (\<lambda>_.
           ret actualSize)))))"

definition discard_temp :: "string \<Rightarrow> goerr \<Rightarrow> 'a sys" where
  "discard_temp name e = logged (os_remove name) (throw e)"

text \<open>\<open>Blob\<close>: the path of the file, its size and the source with the quota that is left.\<close>

definition Blob :: "nat \<Rightarrow> (string \<Rightarrow> string) \<Rightarrow> 's codec \<Rightarrow> 'r registry \<Rightarrow> layer_source \<Rightarrow> LayerInfo \<Rightarrow>
    (string \<times> int \<times> layer_source) option sys" where
  "Blob fuel h cd reg s layerInfo =
     checked (reg_source reg) throw (\<lambda>imgSrc.
     checked (getBlobWithRetries reg imgSrc (BlobID layerInfo) (URLs layerInfo)) throw (\<lambda>(b, reportedSize).
     checked (validateLayerSize s layerInfo reportedSize) (wrapping ''validating reported blob size'') (\<lambda>_.
     checked (create_temp (''blob-'' @ replace_char (BlobID layerInfo) CHR '':'' ''-'')) throw (\<lambda>name.
     (case open_codec cd (media_of (MediaType layerInfo)) b of
        Inl e \<Rightarrow>
          let err = Wrapped (''expected blob to be of type '' @ MediaType layerInfo) e in
          if media_of (MediaType layerInfo) = Zstd then throw err else discard_temp name err
      | Inr st \<Rightarrow>
          (case copy_blob fuel cd s st of
             None \<Rightarrow> ret None
           | Some (out, err, st') \<Rightarrow>
               checked (write_all name out) (\<lambda>e. discard_temp name (Wrapped ''writing blob to tempfile'' e)) (\<lambda>_.
               (case err of
                  Some e \<Rightarrow> if is_panic e then throw e else discard_temp name (Wrapped ''writing blob to tempfile'' e)
                | None \<Rightarrow>
                    checked (validate_blob h s layerInfo (consumed cd st') out) (discard_temp name) (\<lambda>actualSize.
                    ret (Some (name, actualSize,
                      s\<lparr>imageQuota := i64 (imageQuota s - int (length out))\<rparr>)))))))))))"

section \<open>LayerFetcher\<close>

definition LayerFetcher_BaseImageInfo :: "(string \<Rightarrow> string) \<Rightarrow> 's codec \<Rightarrow> 'r registry \<Rightarrow> BaseImageInfo sys" where
  "LayerFetcher_BaseImageInfo h cd reg =
     checked (Manifest h cd reg) throw (\<lambda>manifest.
     checked (img_oci_config manifest) throw (\<lambda>config.
     (case createLayerInfos h (img_layers manifest) (diff_ids config) [] of
        Inl e \<Rightarrow> throw e
      | Inr infos \<Rightarrow> ret \<lparr>LayerInfos = infos, base_config = config\<rparr>)))"

definition NewBlobReader :: "string \<Rightarrow> blob_stream sys" where
  "NewBlobReader blobPath = checked (os_open blobPath) (wrapping ''failed to open blob'') (\<lambda>_.
     checked (os_read_file blobPath) (wrapping ''failed to open blob'') (\<lambda>data.
     ret \<lparr>stream_bytes = data, stream_close = os_remove blobPath\<rparr>))"

definition LayerFetcher_StreamBlob :: "nat \<Rightarrow> (string \<Rightarrow> string) \<Rightarrow> 's codec \<Rightarrow> 'r registry \<Rightarrow> layer_source \<Rightarrow> LayerInfo \<Rightarrow>
    (blob_stream \<times> int \<times> layer_source) option sys" where
  "LayerFetcher_StreamBlob fuel h cd reg s layerInfo =
     checked (Blob fuel h cd reg s layerInfo) throw (\<lambda>r.
     (case r of
        None \<Rightarrow> ret None
      | Some (blobFilePath, n, s') \<Rightarrow>
          checked (NewBlobReader blobFilePath) (wrapping ''opening stream from temporary blob file'') (\<lambda>rd.
          ret (Some (rd, n, s')))))"

section \<open>tar_fetcher\<close>

definition validateBaseImage :: "string \<Rightarrow> unit sys" where
  "validateBaseImage baseImagePath = checked (os_stat baseImagePath) throw (\<lambda>st.
     if is_dir_node st then throw (Msg ''directory provided instead of a tar file'') else ret ())"

definition TarFetcher_StreamBlob :: "string \<Rightarrow> LayerInfo \<Rightarrow> (blob_stream \<times> int) sys" where
  "TarFetcher_StreamBlob baseImagePath layerInfo =
     checked (os_stat baseImagePath) (wrapping (''local image not found in `'' @ baseImagePath @ ''`'')) (\<lambda>_.
     checked (validateBaseImage baseImagePath) (wrapping ''invalid base image'') (\<lambda>_.
     checked (os_open baseImagePath) (wrapping ''reading local image'') (\<lambda>_.
     checked (os_read_file baseImagePath) (wrapping ''reading local image'') (\<lambda>data.
     ret (\<lparr>stream_bytes = data, stream_close = ret ()\<rparr>, 0)))))"

definition generateChainID :: "(string \<Rightarrow> string) \<Rightarrow> string \<Rightarrow> int \<Rightarrow> string" where
  "generateChainID h baseImagePath timestamp = h (baseImagePath @ ''-'' @ itoa timestamp)"

text \<open>Modification times are not part of the file tree: the time of the image is a clock reading.\<close>

definition TarFetcher_BaseImageInfo :: "(string \<Rightarrow> string) \<Rightarrow> string \<Rightarrow> BaseImageInfo sys" where
  "TarFetcher_BaseImageInfo h baseImagePath =
     checked (os_stat baseImagePath) (wrapping ''fetching image timestamp'') (\<lambda>_.
     checked nonce throw (\<lambda>modTime.
     ret \<lparr>LayerInfos = [zero_layer\<lparr>BlobID := baseImagePath, ChainID := generateChainID h baseImagePath modTime\<rparr>],
          base_config = \<lparr>diff_ids = [], image_env = []\<rparr>\<rparr>))"

definition TarFetcher_Close :: "unit sys" where
  "TarFetcher_Close = ret ()"

end
