(* ===== verification/Command_Line.thy ===== *)
theory Command_Line
  imports Go_URL Sandbox Creator Fetcher Store_Manager Config
begin

text \<open>
  The frame of the commands: \<open>main.go\<close>, \<open>commands/helpers.go\<close>, \<open>commands/idfinder\<close>, the helpers of
  \<open>commands/create.go\<close> and \<open>source/image_source_creator.go\<close>.

  The cli package parses the arguments: a flag that was not given is \<open>None\<close>, and what a command
  returns is shown by \<open>ExitErrHandler\<close>. A command's own output is the text of its result; what
  goes to the logs or to the error stream is left out.

  \<open>outside\<close> holds what other modules provide: the YAML decoder, the digest, decompressors and tar
  reader, the transports and registries of container images, the generator of short ids, the
  mount table, the initialisation of dropsonde, and the bounds on the loops of the program that have none. A directory on \<open>$PATH\<close>
  holds the program \<open>tardis\<close> of this repository.
\<close>

section \<open>Results of a command\<close>

datatype action_result =
    Completed
  | CliExit string nat  \<comment> \<open>\<open>cli.Exit(message, code)\<close>\<close>
  | PlainError goerr    \<comment> \<open>any other error\<close>

type_synonym command = "(string \<times> action_result) sys"

definition completed :: "string \<Rightarrow> command" where
  "completed out = ret (out, Completed)"

definition cli_exit :: "goerr \<Rightarrow> command" where
  "cli_exit e = ret ([], CliExit (error_text e) 1)"

definition usage_exit :: "string \<Rightarrow> command" where
  "usage_exit msg = ret ([], CliExit msg 1)"

definition println :: "string \<Rightarrow> string" where
  "println s = s @ Sandbox.newline"

text \<open>What ends on the standard output, and the exit status.\<close>

fun ExitErrHandler :: "string \<times> action_result \<Rightarrow> string \<times> nat" where
  "ExitErrHandler (out, Completed) = (out, 0)"
| "ExitErrHandler (out, CliExit msg code) = (if msg \<noteq> [] then out @ println msg else out, code)"
| "ExitErrHandler (out, PlainError e) = (out, 1)"

section \<open>main\<close>

definition defaultTardisBin :: string where "defaultTardisBin = ''tardis''"
definition defaultNewuidmapBin :: string where "defaultNewuidmapBin = ''newuidmap''"
definition defaultNewgidmapBin :: string where "defaultNewgidmapBin = ''newgidmap''"

datatype log_level = DEBUG | INFO | ERROR | FATAL

definition upper :: "char \<Rightarrow> char" where
  "upper c = (if 97 \<le> (of_char c :: nat) \<and> (of_char c :: nat) \<le> 122 then char_of (of_char c - 32 :: nat) else c)"

definition translateLogLevel :: "string \<Rightarrow> log_level" where
  "translateLogLevel logLevel =
     (let l = map upper logLevel in
      if l = ''DEBUG'' then DEBUG else if l = ''INFO'' then INFO else if l = ''ERROR'' then ERROR else FATAL)"

definition configureLogger :: "log_level \<Rightarrow> string \<Rightarrow> log_level sys" where
  "configureLogger logLevel logFile =
     (if logFile \<noteq> [] then
        checked (open_create False logFile perm_0644) (wrapping ''failed to configure logger'')
          (\<lambda>_. ret (if logLevel = FATAL then INFO else logLevel))
      else ret logLevel)"

record global_flags =
  gl_config :: string
  gl_store :: "string option"
  gl_log_level :: "string option"
  gl_log_file :: string
  gl_tardis :: "string option"
  gl_newuidmap :: "string option"
  gl_newgidmap :: "string option"
  gl_metron :: string

definition global_config :: "global_flags \<Rightarrow> Config \<Rightarrow> Config" where
  "global_config g b =
     WithNewgidmapBin (given (gl_newgidmap g) defaultNewgidmapBin) (gl_newgidmap g \<noteq> None)
     (WithNewuidmapBin (given (gl_newuidmap g) defaultNewuidmapBin) (gl_newuidmap g \<noteq> None)
     (WithLogFile (gl_log_file g)
     (WithLogLevel (given (gl_log_level g) ''fatal'') (gl_log_level g \<noteq> None)
     (WithMetronEndpoint (gl_metron g)
     (WithTardisBin (given (gl_tardis g) defaultTardisBin) (gl_tardis g \<noteq> None)
     (WithStorePath (given (gl_store g) DefaultStorePath) (gl_store g \<noteq> None) b))))))"

definition setenv_tmpdir :: "string \<Rightarrow> unit sys" where
  "setenv_tmpdir s = (\<lambda>w. (Inr (), w\<lparr>tmpdir := s\<rparr>))"

text \<open>The builder is a pointer: the commands go on with the configuration it is left with.\<close>

definition main_Before :: "(string \<Rightarrow> goerr + Config) \<Rightarrow> global_flags \<Rightarrow> Config sys" where
  "main_Before yaml g =
     checked (NewBuilder yaml (gl_config g)) throw (\<lambda>b.
     let cfgBuilder = global_config g b in
     (case Build cfgBuilder of
        Inl e \<Rightarrow> throw e
      | Inr cfg \<Rightarrow>
          checked (configureLogger (translateLogLevel (LogLevel cfg)) (LogFile cfg)) throw (\<lambda>_.
          checked (setenv_tmpdir (filepath_join [StorePath cfg, TempDirName])) throw (\<lambda>_.
          ret cfgBuilder))))"

text \<open>A run of the program: its output and exit status; a panic exits with status 2.\<close>

definition groot_main :: "(string \<Rightarrow> goerr + Config) \<Rightarrow> global_flags \<Rightarrow> (Config \<Rightarrow> command) \<Rightarrow> (string \<times> nat) sys" where
  "groot_main yaml g action = (\<lambda>w.
     case checked (main_Before yaml g) cli_exit action w of
       (Inr r, w') \<Rightarrow> (Inr (ExitErrHandler r), w')
     | (Inl e, w') \<Rightarrow> (Inr ([], 2), w'))"

section \<open>idfinder\<close>

text \<open>
  The pattern is made from the store path, where a character with a meaning in regular
  expressions keeps it; \<open>other_regexp\<close> stands for package \<open>regexp\<close> on such a path. The match is
  not anchored and \<open>.\<close> does not match a newline.
\<close>

definition regexp_plain :: "string \<Rightarrow> bool" where
  "regexp_plain s \<longleftrightarrow> list_all (\<lambda>c. c \<notin> set ''.+*?()|[]{}^$'' \<and> c \<noteq> backslash) s"

fun text_after :: "string \<Rightarrow> string \<Rightarrow> string option" where
  "text_after pat [] = (if pat = [] then Some [] else None)"
| "text_after pat (c # s) = (if prefix pat (c # s) then Some (drop (length pat) (c # s)) else text_after pat s)"

definition FindStringSubmatch :: "(string \<Rightarrow> string \<Rightarrow> string list) \<Rightarrow> string \<Rightarrow> string \<Rightarrow> string list" where
  "FindStringSubmatch other_regexp store pathOrID =
     (let before = filepath_join [store, ImageDirName] @ ''/'' in
      if regexp_plain store then
        (case text_after before pathOrID of
           None \<Rightarrow> []
         | Some s \<Rightarrow> (let group = takeWhile (\<lambda>c. c \<noteq> CHR 0x0A) s in [before @ group, group]))
      else other_regexp (filepath_join [store, ImageDirName, ''(.*)'']) pathOrID)"

definition image_path_exists :: "string \<Rightarrow> bool sys" where
  "image_path_exists p = if_missing (os_stat p) (\<lambda>_. ret False) (ret True)"

definition FindID :: "(string \<Rightarrow> string \<Rightarrow> string list) \<Rightarrow> string \<Rightarrow> string \<Rightarrow> string sys" where
  "FindID other_regexp storePath pathOrID =
     (let found = (\<lambda>imageID p. checked (image_path_exists p) throw (\<lambda>there.
            if there then ret imageID else throw (Msg (''Image `'' @ imageID @ ''` not found.'')))) in
      if \<not> prefix ''/'' pathOrID then found pathOrID (filepath_join [storePath, ImageDirName, pathOrID])
      else (case FindStringSubmatch other_regexp storePath pathOrID of
          [_, imageID] \<Rightarrow> found imageID pathOrID
        | _ \<Rightarrow> throw (Msg (''path `'' @ pathOrID @ ''` is outside store path''))))"

section \<open>The image source\<close>

record system_context =
  DockerInsecureSkipTLSVerify :: "bool option"
  DockerAuthConfig :: "(string \<times> string) option"
  OCICertPath :: string

record ('s, 'r, 'ref) outside =
  url_authority :: "string \<Rightarrow> goerr + (string \<times> string)"
  regexp_submatch :: "string \<Rightarrow> string \<Rightarrow> string list"
  sha256 :: "string \<Rightarrow> string"
  codecs :: "'s codec"
  read_tar :: "string \<Rightarrow> tar_stream"
  transports :: "string \<Rightarrow> (string \<Rightarrow> goerr + 'ref) option"
  open_source :: "'ref \<Rightarrow> system_context \<Rightarrow> 'r sys"
  source_image :: "'r \<Rightarrow> image sys"
  source_blob :: "'r \<Rightarrow> string \<Rightarrow> string list \<Rightarrow> (blob \<times> int) sys"
  updated_image :: "image \<Rightarrow> string list \<Rightarrow> image sys"
  source_close :: "unit sys"
  short_ids :: "int \<Rightarrow> goerr + string"
  mounted :: "string \<Rightarrow> bool sys"
  dropsonde_Initialize :: "string \<Rightarrow> unit sys"
  read_bound :: nat
  dir_bound :: nat
  project_bound :: nat

definition reference :: "(string \<Rightarrow> (string \<Rightarrow> goerr + 'ref) option) \<Rightarrow> base_url \<Rightarrow> goerr + 'ref" where
  "reference get_transport u =
     (let refString = ''/'' @ (if Host u \<noteq> [] then ''/'' @ Host u else []) @ Path u in
      case get_transport (Scheme u) of
        None \<Rightarrow> Inl (Panic ''nil pointer dereference'')
      | Some ParseReference \<Rightarrow> (case ParseReference refString of
          Inl e \<Rightarrow> Inl (if is_panic e then e else Wrapped ''parsing url failed'' e)
        | Inr ref \<Rightarrow> Inr ref))"

definition CreateImageSource :: "('s, 'r, 'ref) outside \<Rightarrow> system_context \<Rightarrow> base_url \<Rightarrow> 'r sys" where
  "CreateImageSource env ctx u =
     (case reference (transports env) u of
        Inl e \<Rightarrow> throw e
      | Inr ref \<Rightarrow> checked (open_source env ref ctx) (wrapping ''creating image source'') ret)"

definition image_registry :: "('s, 'r, 'ref) outside \<Rightarrow> system_context \<Rightarrow> base_url \<Rightarrow> 'r registry" where
  "image_registry env ctx u = \<lparr>reg_source = CreateImageSource env ctx u, reg_image = source_image env,
     reg_blob = source_blob env, reg_updated = updated_image env\<rparr>"

section \<open>Helpers of create\<close>

definition shouldSkipImageQuotaValidation :: "create_config \<Rightarrow> bool" where
  "shouldSkipImageQuotaValidation cfg \<longleftrightarrow> ExcludeImageFromQuota cfg \<or> DiskLimitSizeBytes cfg = 0"

fun skipTLSValidation :: "base_url \<Rightarrow> string list \<Rightarrow> bool" where
  "skipTLSValidation u [] = False"
| "skipTLSValidation u (trustedRegistry # rs) = (if Host u = trustedRegistry then True else skipTLSValidation u rs)"

definition createSystemContext :: "base_url \<Rightarrow> create_config \<Rightarrow> string \<Rightarrow> string \<Rightarrow> system_context" where
  "createSystemContext u cfg username password =
     (let empty = \<lparr>DockerInsecureSkipTLSVerify = None, DockerAuthConfig = None, OCICertPath = []\<rparr> in
      if Scheme u = ''docker'' then
        empty\<lparr>DockerInsecureSkipTLSVerify := Some (skipTLSValidation u (InsecureRegistries cfg)),
              DockerAuthConfig := Some (username, password)\<rparr>
      else if Scheme u = ''oci'' then empty\<lparr>OCICertPath := RemoteLayerClientCertificatesPath cfg\<rparr>
      else empty)"

definition NewLayerSource :: "bool \<Rightarrow> bool \<Rightarrow> int \<Rightarrow> base_url \<Rightarrow> layer_source" where
  "NewLayerSource skipOCI skipQuota diskLimit u = \<lparr>skipOCILayerValidation = skipOCI,
     skipImageQuotaValidation = skipQuota, imageQuota = diskLimit, url_scheme = Scheme u\<rparr>"

text \<open>
  The layer source as a fetcher: the quota it has left is kept in the state. A copy that never
  ends is a run that never ends; like a panic it is a value that nothing handles.
\<close>

definition source_fetcher :: "('s, 'r, 'ref) outside \<Rightarrow> system_context \<Rightarrow> base_url \<Rightarrow> layer_source \<Rightarrow> fetcher" where
  "source_fetcher env ctx u s = \<lparr>
     f_base_image_info = LayerFetcher_BaseImageInfo (sha256 env) (codecs env) (image_registry env ctx u),
     f_stream_blob = (\<lambda>layerInfo w. checked
        (LayerFetcher_StreamBlob (read_bound env) (sha256 env) (codecs env) (image_registry env ctx u)
           (s\<lparr>imageQuota := source_quota w\<rparr>) layerInfo) throw
        (\<lambda>r. case r of
            None \<Rightarrow> throw (Panic ''does not return'')
          | Some (stream, n, s') \<Rightarrow> (\<lambda>w. (Inr (stream, n), w\<lparr>source_quota := imageQuota s'\<rparr>))) w),
     f_close = source_close env\<rparr>"

definition NewTarFetcher :: "('s, 'r, 'ref) outside \<Rightarrow> base_url \<Rightarrow> fetcher" where
  "NewTarFetcher env u = (let baseImagePath = url_String u in
     \<lparr>f_base_image_info = TarFetcher_BaseImageInfo (sha256 env) baseImagePath,
      f_stream_blob = TarFetcher_StreamBlob baseImagePath, f_close = TarFetcher_Close\<rparr>)"

definition createFetcher :: "('s, 'r, 'ref) outside \<Rightarrow> base_url \<Rightarrow> system_context \<Rightarrow> create_config \<Rightarrow> fetcher sys" where
  "createFetcher env u ctx cfg =
     (if Scheme u = [] then ret (NewTarFetcher env u)
      else
        (let skipOCI = (SkipLayerValidation cfg \<and> Scheme u = ''oci'');
             layerSource = NewLayerSource skipOCI (shouldSkipImageQuotaValidation cfg) (DiskLimitSizeBytes cfg) u in
         (\<lambda>w. (Inr (source_fetcher env ctx u layerSource), w\<lparr>source_quota := imageQuota layerSource\<rparr>))))"

text \<open>What an error is shown as.\<close>

definition ErrorCodeUnauthorized :: string where "ErrorCodeUnauthorized = ''UNAUTHORIZED''"

fun containsDockerError :: "docker_error list \<Rightarrow> string \<Rightarrow> bool" where
  "containsDockerError [] errCode = False"
| "containsDockerError (DockerError code t # es) errCode = (code = errCode \<or> containsDockerError es errCode)"
| "containsDockerError (DockerErrorCode code t # es) errCode = containsDockerError es errCode"

definition tryHumanizeDockerErrorsList :: "docker_error list \<Rightarrow> base_url \<Rightarrow> string" where
  "tryHumanizeDockerErrorsList err u =
     (if containsDockerError err ErrorCodeUnauthorized then
        url_String u @ '' does not exist or you do not have permissions to see it.''
      else error_text (DockerErrors err))"

text \<open>The pattern \<open>fetching image reference: .*: no such file or directory\<close>, within one line.\<close>

definition matches_missing_source :: "string \<Rightarrow> bool" where
  "matches_missing_source s \<longleftrightarrow> list_ex
     (\<lambda>line. case text_after ''fetching image reference: '' line of
        None \<Rightarrow> False | Some rest \<Rightarrow> contains rest '': no such file or directory'')
     (split_on CHR 0x0A s)"

definition tryParsingErrorMessage :: "goerr \<Rightarrow> goerr" where
  "tryParsingErrorMessage err =
     (let newErr = cause err in
      if error_text newErr = ''unable to retrieve auth token: 401 unauthorized'' then
        Msg ''authorization failed: username and password are invalid''
      else if error_text newErr = ''directory provided instead of a tar file'' then
        Msg (''invalid base image: '' @ error_text newErr)
      else if matches_missing_source (error_text err) then Msg ''Image source doesn't exist''
      else err)"

definition insecure_registry_text :: string where
  "insecure_registry_text =
     ''This registry is insecure. To pull images from this registry, please use the --insecure-registry option.''"

definition tryHumanize :: "goerr \<Rightarrow> base_url \<Rightarrow> string" where
  "tryHumanize err u =
     (if contains (error_text err) ''x509: certificate signed by unknown authority'' then insecure_registry_text
      else (case cause err of
          UrlErr t unknownAuthority \<Rightarrow>
            if unknownAuthority then insecure_registry_text else error_text (tryParsingErrorMessage err)
        | DockerErrors es \<Rightarrow> tryHumanizeDockerErrorsList es u
        | _ \<Rightarrow> error_text (tryParsingErrorMessage err)))"

definition validateOptions :: "bool \<Rightarrow> bool \<Rightarrow> goerr option" where
  "validateOptions withClean withoutClean =
     (if withClean \<and> withoutClean then Some (Msg ''with-clean and without-clean cannot be used together'') else None)"

end
