(* ===== verification/Commands.thy ===== *)
theory Commands
  imports Command_Line
begin

text \<open>
  The commands of package \<open>commands\<close>: each builds its components on the store of the
  configuration, runs one operation of them and says what is printed and how the program exits.
  A function that is deferred is run by \<open>deferred\<close>, in the order Go runs them; the variable
  \<open>timedOut\<close> that those of \<open>clean\<close> look at is part of the result they see.
\<close>

section \<open>Wiring\<close>

definition NewDriver :: "('s, 'r, 'ref) outside \<Rightarrow> Config \<Rightarrow> (string \<Rightarrow> unit sys) \<Rightarrow> (string \<Rightarrow> unit sys) \<Rightarrow> driver" where
  "NewDriver env cfg um dio = \<lparr>drv_store = StorePath cfg, tardisBinPath = TardisBin cfg, unmounter = um,
     directIO = dio, tardis_program = tardis_process (project_bound env), shortid = short_ids env\<rparr>"

text \<open>A nil unmounter.\<close>

definition no_unmounter :: "string \<Rightarrow> unit sys" where
  "no_unmounter p = throw (Panic ''nil pointer dereference'')"

definition rootful_driver :: "('s, 'r, 'ref) outside \<Rightarrow> Config \<Rightarrow> driver" where
  "rootful_driver env cfg = NewDriver env cfg rootful_unmount NoopDirectIO_Configure"

definition hasIDMappings :: "IDMappings \<Rightarrow> bool" where
  "hasIDMappings m \<longleftrightarrow> length (UIDMappings m) > 0 \<or> length (GIDMappings m) > 0"

definition shouldCloneUserNs :: "IDMappings \<Rightarrow> bool sys" where
  "shouldCloneUserNs m = checked getuid throw (\<lambda>uid. ret (hasIDMappings m \<and> uid \<noteq> 0))"

text \<open>What an id means in the namespace of a command that is run again.\<close>

definition namespace_ids :: "bool \<Rightarrow> IDMappingSpec list \<Rightarrow> int \<Rightarrow> int option" where
  "namespace_ids clone ms = (if clone then container_to_host ms else identity_ids)"

definition NewReexecer :: "('s, 'r, 'ref) outside \<Rightarrow> Config \<Rightarrow> IDMappings \<Rightarrow> bool \<Rightarrow> reexecer" where
  "NewReexecer env cfg m clone = Reexec
     \<lparr>re_id_mapper = \<lparr>newuidmapBin = NewuidmapBin cfg, newgidmapBin = NewgidmapBin cfg\<rparr>, re_mappings = m,
      registered = commands_of (tardis_process (project_bound env)) (short_ids env) (read_tar env)
        (namespace_ids clone (UIDMappings m)) (namespace_ids clone (GIDMappings m)) (dir_bound env)\<rparr>"

definition ns_images :: "driver \<Rightarrow> reexecer \<Rightarrow> bool \<Rightarrow> image_driver" where
  "ns_images d reexec clone = (overlay_images d)\<lparr>drv_destroy_image := ns_DestroyImage d reexec clone\<rparr>"

definition ns_volumes :: "driver \<Rightarrow> reexecer \<Rightarrow> bool \<Rightarrow> volume_driver" where
  "ns_volumes d reexec clone = (overlay_volumes d)\<lparr>vd_destroy := ns_DestroyVolume d reexec clone\<rparr>"

definition NewImageManager :: "image_driver \<Rightarrow> string \<Rightarrow> image_manager" where
  "NewImageManager drv store = \<lparr>im_exists = image_Exists store, im_create = image_Create drv store,
     im_destroy = image_Destroy drv store, im_stats = image_Stats drv store\<rparr>"

definition NewGC :: "volume_driver \<Rightarrow> string \<Rightarrow> gc" where
  "NewGC volumes store = \<lparr>gc_driver = volumes, imageIDsGetter = ImageIDs store,
     gc_dependencies = Dependencies (dependencies_dir store)\<rparr>"

definition createImageDriver :: "('s, 'r, 'ref) outside \<Rightarrow> Config \<Rightarrow> driver \<Rightarrow> (image_driver \<times> volume_driver) sys" where
  "createImageDriver env cfg fsDriver =
     checked (Read (StorePath cfg)) throw (\<lambda>idMappings.
     checked (shouldCloneUserNs idMappings) throw (\<lambda>clone.
     let reexecer = NewReexecer env cfg idMappings clone in
     ret (ns_images fsDriver reexecer clone, ns_volumes fsDriver reexecer clone)))"

definition NewManager :: "('s, 'r, 'ref) outside \<Rightarrow> driver \<Rightarrow> (IDMappingSpec list \<Rightarrow> IDMappingSpec list \<Rightarrow> unit sys) \<Rightarrow> manager" where
  "NewManager env d apply = \<lparr>m_store = drv_store d, m_image_driver = overlay_images d,
     m_volume_driver = overlay_volumes d, m_store_driver = overlay_store d, m_apply_mappings = apply,
     m_locksmith = NewExclusiveFileSystem ''/var/run'', m_mounted = mounted env\<rparr>"

section \<open>Usage metrics\<close>

text \<open>The emitter that a command makes is the one its components send with.\<close>

definition with_emitter :: "('s, 'r, 'ref) outside \<Rightarrow> Config \<Rightarrow> 'a sys \<Rightarrow> 'a sys" where
  "with_emitter env cfg m = checked (NewEmitter (dropsonde_Initialize env) (MetronEndpoint cfg)) throw (\<lambda>_. m)"

text \<open>An error is logged and 0 is what is sent.\<close>

definition emit_measured :: "string \<Rightarrow> int sys \<Rightarrow> unit sys" where
  "emit_measured name m = observed m (\<lambda>r. TryEmitUsage name (case r of Inl _ \<Rightarrow> 0 | Inr n \<Rightarrow> n))"

definition emit_layer_sizes :: "volume_driver \<Rightarrow> gc \<Rightarrow> unit sys" where
  "emit_layer_sizes drv g =
     logged (emit_measured ''UnusedLayersSize'' (UnusedVolumesSize drv (UnusedVolumes g)))
       (emit_measured ''UsedLayersSize'' (UsedVolumesSize drv (UnusedVolumes g)))"

definition emitMetrics :: "volume_driver \<Rightarrow> gc \<Rightarrow> bool \<Rightarrow> string \<Rightarrow> unit sys" where
  "emitMetrics drv g cleanOnCreate storePath =
     logged (if \<not> cleanOnCreate then emit_layer_sizes drv g else ret ())
     (logged (emit_measured ''DownloadedLayersSizeInBytes'' (TotalVolumesSize drv))
     (logged (emit_measured ''CommittedQuotaInBytes'' (CommittedQuota storePath))
     (emit_measured ''UsedBackingStoreInBytes''
        (checked (PathStats storePath) throw (\<lambda>(_, usedBackingStore). ret usedBackingStore)))))"

section \<open>clean\<close>

record clean_result =
  timedOut :: bool
  clean_shown :: "string \<times> action_result"

definition clean_failed :: "bool \<Rightarrow> goerr \<Rightarrow> clean_result sys" where
  "clean_failed t e = ret \<lparr>timedOut = t, clean_shown = ([], CliExit (error_text e) 1)\<rparr>"

definition NewCleaner :: "Config \<Rightarrow> driver \<Rightarrow> gc \<Rightarrow> cleaner" where
  "NewCleaner cfg d g = \<lparr>storeMeasurer = NewStoreMeasurer (StorePath cfg) (overlay_volumes d),
     garbageCollector = gc_collector g, cl_locksmith = clean_locksmith (StorePath cfg),
     getLockTimeout = GET_LOCK_TIMEOUT\<rparr>"

definition clean_store :: "driver \<Rightarrow> Config \<Rightarrow> gc \<Rightarrow> clean_result sys" where
  "clean_store d cfg g = deferred
     (checked (Clean (NewCleaner cfg d g) (ThresholdBytes (Clean_section cfg)))
        (\<lambda>e. clean_failed (cause e = CleaningTimeout) e)
        (\<lambda>noop. ret \<lparr>timedOut = False, clean_shown =
           (println (if noop then ''threshold not reached: skipping clean'' else ''clean completed''), Completed)\<rparr>))
     (\<lambda>r. case r of
        Inr c \<Rightarrow> if timedOut c then give_back r else logged (emit_layer_sizes (overlay_volumes d) g) (give_back r)
      | Inl _ \<Rightarrow> logged (emit_layer_sizes (overlay_volumes d) g) (give_back r))"

definition clean_unlock :: "locksmith \<Rightarrow> path \<Rightarrow> goerr + clean_result \<Rightarrow> clean_result sys" where
  "clean_unlock l lockFile r =
     (case r of
        Inr c \<Rightarrow>
          if timedOut c then give_back r
          else checked (Unlock l lockFile)
            (\<lambda>e. ret (c\<lparr>clean_shown := (fst (clean_shown c), CliExit (error_text e) 1)\<rparr>)) (\<lambda>_. give_back r)
      | Inl _ \<Rightarrow> logged (Unlock l lockFile) (give_back r))"

definition CleanCommand :: "('s, 'r, 'ref) outside \<Rightarrow> int option \<Rightarrow> Config \<Rightarrow> command" where
  "CleanCommand env threshold configBuilder =
     (case Build (WithCleanThresholdBytes (given threshold 0) (threshold \<noteq> None) configBuilder) of
        Inl e \<Rightarrow> cli_exit e
      | Inr cfg \<Rightarrow>
          if_missing (os_stat (StorePath cfg)) (\<lambda>_. ret ([], CliExit (''no store found at '' @ StorePath cfg) 0))
          (with_emitter env cfg (checked (LockWithTimeout (clean_locksmith (StorePath cfg)) GCLockKey GET_LOCK_TIMEOUT) cli_exit (\<lambda>lockFile.
           checked (deferred
             (let d = rootful_driver env cfg in
              checked (createImageDriver env cfg d) (clean_failed False) (\<lambda>(_, nsFsDriver).
              clean_store d cfg (NewGC nsFsDriver (StorePath cfg))))
             (clean_unlock (clean_locksmith (StorePath cfg)) lockFile)) throw (\<lambda>c.
           ret (clean_shown c))))))"

section \<open>delete\<close>

definition DeleteCommand :: "('s, 'r, 'ref) outside \<Rightarrow> string list \<Rightarrow> Config \<Rightarrow> command" where
  "DeleteCommand env args configBuilder =
     (if length args \<noteq> 1 then usage_exit ''id was not specified''
      else case Build configBuilder of
        Inl e \<Rightarrow> cli_exit e
      | Inr cfg \<Rightarrow>
          let d = rootful_driver env cfg in
          checked (FindID (regexp_submatch env) (StorePath cfg) (args ! 0))
            (\<lambda>e. completed (println (error_text e @ '' Skipping delete.''))) (\<lambda>i.
          checked (createImageDriver env cfg d) cli_exit (\<lambda>(imageDriver, _).
          with_emitter env cfg (deferred
            (checked (Delete (NewImageManager imageDriver (StorePath cfg)) (store_dependencies (StorePath cfg)) i)
               cli_exit (\<lambda>_. completed (println (''Image '' @ i @ '' deleted''))))
            (\<lambda>r. logged (emit_layer_sizes (overlay_volumes d) (NewGC (overlay_volumes d) (StorePath cfg))) (give_back r))))))"

section \<open>list, stats, capacity, delete-store, generate-volume-size-metadata\<close>

definition ListCommand :: "Config \<Rightarrow> command" where
  "ListCommand configBuilder =
     (case Build configBuilder of
        Inl e \<Rightarrow> cli_exit e
      | Inr cfg \<Rightarrow>
          if_missing (os_stat (StorePath cfg)) (\<lambda>_. cli_exit (Msg (''no store found at '' @ StorePath cfg)))
          (checked (groot_List (StorePath cfg))
             (\<lambda>e. usage_exit (''Failed to retrieve list of images: '' @ error_text e)) (\<lambda>images.
           completed (if images = [] then println ''Store empty'' else concat (map println images)))))"

definition groot_StatsCommand :: "('s, 'r, 'ref) outside \<Rightarrow> string list \<Rightarrow> Config \<Rightarrow> command" where
  "groot_StatsCommand env args configBuilder =
     (if length args \<noteq> 1 then usage_exit ''invalid arguments - usage: stats [options] <id|image path>''
      else case Build configBuilder of
        Inl e \<Rightarrow> cli_exit e
      | Inr cfg \<Rightarrow>
          checked (FindID (regexp_submatch env) (StorePath cfg) (args ! 0)) cli_exit (\<lambda>i.
          let d = NewDriver env cfg no_unmounter NoopDirectIO_Configure in
          checked (groot_Stats (NewImageManager (overlay_images d) (StorePath cfg)) i) cli_exit (\<lambda>stats.
          completed (println (print_json (stats_to_json stats))))))"

definition CapacityCommand :: "Config \<Rightarrow> command" where
  "CapacityCommand configBuilder =
     (case Build configBuilder of
        Inl e \<Rightarrow> cli_exit e
      | Inr cfg \<Rightarrow> completed (println (print_json
          (JObj [(''capacity'', JNum (StoreSizeBytes (Init_section cfg) mod 2 ^ 64))]))))"

text \<open>The store manager has neither a namespacer nor a locksmith here: it uses none.\<close>

definition DeleteStoreCommand :: "('s, 'r, 'ref) outside \<Rightarrow> Config \<Rightarrow> command" where
  "DeleteStoreCommand env configBuilder =
     (case Build configBuilder of
        Inl e \<Rightarrow> cli_exit e
      | Inr cfg \<Rightarrow>
          checked (DeleteStore (NewManager env (rootful_driver env cfg) (\<lambda>_ _. throw (Panic ''nil pointer dereference''))))
            cli_exit (\<lambda>_. completed []))"

definition GenerateVolumeSizeMetadata :: "('s, 'r, 'ref) outside \<Rightarrow> string list \<Rightarrow> Config \<Rightarrow> command" where
  "GenerateVolumeSizeMetadata env args configBuilder =
     (if length args \<noteq> 0 then usage_exit ''invalid arguments - usage: ''
      else case Build configBuilder of
        Inl e \<Rightarrow> ret ([], PlainError e)
      | Inr cfg \<Rightarrow>
          let d = NewDriver env cfg no_unmounter NoopDirectIO_Configure; plain = (\<lambda>e. ret ([], PlainError e)) in
          checked (Volumes d) plain (\<lambda>volumes.
          checked (for_each volumes (GenerateVolumeMeta d)) plain (\<lambda>_. completed [])))"

section \<open>init-store\<close>

record init_flags =
  in_uid_mapping :: "string list"
  in_gid_mapping :: "string list"
  in_store_size :: "int option"
  in_direct_io :: "bool option"

definition init_config_of :: "init_flags \<Rightarrow> Config \<Rightarrow> goerr + Config" where
  "init_config_of f b =
     (let b1 = (case in_store_size f of None \<Rightarrow> b | Some n \<Rightarrow> WithStoreSizeBytes n b) in
      Build (if in_direct_io f \<noteq> None then WithDirectIO b1 else b1))"

definition InitStoreCommand :: "('s, 'r, 'ref) outside \<Rightarrow> init_flags \<Rightarrow> string list \<Rightarrow> Config \<Rightarrow> command" where
  "InitStoreCommand env f args configBuilder =
     (if length args \<noteq> 0 then usage_exit ''invalid arguments - usage: init-store --store <path>''
      else case init_config_of f configBuilder of
        Inl e \<Rightarrow> cli_exit e
      | Inr cfg \<Rightarrow>
          checked getuid throw (\<lambda>uid.
          if uid \<noteq> 0 then cli_exit (Msg (''store '' @ StorePath cfg @ '' can only be initialized by Root user'')) else
          let dio = (if with_direct_io (Init_section cfg) then DirectIOEnabler_Configure else DirectIODisabler_Configure);
              d = NewDriver env cfg no_unmounter dio in
          (case parseIDMappings (in_uid_mapping f) of
             Inl e \<Rightarrow> cli_exit (Msg (''parsing uid-mapping: '' @ error_text e))
           | Inr uidMappings \<Rightarrow>
          (case parseIDMappings (in_gid_mapping f) of
             Inl e \<Rightarrow> cli_exit (Msg (''parsing gid-mapping: '' @ error_text e))
           | Inr gidMappings \<Rightarrow>
               checked (InitStore (NewManager env d (ApplyMappings (StorePath cfg)))
                   \<lparr>init_uids = uidMappings, init_gids = gidMappings, init_size = StoreSizeBytes (Init_section cfg)\<rparr>)
                 (\<lambda>e. cli_exit (cause e)) (\<lambda>_. completed []))))) "

section \<open>create\<close>

record create_input =
  in_flags :: create_flags
  in_username :: string
  in_password :: string
  in_args :: "string list"

definition NewBaseImagePuller :: "('s, 'r, 'ref) outside \<Rightarrow> Config \<Rightarrow> IDMappings \<Rightarrow> bool \<Rightarrow> fetcher \<Rightarrow> puller" where
  "NewBaseImagePuller env cfg idMappings clone fetch =
     (let reexecer = NewReexecer env cfg idMappings clone in
      \<lparr>p_fetcher = fetch,
       p_unpack = ns_Unpack \<lparr>shouldCloneUserNsOnUnpack = clone, un_store = StorePath cfg, un_reexec = reexecer, un_mappings = idMappings\<rparr>,
       p_driver = ns_volumes (rootful_driver env cfg) reexecer clone, p_base_dir = base_dir_Handle reexecer clone,
       p_locksmith = WithMetrics (NewExclusiveFileSystem (filepath_join [StorePath cfg, LocksDirName]))\<rparr>)"

definition NewCreator :: "('s, 'r, 'ref) outside \<Rightarrow> Config \<Rightarrow> IDMappings \<Rightarrow> bool \<Rightarrow> fetcher \<Rightarrow> creator" where
  "NewCreator env cfg idMappings clone fetch =
     (let store = StorePath cfg in
      \<lparr>c_cleaner = async_Clean cfg, c_images = NewImageManager (overlay_images (rootful_driver env cfg)) store,
       c_puller = layer_puller (NewBaseImagePuller env cfg idMappings clone fetch),
       c_locksmith = WithMetrics (NewSharedFileSystem (filepath_join [store, LocksDirName])),
       c_dependencies = store_dependencies store\<rparr>)"

definition create_spec_of :: "Config \<Rightarrow> string \<Rightarrow> IDMappings \<Rightarrow> CreateSpec" where
  "create_spec_of cfg i idMappings = \<lparr>create_id = i, create_disk_limit = DiskLimitSizeBytes (Create_section cfg),
     create_mount = (\<not> WithoutMount (Create_section cfg)), create_exclude = ExcludeImageFromQuota (Create_section cfg),
     CleanOnCreate = with_clean (Create_section cfg), CleanOnCreateThresholdBytes = ThresholdBytes (Clean_section cfg),
     create_uid_mappings = UIDMappings idMappings, create_gid_mappings = GIDMappings idMappings\<rparr>"

text \<open>The JSON of a container specification of the OCI runtime, fields with the zero value left out.\<close>

definition container_spec :: "ImageInfo \<Rightarrow> json" where
  "container_spec info =
     (let optional = (\<lambda>k v. if v = [] then [] else [(k, JStr v)]);
          strings = (\<lambda>k ss. if ss = [] then [] else [(k, JArr (map JStr ss))]) in
      JObj ([(''ociVersion'', JStr []),
         (''process'', JObj ([(''user'', JObj [(''uid'', JNum 0), (''gid'', JNum 0)])] @
            strings ''env'' (image_env (info_image info)) @ [(''cwd'', JStr [])])),
         (''root'', JObj [(''path'', JStr (Rootfs info))])] @
         (if Mounts info = [] then [] else [(''mounts'', JArr (map (\<lambda>m. JObj ([(''destination'', JStr (Destination m))] @
            optional ''type'' (mount_type m) @ optional ''source'' (Source m) @ strings ''options'' (Options m)))
            (Mounts info)))])))"

definition create_image :: "('s, 'r, 'ref) outside \<Rightarrow> Config \<Rightarrow> base_url \<Rightarrow> string \<Rightarrow> IDMappings \<Rightarrow> bool \<Rightarrow> fetcher \<Rightarrow> command" where
  "create_image env cfg u i idMappings clone fetch =
     (let d = rootful_driver env cfg; g = NewGC (ns_volumes d (NewReexecer env cfg idMappings clone) clone) (StorePath cfg) in
      checked (Create (NewCreator env cfg idMappings clone fetch) (create_spec_of cfg i idMappings))
        (\<lambda>e. usage_exit (tryHumanize e u)) (\<lambda>image.
      logged (emitMetrics (overlay_volumes d) g (with_clean (Create_section cfg)) (StorePath cfg))
        (completed (println (print_json (container_spec image))))))"

definition CreateCommand :: "('s, 'r, 'ref) outside \<Rightarrow> create_input \<Rightarrow> Config \<Rightarrow> command" where
  "CreateCommand env inp configBuilder =
     (if length (in_args inp) \<noteq> 2 then usage_exit ''invalid arguments - usage: create [options] <image> <id>''
      else case create_config_of (in_flags inp) configBuilder of
        Inl e \<Rightarrow> cli_exit e
      | Inr cfg \<Rightarrow>
      (case validateOptions (fl_with_clean (in_flags inp)) (fl_without_clean (in_flags inp)) of
        Some e \<Rightarrow> cli_exit e
      | None \<Rightarrow>
      (case url_Parse (url_authority env) (in_args inp ! 0) of
        Inl e \<Rightarrow> cli_exit e
      | Inr baseImageURL \<Rightarrow>
          with_emitter env cfg (checked (IsStoreInitialized (NewManager env (rootful_driver env cfg) (ApplyMappings (StorePath cfg)))) throw (\<lambda>ok.
          if \<not> ok then usage_exit ''Store path is not initialized. Please run init-store.'' else
          checked (Read (StorePath cfg)) cli_exit (\<lambda>idMappings.
          checked (shouldCloneUserNs idMappings) throw (\<lambda>clone.
          let systemContext = createSystemContext baseImageURL (Create_section cfg) (in_username inp) (in_password inp) in
          checked (createFetcher env baseImageURL systemContext (Create_section cfg)) throw (\<lambda>fetch.
          deferred (create_image env cfg baseImageURL (in_args inp ! 1) idMappings clone fetch)
            (\<lambda>r. logged (f_close fetch) (give_back r))))))))))"

end
