(* ===== verification/Fetcher_Facts.thy ===== *)
theory Fetcher_Facts
  imports Fetcher Samples
begin

text \<open>
  What the fetchers guarantee: a quota-checked copy never writes more than one byte over the
  quota and reports it, the layer infos of a manifest form a chain, and a blob that is
  returned has the sizes and digests of its layer.
\<close>

section \<open>The quota\<close>

text \<open>The contract of \<open>io.Reader\<close>: at most as many bytes as asked for.\<close>

definition honest :: "'s reader \<Rightarrow> bool" where
  "honest rd \<longleftrightarrow> (\<forall>n s. length (fst (fst (rd n s))) \<le> n)"

lemma honestD: "honest rd \<Longrightarrow> rd n s = ((bytes, status), s') \<Longrightarrow> length bytes \<le> n"
  unfolding honest_def by (metis fst_conv)

definition quota_range :: "int \<Rightarrow> bool" where
  "quota_range q \<longleftrightarrow> 0 \<le> q \<and> q < 2 ^ 63 - 1"

lemma quota_read_cases:
  assumes h: "honest rd" and q: "quota_range (QuotaLeft q)"
    and run: "quota_read rd msg len q = ((bytes, status), q')"
  shows "(int (length bytes) \<le> QuotaLeft q \<and> QuotaLeft q' = QuotaLeft q - int (length bytes) \<and>
      rd (if int len > QuotaLeft q then nat (QuotaLeft q + 1) else len) (DelegateReader q) =
        ((bytes, status), DelegateReader q')) \<or>
    (int (length bytes) = QuotaLeft q + 1 \<and> QuotaLeft q' = -1 \<and> status = ReadError (Msg msg))"
proof -
  let ?n = "if int len > QuotaLeft q then nat (QuotaLeft q + 1) else len"
  have i: "i64 (QuotaLeft q + 1) = QuotaLeft q + 1"
    using q by (intro i64_id) (simp add: quota_range_def in_i64_def)
  obtain b st s where rd: "rd ?n (DelegateReader q) = ((b, st), s)"
    by (metis prod.collapse)
  have len: "int (length b) \<le> QuotaLeft q + 1"
    using honestD [OF h rd] q by (auto simp: quota_range_def split: if_splits)
  then have left: "i64 (QuotaLeft q - int (length b)) = QuotaLeft q - int (length b)"
    using q by (intro i64_id) (simp add: quota_range_def in_i64_def)
  have "quota_read rd msg len q =
      (let q' = q\<lparr>DelegateReader := s, QuotaLeft := QuotaLeft q - int (length b)\<rparr> in
       if QuotaLeft q - int (length b) < 0 then ((b, ReadError (Msg msg)), q') else ((b, st), q'))"
  proof -
    have guard: "(QuotaLeft q < int len \<and> QuotaLeft q + 1 < 0) = False" using q by (simp add: quota_range_def)
    show ?thesis by (simp only: quota_read_def i Let_def guard if_False rd prod.case left)
  qed
  with run len rd show ?thesis by (auto simp: Let_def split: if_splits)
qed

lemma copy_within_quota:
  assumes "honest rd" and "quota_range (QuotaLeft q)"
    and "io_copy fuel (quota_read rd msg) q acc = Some (out, err, q')"
  shows "\<exists>new. out = acc @ new \<and> QuotaLeft q' = QuotaLeft q - int (length new) \<and> -1 \<le> QuotaLeft q' \<and>
    (QuotaLeft q' = -1 \<longrightarrow> err = Some (Msg msg)) \<and>
    (\<forall>e. err = Some e \<longrightarrow> e = Msg msg \<or> (\<exists>n t. snd (fst (rd n t)) = ReadError e))"
  using assms(2,3)
proof (induction fuel arbitrary: q acc)
  case (Suc fuel)
  obtain b st q1 where r: "quota_read rd msg copy_buffer q = ((b, st), q1)" by (metis prod.collapse)
  note c = quota_read_cases [OF assms(1) Suc.prems(1) r]
  have under: "\<exists>n t. snd (fst (rd n t)) = st" if "rd n (DelegateReader q) = ((b, st), DelegateReader q1)" for n
    using that by (metis fst_conv snd_conv)
  show ?case
  proof (cases st)
    case More
    with c have q1: "QuotaLeft q1 = QuotaLeft q - int (length b)" "quota_range (QuotaLeft q1)"
      using Suc.prems(1) by (auto simp: quota_range_def)
    from Suc.IH [OF q1(2), of "acc @ b"] Suc.prems(2) r More q1(1) show ?thesis by force
  next
    case EOF
    with c Suc.prems r show ?thesis by (auto simp: quota_range_def)
  next
    case (ReadError e)
    with Suc.prems r have "out = acc @ b" "err = Some e" "q' = q1" by auto
    with c ReadError under Suc.prems(1) show ?thesis by (auto simp: quota_range_def)
  qed
qed simp

text \<open>C20: copying a layer through the quota reader, from any reader that keeps to the contract
  of \<open>io.Reader\<close>, writes at most one byte more than the quota; a copy that ends without an
  error is within the quota, one that is over it ends with the quota error, and no other
  error, a panic least of all, comes from anywhere but the reader underneath.\<close>

theorem quota_copy_bounded:
  assumes "honest rd" and "0 \<le> quota" and "quota < 2 ^ 63 - 1"
    and "io_copy fuel (quota_read rd msg) \<lparr>DelegateReader = s, QuotaLeft = quota\<rparr> [] = Some (out, err, q')"
  shows "int (length out) \<le> quota + 1 \<and> QuotaLeft q' = quota - int (length out) \<and>
    (err = None \<longrightarrow> int (length out) \<le> quota) \<and> (int (length out) > quota \<longrightarrow> err = Some (Msg msg)) \<and>
    (\<forall>e. err = Some e \<longrightarrow> e = Msg msg \<or> (\<exists>n t. snd (fst (rd n t)) = ReadError e))"
proof -
  let ?q = "\<lparr>DelegateReader = s, QuotaLeft = quota\<rparr>"
  have q: "quota_range (QuotaLeft ?q)" using assms(2,3) by (simp add: quota_range_def)
  from copy_within_quota [OF assms(1) q assms(4)] show ?thesis by auto
qed

definition sample_blob :: blob where
  "sample_blob = \<lparr>chunks = [''abc'', ''de''], blob_end = EOF\<rparr>"

lemma honest_blob_read: "honest blob_read"
  by (auto simp: honest_def blob_read_def split: list.splits)

theorem quota_copy_bounded_witness:
  "int (length ''abcd'') \<le> 3 + 1 \<and>
   io_copy (Suc (Suc (Suc 0))) (quota_read blob_read ''over'') \<lparr>DelegateReader = sample_blob, QuotaLeft = 3\<rparr> [] =
     Some (''abcd'', Some (Msg ''over''), \<lparr>DelegateReader = \<lparr>chunks = [''e''], blob_end = EOF\<rparr>, QuotaLeft = -1\<rparr>)"
proof -
  have "io_copy (Suc (Suc (Suc 0))) (quota_read blob_read ''over'') \<lparr>DelegateReader = sample_blob, QuotaLeft = 3\<rparr> [] =
     Some (''abcd'', Some (Msg ''over''), \<lparr>DelegateReader = \<lparr>chunks = [''e''], blob_end = EOF\<rparr>, QuotaLeft = -1\<rparr>)"
    by (simp add: quota_read_def blob_read_def sample_blob_def copy_buffer_def i64_def Let_def)
  with quota_copy_bounded [OF honest_blob_read _ _ this] show ?thesis by simp
qed

section \<open>The chain of layers\<close>

definition chain_step :: "(string \<Rightarrow> string) \<Rightarrow> string \<Rightarrow> string \<Rightarrow> string" where
  "chain_step h parent diff = (if parent = [] then diff else h (parent @ '' '' @ diff))"

fun digest_parts :: "string list \<Rightarrow> string list option" where
  "digest_parts [] = Some []"
| "digest_parts (d # ds) =
     (case after_colon d of Inl e \<Rightarrow> None | Inr x \<Rightarrow> map_option (Cons x) (digest_parts ds))"

lemma after_colon_iff: "(\<exists>x. after_colon d = Inr x) \<longleftrightarrow> CHR '':'' \<in> set d"
proof
  assume "CHR '':'' \<in> set d"
  then obtain a b where d: "d = a @ CHR '':'' # b" by (auto dest: split_list)
  have "split_on CHR '':'' d = split_on CHR '':'' a @ split_on CHR '':'' b"
    by (simp add: d split_on_append)
  moreover obtain x xs where "split_on CHR '':'' a = x # xs" by (cases "split_on CHR '':'' a") auto
  moreover obtain y ys where "split_on CHR '':'' b = y # ys" by (cases "split_on CHR '':'' b") auto
  ultimately show "\<exists>x. after_colon d = Inr x" by (cases xs) (auto simp: after_colon_def)
next
  assume "\<exists>x. after_colon d = Inr x"
  then show "CHR '':'' \<in> set d"
    by (rule contrapos_pp) (simp add: after_colon_def split_on_id)
qed

lemma createLayerInfos_Inr:
  "createLayerInfos h layers ds parent = Inr infos \<Longrightarrow>
     length infos = length layers \<and> length layers \<le> length ds \<and>
     (\<forall>i < length layers. CHR '':'' \<in> set (ds ! i) \<and> BlobID (infos ! i) = Digest (layers ! i) \<and>
        layer_size (infos ! i) = man_size (layers ! i) \<and>
        Inr (DiffID (infos ! i)) = digest_hex (ds ! i) \<and>
        ParentChainID (infos ! i) = (if i = 0 then parent else ChainID (infos ! (i - 1))) \<and>
        Inr (ChainID (infos ! i)) = chainID h (ds ! i) (ParentChainID (infos ! i)))"
proof (induction h layers ds parent arbitrary: infos rule: createLayerInfos.induct)
  case (3 h layer layers d ds parent)
  from "3.prems" obtain cid hex rest where c: "chainID h d parent = Inr cid" and x: "digest_hex d = Inr hex"
    and r: "createLayerInfos h layers ds cid = Inr rest"
    and infos: "infos = \<lparr>BlobID = Digest layer, ChainID = cid, DiffID = hex, ParentChainID = parent,
              layer_size = man_size layer, BaseDirectory = base_directory_annotation layer,
              URLs = man_urls layer, MediaType = man_media_type layer\<rparr> # rest"
    by (auto split: sum.splits)
  note ih = "3.IH" [OF c x r]
  have "CHR '':'' \<in> set d" using x by (auto simp: digest_hex_def split: if_splits)
  with ih c x show ?case
    by (auto simp: infos nth_Cons less_Suc_eq_le split: nat.splits)
qed simp_all

lemma createLayerInfos_Inl:
  "createLayerInfos h layers ds parent = Inl e \<Longrightarrow>
     is_panic e \<and> (length ds < length layers \<or> (\<exists>i < length layers. CHR '':'' \<notin> set (ds ! i)))"
proof (induction h layers ds parent rule: createLayerInfos.induct)
  case (2 h layer layers parent)
  then show ?case by (auto simp: index_panic_def)
next
  case (3 h layer layers d ds parent)
  show ?case
  proof (cases "CHR '':'' \<in> set d")
    case False
    then show ?thesis using "3.prems" after_colon_iff [of d]
      by (auto simp: chainID_def digest_hex_def index_panic_def after_colon_def split: sum.splits if_splits list.splits)
  next
    case True
    then obtain x where "after_colon d = Inr x" using after_colon_iff by blast
    with True "3.prems" obtain cid hex where c: "chainID h d parent = Inr cid" "digest_hex d = Inr hex"
      and r: "createLayerInfos h layers ds cid = Inl e"
      by (auto simp: chainID_def digest_hex_def split: sum.splits if_splits)
    from "3.IH" [OF c r] show ?thesis by (auto simp: nth_Cons split: nat.splits)
  qed
qed simp

text \<open>C19: the layer infos of a manifest exist exactly when the configuration has a diff id with
  a colon for every layer; anything else ends in a run-time panic. Then there is one
  info per layer, in order, each names the chain id of the one before it as its parent, and
  every chain id is computed from its parent's and the layer's diff id.\<close>

theorem createLayerInfos_chain:
  "(case createLayerInfos h layers ds [] of
      Inl e \<Rightarrow> is_panic e \<and> (length ds < length layers \<or> (\<exists>i < length layers. CHR '':'' \<notin> set (ds ! i)))
    | Inr infos \<Rightarrow> length infos = length layers \<and> length layers \<le> length ds \<and>
        (\<forall>i < length layers. CHR '':'' \<in> set (ds ! i) \<and> BlobID (infos ! i) = Digest (layers ! i) \<and>
          layer_size (infos ! i) = man_size (layers ! i) \<and> Inr (DiffID (infos ! i)) = digest_hex (ds ! i) \<and>
          ParentChainID (infos ! i) = (if i = 0 then [] else ChainID (infos ! (i - 1))) \<and>
          Inr (ChainID (infos ! i)) = chainID h (ds ! i) (ParentChainID (infos ! i))))"
  using createLayerInfos_Inr [of h layers ds "[]"] createLayerInfos_Inl [of h layers ds "[]"]
  by (auto split: sum.split)

section \<open>A blob\<close>

lemma nonce_Inr: "nonce w = (r, w') \<Longrightarrow> (\<exists>n. r = Inr n) \<and> nodes w' = nodes w \<and> workdir w' = workdir w \<and> tmpdir w' = tmpdir w"
  by (auto simp: nonce_def split: list.splits)

lemma at_path_cong: "workdir w = workdir w' \<Longrightarrow> at_path w p = at_path w' p"
  by (simp add: at_path_def)

lemma create_temp_loop_Inr:
  "create_temp_loop k pattern w = (Inr name, w') \<Longrightarrow>
     workdir w' = workdir w \<and> nodes w (at_path w name) = None \<and>
     (\<exists>a. nodes w' = (nodes w)(at_path w name \<mapsto> Regular a []))"
proof (induction k pattern arbitrary: w rule: create_temp_loop.induct)
  case (1 k pattern)
  obtain n w1 where n: "nonce w = (Inr n, w1)" and w1: "nodes w1 = nodes w" "workdir w1 = workdir w"
    using nonce_Inr [of w] by (cases "nonce w") auto
  let ?name = "filepath_join [tmpdir w1, pattern @ itoa n]"
  obtain r w2 where o: "open_excl ?name perm_0600 w1 = (r, w2)" by (cases "open_excl ?name perm_0600 w1")
  note c = open_excl_cases [OF o]
  show ?case
  proof (cases r)
    case (Inr u)
    with 1(2) n o have "name = ?name" "w' = w2" by (simp_all add: create_temp_loop.simps [of k] Let_def)
    with c Inr w1 show ?thesis by (auto simp: at_path_def)
  next
    case (Inl e)
    with c have w2: "nodes w2 = nodes w" "workdir w2 = workdir w" "\<not> is_panic e" using w1 by auto
    with 1(2) n o Inl have "create_temp_loop (k + 1) pattern w2 = (Inr name, w')" "is_exist e" "k + 1 < 10000"
      by (auto simp: create_temp_loop.simps [of k] Let_def split: if_splits)
    moreover have "at_path w2 name = at_path w name" using w2 by (simp add: at_path_def)
    ultimately show ?thesis using 1(1) [of ?name w1 n e w2] w2 by simp
  qed
qed

lemma write_new_file:
  assumes "nodes w (at_path w p) = Some (Regular a [])" and "write_all p s w = (Inr (), w')"
  shows "nodes w' (at_path w' p) = Some (Regular a s)"
  using write_all_cases [OF assms(2)] assms(1) by (auto simp: append_to_def at_path_def)

lemma validate_blob_Inr:
  assumes "validate_blob h s layerInfo raw out w = (Inr n, w')"
  shows "w' = w" and "n = i64 (int (length raw))"
    and "skipOCILayerValidation s \<or> isV1Image layerInfo \<or> n = UNKNOWN_LAYER_SIZE \<or> layer_size layerInfo = n"
    and "skipOCILayerValidation s \<and> url_scheme s = ''oci'' \<or>
      (after_colon (BlobID layerInfo) = Inr (h raw) \<and> DiffID layerInfo = h out)"
  using assms unfolding validate_blob_def validateLayerSize_def checkCheckSum_def Let_def
  by (auto elim!: checked_wrap_InrE split: sum.splits if_splits)

lemma Blob_Inr:
  assumes "Blob fuel h cd reg s layerInfo w = (Inr (Some (name, n, s')), w')"
  obtains b st out st' w1 w2 a where
    "open_codec cd (media_of (MediaType layerInfo)) b = Inr st" and "copy_blob fuel cd s st = Some (out, None, st')"
    and "nodes w1 (at_path w1 name) = Some (Regular a [])" and "write_all name out w1 = (Inr (), w2)"
    and "validate_blob h s layerInfo (consumed cd st') out w2 = (Inr n, w')"
    and "s' = s\<lparr>imageQuota := i64 (imageQuota s - int (length out))\<rparr>"
proof -
  let ?cont = "\<lambda>name' b. (case open_codec cd (media_of (MediaType layerInfo)) b of
      Inl e \<Rightarrow>
          let err = Wrapped (''expected blob to be of type '' @ MediaType layerInfo) e in
          if media_of (MediaType layerInfo) = Zstd then throw err else discard_temp name' err
      | Inr st \<Rightarrow>
          (case copy_blob fuel cd s st of
             None \<Rightarrow> ret None
           | Some (out, err, st') \<Rightarrow>
               checked (write_all name' out) (\<lambda>e. discard_temp name' (Wrapped ''writing blob to tempfile'' e)) (\<lambda>_.
               (case err of
                  Some e \<Rightarrow> if is_panic e then throw e else discard_temp name' (Wrapped ''writing blob to tempfile'' e)
                | None \<Rightarrow>
                    checked (validate_blob h s layerInfo (consumed cd st') out) (discard_temp name') (\<lambda>actualSize.
                    ret (Some (name', actualSize,
                      s\<lparr>imageQuota := i64 (imageQuota s - int (length out))\<rparr>)))))))"
  have no: "discard_temp x e v \<noteq> (Inr y, v')" for x e v v' and y :: "string \<times> int \<times> layer_source"
    by (auto simp: discard_temp_def logged_def elim!: checked_InrE)
  have no': "discard_temp x e v \<noteq> (Inr y, v')" for x e v v' and y :: "(string \<times> int \<times> layer_source) option"
    by (auto simp: discard_temp_def logged_def elim!: checked_InrE)
  from assms obtain b w3 name' w4 where
    tmp: "create_temp (''blob-'' @ replace_char (BlobID layerInfo) CHR '':'' ''-'') w3 = (Inr name', w4)"
    and rest: "?cont name' b w4 = (Inr (Some (name, n, s')), w')"
    unfolding Blob_def by (elim checked_throw_InrE checked_wrap_InrE) (auto elim!: checked_throw_InrE checked_wrap_InrE)
  from rest no' obtain st out st' w2 where st: "open_codec cd (media_of (MediaType layerInfo)) b = Inr st"
    and c: "copy_blob fuel cd s st = Some (out, None, st')" and wr: "write_all name' out w4 = (Inr (), w2)"
    and v: "validate_blob h s layerInfo (consumed cd st') out w2 = (Inr n, w')"
    and fin: "name' = name" "s' = s\<lparr>imageQuota := i64 (imageQuota s - int (length out))\<rparr>"
    by (auto simp: Let_def split: sum.splits option.splits if_splits elim!: checked_InrE)
  from tmp have "create_temp_loop 0 (''blob-'' @ replace_char (BlobID layerInfo) CHR '':'' ''-'') w3 = (Inr name', w4)"
    by (auto simp: create_temp_def split: if_splits)
  from create_temp_loop_Inr [OF this] fin obtain a where "nodes w4 (at_path w4 name) = Some (Regular a [])"
    by (auto simp: at_path_def)
  with that [OF st c _ _ v fin(2)] wr fin(1) show thesis by simp
qed
text \<open>C18: a blob that \<open>Blob\<close> returns is a file with what was decompressed from the stream. Unless
  validation is skipped, the digest of the stream is the blob's id and the digest of the
  file the layer's diff id, and the stream has the manifest's size; the quota
  left for the layers that follow is less by the size of the file, which did not exceed it.\<close>

theorem Blob_verified:
  assumes "Blob fuel h cd reg s layerInfo w = (Inr (Some (name, n, s')), w')"
  shows "\<exists>raw out a. nodes w' (at_path w' name) = Some (Regular a out) \<and> n = i64 (int (length raw)) \<and>
    (skipOCILayerValidation s \<and> url_scheme s = ''oci'' \<or>
       after_colon (BlobID layerInfo) = Inr (h raw) \<and> DiffID layerInfo = h out) \<and>
    (skipOCILayerValidation s \<or> isV1Image layerInfo \<or> n = UNKNOWN_LAYER_SIZE \<or> layer_size layerInfo = n) \<and>
    s' = s\<lparr>imageQuota := i64 (imageQuota s - int (length out))\<rparr> \<and>
    (honest (read_codec cd) \<and> \<not> skipImageQuotaValidation s \<and> quota_range (imageQuota s) \<longrightarrow>
       int (length out) \<le> imageQuota s)"
  using assms
proof (rule Blob_Inr)
  fix b st out st' w1 w2 a
  assume st: "open_codec cd (media_of (MediaType layerInfo)) b = Inr st"
    and c: "copy_blob fuel cd s st = Some (out, None, st')"
    and f: "nodes w1 (at_path w1 name) = Some (Regular a [])" and wr: "write_all name out w1 = (Inr (), w2)"
    and v: "validate_blob h s layerInfo (consumed cd st') out w2 = (Inr n, w')"
    and q: "s' = s\<lparr>imageQuota := i64 (imageQuota s - int (length out))\<rparr>"
  note vv = validate_blob_Inr [OF v]
  have "int (length out) \<le> imageQuota s"
    if h: "honest (read_codec cd)" and e: "\<not> skipImageQuotaValidation s" and r: "quota_range (imageQuota s)"
  proof -
    obtain q' where cp: "io_copy fuel (quota_read (read_codec cd) ''uncompressed layer size exceeds quota'')
        \<lparr>DelegateReader = st, QuotaLeft = imageQuota s\<rparr> [] = Some (out, None, q')"
      using c e by (auto simp: copy_blob_def shouldEnforceImageQuotaValidation_def split: option.splits)
    from copy_within_quota [OF h _ this] r show ?thesis by auto
  qed
  with write_new_file [OF f wr] vv q show ?thesis by blast
qed

definition sample_codec :: "(blob \<times> string) codec" where
  "sample_codec = \<lparr>open_codec = (\<lambda>m b. Inr (b, [])),
     read_codec = (\<lambda>n (b, c). case blob_read n b of ((x, st), b') \<Rightarrow> ((x, if chunks b = [] then EOF else st), (b', c @ x))),
     consumed = snd, read_all = (\<lambda>b. Inr (concat (chunks b)))\<rparr>"

definition sample_registry :: "unit registry" where
  "sample_registry = \<lparr>reg_source = ret (), reg_image = (\<lambda>_. throw no_error),
     reg_blob = (\<lambda>_ _ _. ret (sample_blob, 5)), reg_updated = (\<lambda>img _. ret img)\<rparr>"

definition sample_layer :: LayerInfo where
  "sample_layer = zero_layer\<lparr>BlobID := ''sha256:abcde'', DiffID := ''abcde'', layer_size := 5, MediaType := ''tar''\<rparr>"

definition sample_source :: layer_source where
  "sample_source = \<lparr>skipOCILayerValidation = False, skipImageQuotaValidation = False, imageQuota = 7, url_scheme = ''docker''\<rparr>"

lemma sample_copy:
  "copy_blob (Suc (Suc (Suc 0))) sample_codec sample_source (sample_blob, []) =
     Some (''abcde'', None, (\<lparr>chunks = [], blob_end = EOF\<rparr>, ''abcde''))"
  by (simp add: copy_blob_def shouldEnforceImageQuotaValidation_def sample_source_def sample_codec_def
      quota_read_def blob_read_def sample_blob_def copy_buffer_def i64_def Let_def)

definition sample_tmp :: world where
  "sample_tmp = sample_store\<lparr>tmpdir := ''/s/locks'', source_quota := 7\<rparr>"

lemma sample_temp:
  "fst (create_temp ''blob-sha256-abcde'' sample_tmp) = Inr ''/s/locks/blob-sha256-abcde0''"
  by (simp add: create_temp_def create_temp_loop.simps [of 0]) code_simp

lemma sample_write:
  "fst (write_all ''/s/locks/blob-sha256-abcde0'' ''abcde'' (snd (create_temp ''blob-sha256-abcde'' sample_tmp))) = Inr ()"
  by (simp add: create_temp_def create_temp_loop.simps [of 0]) code_simp

lemma sample_blob_run:
  obtains w1 w2 where "create_temp ''blob-sha256-abcde'' sample_tmp = (Inr ''/s/locks/blob-sha256-abcde0'', w1)"
    and "write_all ''/s/locks/blob-sha256-abcde0'' ''abcde'' w1 = (Inr (), w2)"
    and "Blob (Suc (Suc (Suc 0))) id sample_codec sample_registry sample_source sample_layer sample_tmp =
      (Inr (Some (''/s/locks/blob-sha256-abcde0'', 5, sample_source\<lparr>imageQuota := 2\<rparr>)), w2)"
proof -
  obtain w1 where t: "create_temp ''blob-sha256-abcde'' sample_tmp = (Inr ''/s/locks/blob-sha256-abcde0'', w1)"
    using sample_temp by (metis prod.collapse)
  then obtain w2 where wr: "write_all ''/s/locks/blob-sha256-abcde0'' ''abcde'' w1 = (Inr (), w2)"
    using sample_write by (metis prod.collapse snd_conv)
  have pat: "''blob-'' @ replace_char (BlobID sample_layer) CHR '':'' ''-'' = ''blob-sha256-abcde''"
    by (simp add: sample_layer_def replace_char_def)
  have v: "validate_blob id sample_source sample_layer ''abcde'' ''abcde'' w2 = (Inr 5, w2)"
    by (simp add: validate_blob_def validateLayerSize_def checkCheckSum_def sample_source_def sample_layer_def
        i64_def after_colon_def Let_def)
  have reg: "reg_source sample_registry = ret ()" "reg_blob sample_registry x y z = ret (sample_blob, 5)" for x y z
    by (simp_all add: sample_registry_def)
  have blob: "getBlobWithRetries sample_registry x y z = ret (sample_blob, 5)" for x y z
    by (rule ext) (simp add: getBlobWithRetries_def MAX_DOCKER_RETRIES_def eval_nat_numeral reg)
  have rep: "validateLayerSize sample_source sample_layer 5 = ret ()"
    by (simp add: validateLayerSize_def sample_layer_def)
  have med: "open_codec sample_codec m b = Inr (b, [])" "consumed sample_codec (b, c) = c" for m b c
    by (simp_all add: sample_codec_def)
  have left: "i64 (imageQuota sample_source - int (length ''abcde'')) = 2"
    by (simp add: sample_source_def i64_def)
  have "Blob (Suc (Suc (Suc 0))) id sample_codec sample_registry sample_source sample_layer sample_tmp =
      (Inr (Some (''/s/locks/blob-sha256-abcde0'', 5, sample_source\<lparr>imageQuota := 2\<rparr>)), w2)"
    unfolding Blob_def reg blob pat by (simp add: rep t med sample_copy wr v left [simplified])
  with t wr show thesis by (rule that)
qed

theorem Blob_verified_witness:
  "\<exists>w'. Blob (Suc (Suc (Suc 0))) id sample_codec sample_registry sample_source sample_layer sample_tmp =
      (Inr (Some (''/s/locks/blob-sha256-abcde0'', 5, sample_source\<lparr>imageQuota := 2\<rparr>)), w') \<and>
    (\<exists>raw out a. nodes w' (at_path w' ''/s/locks/blob-sha256-abcde0'') = Some (Regular a out) \<and>
       after_colon (BlobID sample_layer) = Inr (id raw) \<and> DiffID sample_layer = id out)"
proof (rule sample_blob_run)
  fix w2
  assume run: "Blob (Suc (Suc (Suc 0))) id sample_codec sample_registry sample_source sample_layer sample_tmp =
      (Inr (Some (''/s/locks/blob-sha256-abcde0'', 5, sample_source\<lparr>imageQuota := 2\<rparr>)), w2)"
  with Blob_verified [OF run] show ?thesis by (auto simp: sample_source_def)
qed

section \<open>Copies that end\<close>

text \<open>A measure that every read of a byte or more lowers bounds the number of reads.\<close>

definition progresses :: "('s \<Rightarrow> nat) \<Rightarrow> 's reader \<Rightarrow> bool" where
  "progresses \<mu> rd \<longleftrightarrow> (\<forall>n s b s'. 0 < n \<longrightarrow> rd n s = ((b, More), s') \<longrightarrow> \<mu> s' < \<mu> s)"

lemma io_copy_returns:
  assumes "progresses \<mu> rd"
  shows "\<mu> s < fuel \<Longrightarrow> io_copy fuel rd s acc \<noteq> None"
proof (induction fuel arbitrary: s acc)
  case (Suc fuel)
  obtain b st s' where r: "rd copy_buffer s = ((b, st), s')" by (metis prod.collapse)
  show ?case
  proof (cases st)
    case More
    with assms r have "\<mu> s' < \<mu> s" unfolding progresses_def by (metis copy_buffer_def zero_less_numeral mult_pos_pos)
    with Suc r More show ?thesis by simp
  qed (use r in simp_all)
qed simp

lemma quota_copy_returns:
  assumes "progresses \<mu> rd" and "honest rd"
  shows "\<mu> (DelegateReader q) < fuel \<Longrightarrow> quota_range (QuotaLeft q) \<Longrightarrow>
    io_copy fuel (quota_read rd msg) q acc \<noteq> None"
proof (induction fuel arbitrary: q acc)
  case (Suc fuel)
  obtain b st q' where r: "quota_read rd msg copy_buffer q = ((b, st), q')" by (metis prod.collapse)
  show ?case
  proof (cases st)
    case More
    let ?n = "if int copy_buffer > QuotaLeft q then nat (QuotaLeft q + 1) else copy_buffer"
    from More quota_read_cases [OF assms(2) Suc.prems(2) r]
    have rd: "rd ?n (DelegateReader q) = ((b, More), DelegateReader q')"
      and left: "QuotaLeft q' = QuotaLeft q - int (length b)" "int (length b) \<le> QuotaLeft q" by auto
    have "0 < ?n" using Suc.prems(2) by (simp add: quota_range_def copy_buffer_def)
    with assms(1) rd have "\<mu> (DelegateReader q') < \<mu> (DelegateReader q)" unfolding progresses_def by blast
    moreover have "quota_range (QuotaLeft q')" using left Suc.prems(2) by (simp add: quota_range_def)
    ultimately show ?thesis using Suc r More by simp
  qed (use r in simp_all)
qed simp

text \<open>C21: copying a layer ends. If every read that is not the last makes progress by some measure,
  then as many reads as the measure of the whole blob, and one more, are enough, with the quota
  reader in between and without it.\<close>

theorem copy_blob_returns:
  assumes "progresses \<mu> (read_codec cd)" and "honest (read_codec cd)" and "quota_range (imageQuota s)"
    and "\<mu> st < fuel"
  shows "copy_blob fuel cd s st \<noteq> None"
proof (cases "shouldEnforceImageQuotaValidation s")
  case True
  have "io_copy fuel (quota_read (read_codec cd) ''uncompressed layer size exceeds quota'')
      \<lparr>DelegateReader = st, QuotaLeft = imageQuota s\<rparr> [] \<noteq> None"
    by (rule quota_copy_returns [OF assms(1,2)]) (simp_all add: assms(3,4))
  with True show ?thesis by (auto simp: copy_blob_def)
next
  case False
  with io_copy_returns [OF assms(1,4)] show ?thesis by (simp add: copy_blob_def)
qed

lemma sample_codec_read:
  "read_codec sample_codec n (b, c) = (case blob_read n b of ((x, st), b') \<Rightarrow> ((x, if chunks b = [] then EOF else st), (b', c @ x)))"
  by (simp add: sample_codec_def)

lemma sample_codec_contract:
  "honest (read_codec sample_codec)"
  "progresses (\<lambda>(b, c). sum_list (map (\<lambda>x. Suc (length x)) (chunks b))) (read_codec sample_codec)"
  by (auto simp: honest_def progresses_def sample_codec_read blob_read_def split: list.splits if_splits)

theorem copy_blob_returns_witness:
  "copy_blob 8 sample_codec sample_source (sample_blob, []) \<noteq> None"
  by (rule copy_blob_returns [OF sample_codec_contract(2,1)])
    (simp_all add: quota_range_def sample_source_def sample_blob_def)

definition sample_manifest :: "manifest_layer list" where
  "sample_manifest = map (\<lambda>d. \<lparr>Digest = d, man_size = 3, base_directory_annotation = [], man_urls = [],
     man_media_type = []\<rparr>) [''sha256:p'', ''sha256:q'']"

theorem createLayerInfos_chain_witness:
  "\<exists>infos. createLayerInfos id sample_manifest [''sha256:a'', ''sha256:b''] [] = Inr infos \<and>
     length infos = 2 \<and> ParentChainID (infos ! 1) = ChainID (infos ! 0) \<and>
     Inr (ChainID (infos ! 1)) = chainID id ''sha256:b'' ''a''"
proof -
  obtain infos where run: "createLayerInfos id sample_manifest [''sha256:a'', ''sha256:b''] [] = Inr infos"
    and first: "ChainID (infos ! 0) = ''a''"
    by (simp add: sample_manifest_def chainID_def after_colon_def digest_hex_def)
  with createLayerInfos_chain [where h = id and layers = sample_manifest and ds = "[''sha256:a'', ''sha256:b'']"]
  have "length infos = 2 \<and> ParentChainID (infos ! 1) = ChainID (infos ! 0) \<and>
     Inr (ChainID (infos ! 1)) = chainID id ''sha256:b'' (ParentChainID (infos ! 1))"
    by (simp add: sample_manifest_def numeral_2_eq_2 nth_Cons')
  with run first show ?thesis by auto
qed

end
