(* ===== verification/Command_Facts.thy ===== *)
theory Command_Facts
  imports Commands Fetcher_Facts
begin

text \<open>
  What the commands promise of their arguments: how an image is named, where a base image comes
  from and when its layers are checked.
\<close>

section \<open>Names of images\<close>

lemma text_after_prefix: "text_after pat (pat @ s) = Some s"
proof (cases "pat @ s")
  case (Cons c t)
  moreover have "prefix pat (c # t)" unfolding Cons [symmetric] by simp
  moreover have "drop (length pat) (c # t) = s" unfolding Cons [symmetric] by simp
  ultimately show ?thesis by simp
qed simp

lemma image_path_split:
  assumes "abs_path store" and "plain_name i"
  shows "imagePath store i = filepath_join [store, ImageDirName] @ ''/'' @ i" and "prefix ''/'' (imagePath store i)"
proof -
  have join: "filepath_join [store, ImageDirName] = path_of (comps store @ [ImageDirName])"
    and img: "imagePath store i = path_of (comps store @ [ImageDirName, i])"
    using abs_path_join(1) [OF assms(1), of "[ImageDirName]"] abs_path_join(1) [OF assms(1), of "[ImageDirName, i]"] assms(2)
    by (simp_all add: imagePath_def)
  then show "imagePath store i = filepath_join [store, ImageDirName] @ ''/'' @ i"
    using path_of_snoc [of "comps store @ [ImageDirName]" i] by simp
  show "prefix ''/'' (imagePath store i)" by (simp add: img path_of_def)
qed

text \<open>An image may be given to a command by its id or by the path of its directory: both
  are looked up in the same way and lead to the same id.\<close>

theorem FindID_path_or_id:
  assumes "abs_path store" and "regexp_plain store" and "plain_name i" and "CHR 0x0A \<notin> set i"
  shows "FindID re store (imagePath store i) = FindID re store i"
proof -
  note path = image_path_split [OF assms(1,3)]
  have "FindStringSubmatch re store (imagePath store i) = [imagePath store i, i]"
  proof -
    have "text_after (filepath_join [store, ImageDirName] @ ''/'') (imagePath store i) = Some i"
      using text_after_prefix [of "filepath_join [store, ImageDirName] @ ''/''" i] path(1) by simp
    moreover have "takeWhile (\<lambda>c. c \<noteq> CHR 0x0A) i = i" using assms(4) by (auto simp: takeWhile_eq_all_conv)
    ultimately show ?thesis using assms(2) path(1) by (simp add: FindStringSubmatch_def Let_def)
  qed
  moreover have "\<not> prefix ''/'' i" using assms(3) by (cases i) (auto simp: plain_name_def)
  ultimately show ?thesis
    unfolding FindID_def Let_def using path(2) by (simp add: imagePath_def)
qed

theorem FindID_path_or_id_witness:
  "FindID (\<lambda>_ _. []) ''/s'' (imagePath ''/s'' ''i'') = FindID (\<lambda>_ _. []) ''/s'' ''i''"
proof (rule FindID_path_or_id)
  have "''/s'' = path_of [''s'']" and "list_all plain_name [''s'']" by (simp_all add: path_of_def plain_name_def)
  then show "abs_path ''/s''" unfolding abs_path_def by blast
qed (simp_all add: regexp_plain_def backslash_def plain_name_def)

text \<open>C37: the path is not tied to the store: any existing file outside it whose name ends like the
  path of an image is taken for that image.\<close>

theorem FindID_not_anchored:
  assumes "abs_path store" and "regexp_plain store" and "plain_name i" and "CHR 0x0A \<notin> set i"
    and "prefix ''/'' other" and "text_after (filepath_join [store, ImageDirName] @ ''/'') (other @ imagePath store i) = Some i"
    and "os_stat (other @ imagePath store i) w = (Inr n, w')"
  shows "FindID re store (other @ imagePath store i) w = (Inr i, w')"
proof -
  have "takeWhile (\<lambda>c. c \<noteq> CHR 0x0A) i = i" using assms(4) by (auto simp: takeWhile_eq_all_conv)
  then have "FindStringSubmatch re store (other @ imagePath store i) =
      [filepath_join [store, ImageDirName] @ ''/'' @ i, i]"
    using assms(2,6) by (simp add: FindStringSubmatch_def Let_def)
  moreover have "prefix ''/'' (other @ imagePath store i)" using assms(5) by (auto simp: prefix_def)
  moreover have "image_path_exists (other @ imagePath store i) w = (Inr True, w')"
    using assms(7) by (simp add: image_path_exists_def if_missing_def)
  ultimately show ?thesis by (simp add: FindID_def Let_def)
qed

definition elsewhere :: world where
  "elsewhere = sample_store\<lparr>tree := ([''x''], Dir root_attr) # ([''x'', ''s''], Dir root_attr) #
     ([''x'', ''s'', ''images''], Dir root_attr) # ([''x'', ''s'', ''images'', ''i''], Dir root_attr) # sample_tree\<rparr>"

theorem FindID_not_anchored_witness:
  "FindID (\<lambda>_ _. []) ''/s'' ''/x/s/images/i'' elsewhere = (Inr ''i'', elsewhere)"
proof -
  have abs: "abs_path ''/s''" unfolding abs_path_def by (rule exI [of _ "[''s'']"]) (simp add: path_of_def plain_name_def)
  have path: "imagePath ''/s'' ''i'' = ''/s/images/i''" by code_simp
  have "os_stat (''/x'' @ imagePath ''/s'' ''i'') elsewhere = (Inr (Dir root_attr), elsewhere)"
    unfolding path by (simp add: os_stat_def faulty_def elsewhere_def sample_store_def blank_def at_path_def
        is_rooted_def stat_node_def eval_nat_numeral nodes_def comps_def clean_comps_def)
  moreover have "text_after (filepath_join [''/s'', ImageDirName] @ ''/'') (''/x'' @ imagePath ''/s'' ''i'') = Some ''i''"
    by code_simp
  ultimately show ?thesis
    using FindID_not_anchored [OF abs, of "''i''" "''/x''" elsewhere "Dir root_attr" elsewhere "\<lambda>_ _. []"]
    by (simp add: regexp_plain_def backslash_def plain_name_def path)
qed

section \<open>Base images\<close>

lemma unescape_plain: "CHR ''%'' \<notin> set p \<Longrightarrow> unescape p = Some p"
  by (induction p) auto

lemma cut_absent: "c \<notin> set s \<Longrightarrow> cut c s = (s, [])"
  by (induction s) (auto simp: cut_def)

lemma getScheme_rooted: "prefix ''/'' p \<Longrightarrow> getScheme p = Some ([], p)"
  by (cases p) (auto simp: getScheme_def is_letter_def is_digit_def)

text \<open>A base image given as an absolute path is a tar file. It is looked for under that very
  path if all its characters may stand in a URL; otherwise, for example if there is a space in
  it, under the path with those characters escaped.\<close>

theorem local_image_path:
  assumes "prefix ''/'' p" and "\<not> prefix ''//'' p"
    and "list_all (\<lambda>c. c \<noteq> CHR ''#'' \<and> c \<noteq> CHR ''?'' \<and> c \<noteq> CHR ''%'' \<and> \<not> is_control c) p"
  shows "\<exists>u. url_Parse oa p = Inr u \<and> createFetcher env u ctx cfg w = (Inr (NewTarFetcher env u), w) \<and>
    f_stream_blob (NewTarFetcher env u) =
      TarFetcher_StreamBlob (if valid_encoded path_safe p then p else escape path_safe p)"
proof -
  have absent: "CHR ''#'' \<notin> set p" "CHR ''?'' \<notin> set p" "CHR ''%'' \<notin> set p" "\<not> list_ex is_control p"
    using assms(3) by (auto simp: list_all_iff list_ex_iff)
  note cuts = absent(1,2) [THEN cut_absent] and plain = unescape_plain [OF absent(3)]
  let ?u = "\<lparr>Scheme = [], Opaque = [], Host = [], authority = [], Path = p,
     RawPath = (if escape path_safe p = p then [] else p), OmitHost = False, RawQuery = [], ForceQuery = False, RawFragment = []\<rparr>"
  have parse: "url_Parse oa p = Inr ?u"
    unfolding url_Parse_def Let_def
    by (simp add: cuts plain getScheme_rooted assms(1,2) absent count_notin)
  have star: "p \<noteq> ''*''" and nonempty: "p \<noteq> []" using assms(1) by auto
  have seg: "fst (cut CHR ''/'' (CHR ''/'' # t)) = []" for t by (simp add: cut_def)
  have root: "path_safe CHR ''/''" by code_simp
  obtain t where p: "p = CHR ''/'' # t" using assms(1) by (auto simp: prefix_def)
  have esc: "escape path_safe p = CHR ''/'' # escape path_safe t" by (simp add: p escape_def root)
  have path: "EscapedPath ?u = (if valid_encoded path_safe p then p else escape path_safe p)"
    using star nonempty plain by (auto simp: EscapedPath_def re_escaped_def)
  then obtain s where "EscapedPath ?u = CHR ''/'' # s" using esc p by (cases "valid_encoded path_safe p") auto
  then have "url_String ?u = EscapedPath ?u"
    unfolding url_String_def Let_def by (simp add: seg)
  then have "url_String ?u = (if valid_encoded path_safe p then p else escape path_safe p)" by (simp only: path)
  then have "f_stream_blob (NewTarFetcher env ?u) =
      TarFetcher_StreamBlob (if valid_encoded path_safe p then p else escape path_safe p)"
    by (simp add: NewTarFetcher_def Let_def)
  moreover have "createFetcher env ?u ctx cfg w = (Inr (NewTarFetcher env ?u), w)"
    by (simp add: createFetcher_def)
  ultimately show ?thesis using parse by blast
qed

section \<open>Where a base image comes from\<close>

lemma NewBlobReader_Inr:
  assumes "NewBlobReader name w = (Inr st, w')" and "nodes w (at_path w name) = Some (Regular a out)"
  shows "stream_bytes st = out"
proof -
  obtain w1 where o: "os_open name w = (Inr (), w1)"
    and rest: "checked (os_read_file name) (wrapping ''failed to open blob'')
      (\<lambda>data. ret \<lparr>stream_bytes = data, stream_close = os_remove name\<rparr>) w1 = (Inr st, w')"
    using assms(1) unfolding NewBlobReader_def by (elim checked_wrap_InrE) simp
  obtain fs where w1: "w1 = w\<lparr>faults := fs\<rparr>" using os_open_cases [OF o] by blast
  obtain data w2 where r: "os_read_file name w1 = (Inr data, w2)"
    and st: "st = \<lparr>stream_bytes = data, stream_close = os_remove name\<rparr>"
    using rest by (elim checked_wrap_InrE) simp
  have "stat_node w1 (at_path w1 name) = Inr (Regular a out)"
    using stat_node_Regular [OF assms(2)] by (simp add: w1)
  with os_read_file_cases [OF r] st show ?thesis by auto
qed

text \<open>C39: a layer streamed from anywhere but an OCI directory is what the manifest says, whatever
  the flags: its bytes have the digest of the layer, the blob it was decompressed from has the
  digest the layer is named by. Only for a scheme \<open>oci\<close> can a flag switch these checks off.\<close>

theorem streamed_layer_verified:
  assumes "createFetcher env u ctx cfg w0 = (Inr f, w1)" and "Scheme u \<noteq> []"
    and "Scheme u \<noteq> ''oci'' \<or> \<not> SkipLayerValidation cfg"
    and "f_stream_blob f layerInfo w = (Inr (stream, n), w')"
  shows "sha256 env (stream_bytes stream) = DiffID layerInfo \<and>
    (\<exists>raw. after_colon (BlobID layerInfo) = Inr (sha256 env raw) \<and> n = i64 (int (length raw)) \<and>
       (isV1Image layerInfo \<or> n = UNKNOWN_LAYER_SIZE \<or> layer_size layerInfo = n))"
proof -
  define s where "s = NewLayerSource (SkipLayerValidation cfg \<and> Scheme u = ''oci'')
    (shouldSkipImageQuotaValidation cfg) (DiskLimitSizeBytes cfg) u"
  have f: "f = source_fetcher env ctx u s"
    using assms(1,2) by (auto simp: createFetcher_def Let_def s_def)
  have strict: "\<not> skipOCILayerValidation (s\<lparr>imageQuota := q\<rparr>)" for q
    using assms(3) by (auto simp: s_def NewLayerSource_def)
  let ?s = "s\<lparr>imageQuota := source_quota w\<rparr>" and ?reg = "image_registry env ctx u"
  from assms(4) obtain s' w2 where
    "LayerFetcher_StreamBlob (read_bound env) (sha256 env) (codecs env) ?reg ?s layerInfo w = (Inr (Some (stream, n, s')), w2)"
    unfolding f source_fetcher_def
    by (auto elim!: checked_throw_InrE split: option.splits)
  then obtain name w3 where blob: "Blob (read_bound env) (sha256 env) (codecs env) ?reg ?s layerInfo w = (Inr (Some (name, n, s')), w3)"
    and rd: "NewBlobReader name w3 = (Inr stream, w2)"
    unfolding LayerFetcher_StreamBlob_def
    by (auto elim!: checked_throw_InrE checked_wrap_InrE split: option.splits)
  from Blob_verified [OF blob] obtain raw out a where written: "nodes w3 (at_path w3 name) = Some (Regular a out)"
    and n: "n = i64 (int (length raw))" and sums: "after_colon (BlobID layerInfo) = Inr (sha256 env raw)" "DiffID layerInfo = sha256 env out"
    and sizes: "isV1Image layerInfo \<or> n = UNKNOWN_LAYER_SIZE \<or> layer_size layerInfo = n"
    using strict by blast
  show ?thesis
    unfolding NewBlobReader_Inr [OF rd written] using n sums sizes by auto
qed


definition sample_outside :: "(blob \<times> string, unit, unit) outside" where
  "sample_outside = \<lparr>url_authority = (\<lambda>s. Inl (Msg s)), regexp_submatch = (\<lambda>_ _. []), sha256 = id,
     codecs = sample_codec, read_tar = (\<lambda>s. \<lparr>tar_entries = [], tar_error = None\<rparr>),
     transports = (\<lambda>_. Some (\<lambda>_. Inr ())), open_source = (\<lambda>_ _. ret ()), source_image = (\<lambda>_. throw no_error),
     source_blob = (\<lambda>_ _ _. ret (sample_blob, 5)), updated_image = (\<lambda>img _. ret img), source_close = ret (),
     short_ids = (\<lambda>n. Inr ''Z''), mounted = (\<lambda>_. ret True), dropsonde_Initialize = (\<lambda>_. ret ()), read_bound = Suc (Suc (Suc 0)), dir_bound = 10, project_bound = 3\<rparr>"

definition docker_url :: base_url where
  "docker_url = \<lparr>Scheme = ''docker'', Opaque = [], Host = [], authority = [], Path = ''/cfs'', RawPath = [],
     OmitHost = False, RawQuery = [], ForceQuery = False, RawFragment = []\<rparr>"

definition plain_context :: system_context where
  "plain_context = \<lparr>DockerInsecureSkipTLSVerify = None, DockerAuthConfig = None, OCICertPath = []\<rparr>"

definition lax_config :: create_config where
  "lax_config = (Create_section zero_config)\<lparr>SkipLayerValidation := True, DiskLimitSizeBytes := 7\<rparr>"

lemma sample_reader:
  "map_sum id stream_bytes (fst (NewBlobReader ''/s/locks/blob-sha256-abcde0''
     (snd (write_all ''/s/locks/blob-sha256-abcde0'' ''abcde'' (snd (create_temp ''blob-sha256-abcde'' sample_tmp)))))) = Inr ''abcde''"
  by (simp add: create_temp_def create_temp_loop.simps [of 0]) code_simp

theorem streamed_layer_verified_witness:
  "\<exists>f w1 stream n w'. createFetcher sample_outside docker_url plain_context lax_config sample_tmp = (Inr f, w1) \<and>
     f_stream_blob f sample_layer sample_tmp = (Inr (stream, n), w') \<and> stream_bytes stream = DiffID sample_layer"
proof (rule sample_blob_run)
  fix w1 w2
  let ?name = "''/s/locks/blob-sha256-abcde0''"
  assume "create_temp ''blob-sha256-abcde'' sample_tmp = (Inr ?name, w1)" and "write_all ?name ''abcde'' w1 = (Inr (), w2)"
    and run: "Blob (Suc (Suc (Suc 0))) id sample_codec sample_registry sample_source sample_layer sample_tmp =
      (Inr (Some (?name, 5, sample_source\<lparr>imageQuota := 2\<rparr>)), w2)"
  then have "map_sum id stream_bytes (fst (NewBlobReader ?name w2)) = Inr ''abcde''"
    using sample_reader by simp
  then obtain stream w3 where rd: "NewBlobReader ?name w2 = (Inr stream, w3)"
    by (cases "NewBlobReader ?name w2"; cases "fst (NewBlobReader ?name w2)") auto
  let ?f = "source_fetcher sample_outside plain_context docker_url sample_source"
  have reg: "image_registry sample_outside plain_context docker_url = sample_registry"
    by (simp add: image_registry_def sample_registry_def CreateImageSource_def reference_def sample_outside_def fun_eq_iff checked_def)
  have src: "sample_source\<lparr>imageQuota := source_quota sample_tmp\<rparr> = sample_source"
    by (simp add: sample_source_def sample_tmp_def)
  have parts: "read_bound sample_outside = Suc (Suc (Suc 0))" "sha256 sample_outside = id" "codecs sample_outside = sample_codec"
    by (simp_all add: sample_outside_def)
  have streamed: "f_stream_blob ?f sample_layer sample_tmp = (Inr (stream, 5), w3\<lparr>source_quota := 2\<rparr>)"
    by (simp add: source_fetcher_def LayerFetcher_StreamBlob_def parts reg src run rd)
  have made: "createFetcher sample_outside docker_url plain_context lax_config sample_tmp = (Inr ?f, sample_tmp\<lparr>source_quota := 7\<rparr>)"
    by (simp add: createFetcher_def NewLayerSource_def docker_url_def lax_config_def zero_config_def sample_source_def
        shouldSkipImageQuotaValidation_def Let_def)
  have "Scheme docker_url \<noteq> []" "Scheme docker_url \<noteq> ''oci''" by (simp_all add: docker_url_def)
  with streamed_layer_verified [OF made _ _ streamed] made streamed show ?thesis by (auto simp: parts)
qed

theorem local_image_path_witness:
  "\<exists>u. url_Parse (url_authority sample_outside) ''/my image.tar'' = Inr u \<and>
     f_stream_blob (NewTarFetcher sample_outside u) = TarFetcher_StreamBlob ''/my%20image.tar''"
proof -
  have "\<not> valid_encoded path_safe ''/my image.tar''" "escape path_safe ''/my image.tar'' = ''/my%20image.tar''"
    by code_simp+
  moreover have "list_all (\<lambda>c. c \<noteq> CHR ''#'' \<and> c \<noteq> CHR ''?'' \<and> c \<noteq> CHR ''%'' \<and> \<not> is_control c) ''/my image.tar''"
    by code_simp
  ultimately show ?thesis
    using local_image_path [of "''/my image.tar''" "url_authority sample_outside" sample_outside undefined undefined undefined] by auto
qed

end
