(* ===== verification/Image_Facts.thy ===== *)
theory Image_Facts
  imports Command_Facts
begin

text \<open>
  The life of an image: which creations are refused, what a creation that fails does to an image
  that is already there, and what a deletion that succeeds consists of.
\<close>

section \<open>Creations that are refused\<close>

text \<open>An id with a slash and an id that an image already has are refused, each with its own
  error. Nothing has been locked, fetched or written by then: the tree and the locks are as they
  were.\<close>

theorem Create_refuses:
  assumes "im_exists (c_images c) = image_Exists store"
    and "CHR ''/'' \<notin> set (create_id spec) \<longrightarrow> os_stat (imagePath store (create_id spec)) w = (Inr n, w1)"
  shows "\<exists>w'. Create c spec w = (Inl (Msg (if CHR ''/'' \<in> set (create_id spec)
        then ''id `'' @ create_id spec @ ''` contains invalid characters: `/`''
        else ''image for id `'' @ create_id spec @ ''` already exists'')), w') \<and>
      nodes w' = nodes w \<and> flocks w' = flocks w"
proof (cases "CHR ''/'' \<in> set (create_id spec)")
  case True
  then show ?thesis by (simp add: Create_def timed_def TryEmitDurationFrom_def emit_def deferred_def nodes_def)
next
  case False
  then have stat: "os_stat (imagePath store (create_id spec)) w = (Inr n, w1)" using assms(2) by simp
  then obtain fs where "w1 = w\<lparr>faults := fs\<rparr>" using os_stat_cases by blast
  moreover from stat have "image_Exists store (create_id spec) w = (Inr True, w1)"
    by (simp add: image_Exists_def)
  ultimately show ?thesis
    using False assms(1) by (simp add: Create_def timed_def TryEmitDurationFrom_def emit_def deferred_def nodes_def)
qed

definition sample_creator :: creator where
  "sample_creator = NewCreator sample_outside (zero_config\<lparr>StorePath := ''/s''\<rparr>) \<lparr>UIDMappings = [], GIDMappings = []\<rparr> False
     (NewTarFetcher sample_outside docker_url)"

definition sample_create :: "string \<Rightarrow> CreateSpec" where
  "sample_create i = \<lparr>create_id = i, create_disk_limit = 0, create_mount = False, create_exclude = False,
     CleanOnCreate = False, CleanOnCreateThresholdBytes = 0, create_uid_mappings = [], create_gid_mappings = []\<rparr>"

theorem Create_refuses_witness:
  "fst (Create sample_creator (sample_create ''i'') sample_store) = Inl (Msg ''image for id `i` already exists'')"
proof -
  have "fst (os_stat (imagePath ''/s'' ''i'') sample_store) = Inr (Dir root_attr)" by code_simp
  then obtain w1 where "os_stat (imagePath ''/s'' (create_id (sample_create ''i''))) sample_store = (Inr (Dir root_attr), w1)"
    by (metis prod.collapse sample_create_def CreateSpec.select_convs(1))
  moreover have "im_exists (c_images sample_creator) = image_Exists ''/s''"
    by (simp add: sample_creator_def NewCreator_def NewImageManager_def Let_def)
  ultimately show ?thesis
    using Create_refuses [of sample_creator "''/s''" "sample_create ''i''" sample_store "Dir root_attr" w1]
    by (auto simp: sample_create_def)
qed

lemma imagePath_comps:
  assumes "abs_path store" and "plain_name i"
  shows "comps (imagePath store i) = comps store @ [ImageDirName, i]" and "is_rooted (imagePath store i)"
  using join_comps [OF assms(1), of "[ImageDirName, i]"] assms(2) by (simp_all add: imagePath_def)

text \<open>C40: creating the directory of an image that is already there fails, and the clean-up after
  that failure removes the image that was there: the loser of two creations of one id destroys the
  image of the winner.\<close>

theorem image_Create_destroys_existing:
  assumes "abs_path store" and "plain_name (spec_id spec)" and "faults w = []"
    and "nodes w (comps (imagePath store (spec_id spec))) \<noteq> None"
    and "drv_destroy_image drv (imagePath store (spec_id spec)) w = (r, w1)"
    and "\<forall>e. r = Inl e \<longrightarrow> \<not> is_panic e" and "faults w1 = []"
    and "mounted_below w1 (comps (imagePath store (spec_id spec))) = []"
  shows "\<exists>w'. image_Create drv store spec w =
      (Inl (Wrapped ''making image path'' (PathErr ''mkdir'' (imagePath store (spec_id spec)) EEXIST)), w') \<and>
    (\<forall>q. prefix (comps (imagePath store (spec_id spec))) q \<longrightarrow> nodes w' q = None)"
proof -
  let ?p = "imagePath store (spec_id spec)"
  have at: "at_path v ?p = comps ?p" for v
    using imagePath_comps(2) [OF assms(1,2)] by (simp add: at_path_def)
  have mk: "os_mkdir ?p perm_0700 w = (Inl (PathErr ''mkdir'' ?p EEXIST), w)"
    using assms(3,4) at by (simp add: os_mkdir_def faulty_def Let_def)
  let ?w = "prune (removable w1 (comps ?p)) w1"
  have rm: "os_remove_all ?p w1 = (Inr (), ?w)"
    using assms(7,8) at by (simp add: os_remove_all_def faulty_def Let_def)
  have "image_Create drv store spec w = (Inl (Wrapped ''making image path'' (PathErr ''mkdir'' ?p EEXIST)), ?w)"
    using assms(5,6) mk rm by (cases r) (simp_all add: image_Create_def create_failed_cleaning_up_def Let_def)
  moreover have "nodes ?w q = None" if "prefix (comps ?p) q" for q
    using that assms(8) by (simp add: removable_def)
  ultimately show ?thesis by blast
qed

definition sample_image_spec :: "string \<Rightarrow> ImageSpec" where
  "sample_image_spec i = \<lparr>spec_id = i, spec_mount = False, spec_disk_limit = 0, spec_exclude = False,
     BaseVolumeIDs = [''a''], spec_base_image = \<lparr>diff_ids = [], image_env = []\<rparr>, spec_owner_uid = 0, spec_owner_gid = 0\<rparr>"

theorem image_Create_destroys_existing_witness:
  "nodes (snd (image_Create (overlay_images sample_driver) ''/s'' (sample_image_spec ''i'') sample_store))
     (in_store [''images'', ''i'']) = None"
proof -
  let ?p = "imagePath ''/s'' (spec_id (sample_image_spec ''i''))"
  let ?d = "drv_destroy_image (overlay_images sample_driver) ?p sample_store"
  have abs: "abs_path ''/s''" unfolding abs_path_def by (rule exI [of _ "[''s'']"]) (simp add: path_of_def plain_name_def)
  have p: "comps ?p = in_store [''images'', ''i'']" by code_simp
  have there: "nodes sample_store (comps ?p) \<noteq> None" and plain: "plain_name (spec_id (sample_image_spec ''i''))"
    and fault_free: "faults sample_store = []" "faults (snd ?d) = []" and free: "mounted_below (snd ?d) (comps ?p) = []"
    and ok: "\<not> isl (fst ?d)"
    by code_simp+
  have np: "\<forall>e. fst ?d = Inl e \<longrightarrow> \<not> is_panic e" using ok by auto
  have run: "drv_destroy_image (overlay_images sample_driver) ?p sample_store = (fst ?d, snd ?d)" by simp
  obtain w' where "image_Create (overlay_images sample_driver) ''/s'' (sample_image_spec ''i'') sample_store =
      (Inl (Wrapped ''making image path'' (PathErr ''mkdir'' ?p EEXIST)), w')"
    and "\<forall>q. prefix (comps ?p) q \<longrightarrow> nodes w' q = None"
    using image_Create_destroys_existing [OF abs plain fault_free(1) there run np fault_free(2) free] by blast
  then show ?thesis using p by simp
qed

section \<open>Deletion\<close>

text \<open>A machine without faults stays one.\<close>

lemma keeps_fault_free:
  assumes "\<And>w r w'. m w = (r, w') \<Longrightarrow> faults w' = faults w"
  shows "keeps (\<lambda>w. faults w = []) (faulty f m)"
  by (rule keepsI) (auto simp: faulty_def assms)

lemma fault_free_calls:
  "keeps (\<lambda>w. faults w = []) (os_stat p)" "keeps (\<lambda>w. faults w = []) (os_remove p)"
  "keeps (\<lambda>w. faults w = []) (os_remove_all p)" "keeps (\<lambda>w. faults w = []) (unix_unmount p)"
  "keeps (\<lambda>w. faults w = []) (c_opendir p)" "keeps (\<lambda>w. faults w = []) (ioctl_getxattr d)"
  unfolding os_stat_def os_remove_def os_remove_all_def unix_unmount_def c_opendir_def ioctl_getxattr_def
  by (rule keeps_fault_free; auto simp: Let_def prune_def split: sum.splits option.splits node.splits if_splits)+

lemma fault_free_unmount: "keeps (\<lambda>w. faults w = []) (rootful_unmount p)"
proof -
  have "keeps (\<lambda>w. faults w = []) (rootful_loop n err p)" for n err
    by (induction n arbitrary: err) (auto intro!: keeps_intro fault_free_calls)
  then show ?thesis by (simp add: rootful_unmount_def)
qed

lemma fault_free_DestroyImage:
  "unmounter d = rootful_unmount \<Longrightarrow> keeps (\<lambda>w. faults w = []) (DestroyImage d p)"
  by (auto simp: DestroyImage_def ensureImageDestroyed_def GetProjectID_def openDir_def Let_def
      intro!: keeps_intro fault_free_calls fault_free_unmount)

text \<open>What a deletion that succeeds on a machine without faults consists of.\<close>

lemma Delete_Inr:
  assumes "abs_path store" and "plain_name i" and "faults w = []" and "unmounter d = rootful_unmount"
    and "Delete (NewImageManager (overlay_images d) store) (store_dependencies store) i w = (Inr (), w')"
  obtains v1 v e where "nodes v1 = nodes w" and "v = snd (DestroyImage d (imagePath store i) v1)"
    and "stat_node v (comps store @ [ImageDirName, i]) = Inl e"
    and "nodes w' = (nodes v)(comps (dependencies_dir store) @ [dep_name (image_ref i)] := None)"
proof -
  let ?p = "imagePath store i" and ?f = "filePath (dependencies_dir store) (image_ref i)"
  let ?I = "\<lambda>w. faults w = []"
  note p = imagePath_comps [OF assms(1,2)] and f = filePath_facts(2,3) [OF dependencies_dir_facts(1) [OF assms(1)], of "image_ref i"]
  have at: "at_path v ?p = comps ?p" "at_path v ?f = comps ?f" for v
    using p(2) f(2) by (simp_all add: at_path_def)
  obtain w1 w2 where destroy: "image_Destroy (overlay_images d) store i w = (Inr (), w1)"
    and dereg: "checked (os_remove ?f) (\<lambda>e. if \<not> is_not_exist (cause e) then throw e else ret ()) ret w1 = (Inr (), w2)"
    and w': "w' = w2\<lparr>events := events w2 @ [Metric MetricImageDeletionTime]\<rparr>"
    using assms(5)
    by (auto simp: Delete_def timed_def deferred_def TryEmitDurationFrom_def emit_def NewImageManager_def store_dependencies_def Deregister_def
        elim!: checked_throw_InrE split: prod.splits)
  have od: "drv_destroy_image (overlay_images d) = DestroyImage d" by (simp add: overlay_images_def)
  let ?check = "observed (os_stat ?p) (\<lambda>r. case r of
      Inr _ \<Rightarrow> throw (Msg (''deleting image path '' @ ?p @ '' failed'')) | Inl _ \<Rightarrow> ret ())"
  obtain ok v1 where ex: "image_Exists store i w = (Inr ok, v1)"
    and rest: "(if \<not> ok then throw (Msg (''image not found: '' @ i)) else logged (DestroyImage d ?p) ?check) v1 = (Inr (), w1)"
    using destroy [unfolded image_Destroy_def od] by (elim checked_wrap_InrE) simp
  define v where "v = snd (DestroyImage d ?p v1)"
  have "keeps ?I (image_Exists store i)" and quiet: "keeps (\<lambda>v. nodes v = nodes w) (image_Exists store i)"
    unfolding image_Exists_def by (intro keeps_intro fault_free_calls; simp add: on_tree_def)+
  from keepsD [OF this(1) assms(3) ex] have "faults v = []"
    unfolding v_def using keeps_snd [OF fault_free_DestroyImage [OF assms(4), of ?p]] by blast
  moreover have "?check v = (Inr (), w1)"
    using rest unfolding v_def by (cases "DestroyImage d ?p v1") (auto simp: logged_def checked_def split: sum.splits if_splits)
  ultimately obtain e where e: "stat_node v (comps ?p) = Inl e" and w1: "w1 = v" and "faults w1 = []"
    using at(1) by (cases "stat_node v (comps ?p)") (auto simp: os_stat_def faulty_def observed_def checked_def)
  then have "(nodes w1 (comps ?f) = None \<and> w2 = w1) \<or> w2 = prune (\<lambda>r. r = comps ?f) w1"
    using dereg absent_errno_cases [of w1 "comps ?f"] at(2)
    by (auto simp: os_remove_def faulty_def checked_def is_not_exist_def Let_def split: option.splits if_splits)
  then have "nodes w' = (nodes v)(comps ?f := None)" by (auto simp: w' w1 fun_eq_iff)
  then show thesis using that [of v1 v e] keepsD [OF quiet refl ex] e p(1) f(1) by (simp add: v_def)
qed

end
