(* ===== verification/Confinement.thy ===== *)
theory Confinement
  imports Round_Trips Inode_Facts
begin

text \<open>
  The root of a sandboxed command: whatever a command that runs under a changed root does, the
  machine outside that root stays as it was. An unpacker is given the directory of one volume
  as its root, and the base directory of a layer is made under the directory of all volumes.
\<close>

lemma nodes_leave_root:
  assumes "\<not> prefix r q"
  shows "nodes (leave_root r w v) q = nodes w q"
proof -
  have "map_of (map (\<lambda>(q, n). (r @ q, n)) t) q = None" for t :: "(path \<times> node) list"
    using assms by (induction t) (auto simp: prefix_def)
  then show ?thesis
    using assms map_of_filter_key [of "\<lambda>q. \<not> prefix r q" "tree w"]
    by (simp add: nodes_def leave_root_def map_add_def)
qed

lemma in_root_outside:
  assumes "in_root r m w = (x, w')" and "\<not> prefix r q"
  shows "nodes w' q = nodes w q"
  using assms by (auto simp: in_root_def nodes_leave_root split: prod.splits)

lemma keeps_open_extras: "on_tree I \<Longrightarrow> keeps I (open_extras fs)"
proof (induction fs)
  case (Cons f fs)
  have "keeps I (open_extra p)" for p
    unfolding open_extra_def by (intro keeps_intro Cons.prems) (auto intro!: keepsI)
  then show ?case using Cons by (auto intro!: keeps_intro)
qed (simp add: keeps_ret)

lemma keeps_process_call: "on_tree I \<Longrightarrow> keeps I process_call"
  unfolding process_call_def
  by (rule keepsI) (auto elim!: faulty_cases intro: on_treeD)

lemma keeps_launch: "on_tree I \<Longrightarrow> keeps I (launch r cloneUserns)"
  by (auto simp: launch_def setIDMappings_def MapUIDs_def MapGIDs_def id_execute_def exec_output_def
      intro!: keeps_intro keeps_process_call split: exec_result.splits)

lemma chroot_to_root:
  assumes "chroot_to p w = (Inr root, w')" and "is_rooted p"
  shows "root = comps p"
  using assms by (auto simp: chroot_to_def sysfail_def at_path_def Let_def
      elim!: checked_InrE faulty_cases split: if_splits)

lemma keeps_chroot_to: "on_tree I \<Longrightarrow> keeps I (chroot_to p)"
proof -
  assume I: "on_tree I"
  have "keeps I (faulty (\<lambda>e k. throw (SysErr e)) (\<lambda>w.
      let q = at_path w p in
      if is_dir w q then (Inr q, w)
      else (Inl (SysErr (if nodes w q = None then absent_errno w q else ENOTDIR)), w)))"
    by (rule keepsI) (auto simp: Let_def elim!: faulty_cases intro: on_treeD [OF I] split: if_splits)
  moreover have "keeps I (faulty (sysfail ''chdir'' ''/'') (ret ()))"
    by (rule keepsI) (auto simp: sysfail_def elim!: faulty_cases intro: on_treeD [OF I])
  ultimately show ?thesis unfolding chroot_to_def by (intro keeps_intro)
qed

lemma run_action_outside:
  assumes "is_rooted (ChrootDir spec)" and "\<not> prefix (comps (ChrootDir spec)) q"
  shows "keeps (\<lambda>w. nodes w q = x) (run_action act c spec)"
proof -
  have I: "on_tree (\<lambda>w. nodes w q = x)" by (simp add: on_tree_def)
  have "ChrootDir spec \<noteq> []" using assms(1) by (auto simp: is_rooted_def)
  have inside: "hoare (\<lambda>w. nodes w q = x) (checked (chroot_to (ChrootDir spec)) throw (\<lambda>root. in_root root m))
      (\<lambda>_ w. nodes w q = x) (\<lambda>_ w. nodes w q = x)" for m :: "string sys"
  proof (rule hoare_checked [where R = "\<lambda>root w. nodes w q = x \<and> root = comps (ChrootDir spec)" and F = "\<lambda>_ w. nodes w q = x"])
    show "hoare (\<lambda>w. nodes w q = x) (chroot_to (ChrootDir spec))
        (\<lambda>root w. nodes w q = x \<and> root = comps (ChrootDir spec)) (\<lambda>_ w. nodes w q = x)"
      by (intro hoareI conjI; (erule (1) keepsD [OF keeps_chroot_to [OF I]] | erule chroot_to_root [OF _ assms(1)]))
    show "hoare (\<lambda>w. nodes w q = x \<and> root = comps (ChrootDir spec)) (in_root root m)
        (\<lambda>_ w. nodes w q = x) (\<lambda>_ w. nodes w q = x)" for root
      using assms(2) by (intro hoareI) (auto dest: in_root_outside)
  qed simp_all
  show ?thesis
    unfolding run_action_def keeps_def
    by (rule hoare_checked [OF keeps_open_extras [OF I, unfolded keeps_def]])
      (use inside \<open>ChrootDir spec \<noteq> []\<close> in \<open>simp_all add: Let_def\<close>)
qed

lemma keeps_exiting: "keeps I m \<Longrightarrow> keeps I (exiting m)"
  by (auto simp: exiting_def intro!: keepsI dest: keepsD split: prod.splits sum.splits if_splits)

lemma Reexec_outside:
  assumes "is_rooted (ChrootDir spec)" and "\<not> prefix (comps (ChrootDir spec)) q"
  shows "keeps (\<lambda>w. nodes w q = x) (Reexec r c spec)"
proof -
  have I: "on_tree (\<lambda>w. nodes w q = x)" by (simp add: on_tree_def)
  have "keeps (\<lambda>w. nodes w q = x) (command_process r c spec)"
    unfolding command_process_def by (intro keeps_exiting run_action_outside assms)
  then show ?thesis
    by (auto simp: Reexec_def wait_for_def wrapper_process_def intro!: keeps_intro keeps_launch I)
qed


text \<open>A stream that names a file of another volume, directly and through a link.\<close>

definition hostile_sandbox :: sandbox where
  "hostile_sandbox = sample_sandbox\<lparr>registered := commands_of (tardis_program sample_driver) (shortid sample_driver)
     (\<lambda>s. \<lparr>tar_entries = [tar_file ''../a/f'' TypeReg ''evil'',
        \<lparr>header = (plain_header ''out'' TypeSymlink)\<lparr>Linkname := ''/s/volumes/a''\<rparr>, body = [], body_error = None\<rparr>,
        tar_file ''out/f'' TypeReg ''evil''], tar_error = None\<rparr>) identity_ids identity_ids 10\<rparr>"

definition hostile_unpacker :: ns_unpacker where
  "hostile_unpacker = \<lparr>shouldCloneUserNsOnUnpack = False, un_store = ''/s'', un_reexec = Reexec hostile_sandbox,
     un_mappings = \<lparr>UIDMappings = [], GIDMappings = []\<rparr>\<rparr>"


end
