(* ===== verification/Lock_Facts.thy ===== *)
theory Lock_Facts
  imports Image_Facts Confinement
begin

text \<open>
  The locks of a creation: however it goes, it ends with the locks it began with. Every operation
  between taking a lock and giving it back leaves the locks alone, or takes and gives back others.
\<close>

section \<open>Operations that leave the locks alone\<close>

declare keeps_flocks_only_tree [keeps_intro del]

abbreviation locks_are :: "(path \<times> lock_mode) list \<Rightarrow> world \<Rightarrow> bool" where
  "locks_are L \<equiv> \<lambda>w. flocks w = L"

lemma locks_tree_calls [keeps_intro]:
  "keeps (locks_are L) (os_stat p)" "keeps (locks_are L) (os_lstat p)" "keeps (locks_are L) (os_read_dir p)"
  "keeps (locks_are L) (os_read_file p)" "keeps (locks_are L) (os_open p)" "keeps (locks_are L) (os_mkdir p perm)"
  "keeps (locks_are L) (os_symlink t p)" "keeps (locks_are L) (open_create b p perm)"
  "keeps (locks_are L) (write_all p s)" "keeps (locks_are L) (os_remove p)" "keeps (locks_are L) (os_remove_all p)"
  "keeps (locks_are L) (os_rename p q)" "keeps (locks_are L) (change_attr op p f)" "keeps (locks_are L) (os_truncate p n)"
  "keeps (locks_are L) (mknod p mk perm)" "keeps (locks_are L) (open_excl p perm)"
  "keeps (locks_are L) (os_write_file p s perm)" "keeps (locks_are L) (os_create p)" "keeps (locks_are L) (os_chmod p perm)"
  "keeps (locks_are L) (os_chown p uid gid)" "keeps (locks_are L) (os_mkdir_all p perm)"
  by (rule keeps_flocks_only_tree, simp)+

lemma keeps_locks_faulty:
  assumes "\<And>e k. keeps (locks_are L) (f e k)" and "keeps (locks_are L) m"
  shows "keeps (locks_are L) (faulty f m)"
proof (rule keepsI)
  fix w r w'
  assume "flocks w = L" and "faulty f m w = (r, w')"
  from this(2) show "flocks w' = L"
    by (cases rule: faulty_cases)
      (auto dest!: keepsD [OF assms(1), rotated] keepsD [OF assms(2), rotated] simp: \<open>flocks w = L\<close>)
qed

lemma keeps_locks_machine [keeps_intro]:
  "keeps (locks_are L) nonce" "keeps (locks_are L) (emit ev)" "keeps (locks_are L) getuid" "keeps (locks_are L) getgid"
  "keeps (locks_are L) geteuid" "keeps (locks_are L) getpid" "keeps (locks_are L) (lookup_path f)"
  "keeps (locks_are L) (exec_command c args)"
  by (rule keepsI; auto simp: nonce_def emit_def getuid_def getgid_def geteuid_def getpid_def lookup_path_def
      exec_command_def Let_def split: list.splits)+

lemma keeps_locks_calls [keeps_intro]:
  "keeps (locks_are L) (os_chdir p)" "keeps (locks_are L) (unix_mount a p d)" "keeps (locks_are L) (unix_unmount p)"
  "keeps (locks_are L) (c_opendir p)" "keeps (locks_are L) (ioctl_getxattr x)" "keeps (locks_are L) (ioctl_setxattr x i)"
  "keeps (locks_are L) (quotactl_get p i)" "keeps (locks_are L) (quotactl_set p i h)" "keeps (locks_are L) (statfs p)"
  unfolding os_chdir_def unix_mount_def unix_unmount_def c_opendir_def ioctl_getxattr_def ioctl_setxattr_def
    quotactl_get_def quotactl_set_def statfs_def sysfail_def
  by (rule keeps_locks_faulty, simp add: keeps_throw keeps_ret, rule keepsI,
      auto simp: Let_def put_def split: sum.splits option.splits node.splits if_splits)+

lemma keeps_locks_emitter [keeps_intro]: "keeps (locks_are L) (TryEmitDurationFrom name)"
  unfolding TryEmitDurationFrom_def by (rule keeps_locks_machine)

lemma keeps_locks_process_call [keeps_intro]: "keeps (locks_are L) process_call"
  unfolding process_call_def by (intro keeps_locks_faulty keeps_intro)

lemma keeps_locks_ranged [keeps_intro]: "keeps (locks_are L) (ranged xs)"
  by (intro keeps_intro)

lemma keeps_case_list [keeps_intro]:
  "keeps I a \<Longrightarrow> (\<And>x xs. keeps I (f x xs)) \<Longrightarrow> keeps I (case l of [] \<Rightarrow> a | x # xs \<Rightarrow> f x xs)"
  by (cases l) simp_all

section \<open>The components\<close>

lemma keeps_locks_quota [keeps_intro]:
  "keeps (locks_are L) (GetProjectID p)" "keeps (locks_are L) (setProjectID i p)" "keeps (locks_are L) (getStoreDevicePath p)"
  "keeps (locks_are L) (quota_Set i p n)" "keeps (locks_are L) (quota_Get p)"
  unfolding quota_Set_def quota_Get_def GetProjectID_def setProjectID_def getStoreDevicePath_def openDir_def Let_def
  by (auto intro!: keeps_intro)

lemma keeps_locks_untilSucceeds: "keeps (locks_are L) (untilSucceeds_loop n p i)"
  by (induction n arbitrary: i) (auto intro!: keeps_intro)

lemma keeps_locks_tardis [keeps_intro]: "keeps (locks_are L) (tardis_process fuel args)"
proof -
  have "keeps (locks_are L) (LimitCommand fuel p n)" for p n
    unfolding LimitCommand_def Alloc_def untilSucceeds_def Let_def
    by (auto intro!: keeps_intro keeps_locks_untilSucceeds)
  moreover have "keeps (locks_are L) (StatsCommand p)" for p
    unfolding StatsCommand_def tardis_VolumeStats_def listQuota_def readImageInfo_def parse_int_io_def
    by (auto intro!: keeps_intro)
  moreover have "keeps (locks_are L) (HandleOpqWhiteoutsCommand ps)" for ps
    unfolding HandleOpqWhiteoutsCommand_def lsetxattr_def by (auto intro!: keeps_intro)
  ultimately show ?thesis
    unfolding tardis_process_def tardis_main_def by (intro keeps_intro)
qed

lemma keeps_locks_volumes [keeps_intro]:
  "keeps (locks_are L) (VolumePath d i)" "keeps (locks_are L) (CreateVolume d p i)"
  "keeps (locks_are L) (DestroyVolume d i)" "keeps (locks_are L) (MoveVolume d a b)"
  "keeps (locks_are L) (WriteVolumeMeta d i v)" "keeps (locks_are L) (VolumeSize d i)"
  unfolding VolumePath_def CreateVolume_def generateShortishID_def DestroyVolume_def removeVolumeLink_def
    MoveVolume_def WriteVolumeMeta_def VolumeSize_def Let_def
  by (auto intro!: keeps_intro split: sum.splits option.splits)

lemma keeps_locks_tardis_calls:
  assumes "tardis_program d = tardis_process fuel"
  shows "keeps (locks_are L) (runTardis d args)" "keeps (locks_are L) (HandleOpaqueWhiteouts d i ws)"
    "keeps (locks_are L) (CreateImage d spec)"
proof -
  show t: "keeps (locks_are L) (runTardis d args)" for args
    unfolding runTardis_def tardisInPath_def hasSUID_def assms
    by (auto intro!: keeps_intro split: exec_result.splits)
  show "keeps (locks_are L) (HandleOpaqueWhiteouts d i ws)"
    unfolding HandleOpaqueWhiteouts_def Let_def by (auto intro!: keeps_intro t)
  have "keeps (locks_are L) (getLowerDirs_loop d vs ps acc)" for vs ps acc
    by (induction vs arbitrary: ps acc) (auto intro!: keeps_intro)
  then show "keeps (locks_are L) (CreateImage d spec)"
    unfolding CreateImage_def getLowerDirs_def applyDiskLimit_def createImageDirectories_def mountImage_def Let_def
    by (auto intro!: keeps_intro t split: option.splits)
qed

lemma keeps_locks_unmounters [keeps_intro]:
  "keeps (locks_are L) (rootful_unmount p)" "keeps (locks_are L) (rootless_unmount p)"
proof -
  have "keeps (locks_are L) (rootful_loop n err p)" for n err
    by (induction n arbitrary: err) (auto intro!: keeps_intro split: option.splits)
  then show "keeps (locks_are L) (rootful_unmount p)" by (simp add: rootful_unmount_def)
  show "keeps (locks_are L) (rootless_unmount p)"
    unfolding rootless_unmount_def isMountPoint_def by (auto intro!: keeps_intro split: exec_result.splits)
qed

lemma keeps_locks_DestroyImage:
  "(\<And>q. keeps (locks_are L) (unmounter d q)) \<Longrightarrow> keeps (locks_are L) (DestroyImage d p)"
  unfolding DestroyImage_def ensureImageDestroyed_def Let_def by (auto intro!: keeps_intro)

section \<open>The sandbox\<close>

lemma keeps_locks_in_root: "keeps (locks_are L) m \<Longrightarrow> keeps (locks_are L) (in_root r m)"
proof (rule keepsI)
  fix w x w'
  assume m: "keeps (locks_are L) m" and L: "flocks w = L" and run: "in_root r m w = (x, w')"
  obtain y v where v: "m (enter_root r w) = (y, v)" by (cases "m (enter_root r w)")
  have "flocks v = L" by (rule keepsD [OF m _ v]) (simp add: enter_root_def L)
  then show "flocks w' = L" using run v by (auto simp: in_root_def leave_root_def)
qed

lemma keeps_locks_run_action:
  assumes "\<And>stdin extra args. keeps (locks_are L) (act stdin extra args)"
  shows "keeps (locks_are L) (run_action act c spec)"
proof -
  have "keeps (locks_are L) (open_extra f)" for f
    unfolding open_extra_def by (intro keeps_intro) (auto intro: keepsI)
  then have "keeps (locks_are L) (open_extras fs)" for fs
    by (induction fs) (auto intro!: keeps_intro)
  moreover have "keeps (locks_are L) (chroot_to p)" for p
    unfolding chroot_to_def
    by (intro keeps_intro keeps_locks_faulty) (auto simp: Let_def sysfail_def keeps_throw intro!: keepsI split: if_splits)
  moreover have "keeps (locks_are L) (\<lambda>w. case act x y z w of (r, v) \<Rightarrow> (r, v\<lparr>workdir := workdir w\<rparr>))" for x y z
  proof (rule keepsI)
    fix w r w'
    assume L: "flocks w = L" and run: "(case act x y z w of (r, v) \<Rightarrow> (r, v\<lparr>workdir := workdir w\<rparr>)) = (r, w')"
    obtain s v where v: "act x y z w = (s, v)" by (cases "act x y z w")
    from keepsD [OF assms L v] run v show "flocks w' = L" by auto
  qed
  ultimately show ?thesis
    unfolding run_action_def Let_def by (auto intro!: keeps_intro keeps_locks_in_root assms)
qed

lemma keeps_locks_commands:
  assumes "commands_of (tardis_process fuel) sid tars uids gids n c = Some act"
  shows "keeps (locks_are L) (act stdin extra args)"
proof -
  have dv: "keeps (locks_are L) (destroy_volume_command t sid as)" for t as
    unfolding destroy_volume_command_def by (auto intro!: keeps_intro split: sum.splits)
  have "unmounter d = rootless_unmount" if "sandboxed_driver t sid js = Inr d" for t js d
    using that by (auto simp: sandboxed_driver_def specToDriver_def split: option.splits sum.splits if_splits)
  then have di: "keeps (locks_are L) (destroy_image_command t sid as)" for t as
    unfolding destroy_image_command_def
    by (auto intro!: keeps_intro keeps_locks_DestroyImage split: sum.splits)
  have "keeps (locks_are L) (ensureBaseDirectoryExists k a b c)" for k a b c
    by (induction k arbitrary: a) (auto intro!: keeps_intro simp: Let_def split: option.splits)
  then have eb: "keeps (locks_are L) (ensure_base_command n x y z)" for x y z
    unfolding ensure_base_command_def by (auto intro!: keeps_intro split: option.splits)
  have "keeps (locks_are L) (on_inodes u g dev m)" for u g dev and m :: "nat option \<Rightarrow> 'z usys"
    unfolding on_inodes_def by (rule keepsI) (auto split: prod.splits)
  then have "keeps (locks_are L) (unpack_command tars uids gids x y z)" for x y z
    unfolding unpack_command_def Let_def by (auto intro!: keeps_intro split: option.splits)
  with dv di eb show ?thesis
    using assms by (auto simp: commands_of_def intro!: keeps_intro split: if_splits)
qed

lemma keeps_locks_Reexec:
  assumes "\<And>c act stdin extra args. registered r c = Some act \<Longrightarrow> keeps (locks_are L) (act stdin extra args)"
  shows "keeps (locks_are L) (Reexec r c spec)"
proof -
  have "keeps (locks_are L) (the_action r c stdin extra args)" for stdin extra args
    using assms by (auto simp: the_action_def intro: keeps_throw split: option.splits)
  then have "keeps (locks_are L) (command_process r c spec)"
    unfolding command_process_def by (intro keeps_exiting keeps_locks_run_action)
  moreover have "keeps (locks_are L) (launch r b)" for b
    unfolding launch_def setIDMappings_def MapUIDs_def MapGIDs_def id_execute_def exec_output_def
    by (auto intro!: keeps_intro split: exec_result.splits)
  ultimately show ?thesis
    unfolding Reexec_def wait_for_def wrapper_process_def by (auto intro!: keeps_intro)
qed

lemma keeps_locks_reexecer [keeps_intro]: "keeps (locks_are L) (NewReexecer env cfg m clone c spec)"
  unfolding NewReexecer_def by (rule keeps_locks_Reexec) (auto intro: keeps_locks_commands)

section \<open>Pulling\<close>

definition fetcher_keeps_locks :: "fetcher \<Rightarrow> bool" where
  "fetcher_keeps_locks f \<longleftrightarrow> (\<forall>L. keeps (locks_are L) (f_base_image_info f) \<and>
     (\<forall>l. keeps (locks_are L) (f_stream_blob f l)) \<and>
     (\<forall>l w st n w'. f_stream_blob f l w = (Inr (st, n), w') \<longrightarrow> keeps (locks_are L) (stream_close st)))"

lemma keeps_locks_timed: "keeps (locks_are L) m \<Longrightarrow> keeps (locks_are L) (timed name m)"
  unfolding timed_def by (intro keeps_intro)

lemma locked:
  assumes "\<And>f L. keeps (locks_are L) (m f)"
    and "\<And>f r L. hoare (\<lambda>w. flocks w = (f, lockType l) # L) (after f r) (\<lambda>_ w. flocks w = L) (\<lambda>_ w. flocks w = L)"
    and "\<And>e L. keeps (locks_are L) (h e)"
  shows "keeps (locks_are L) (checked (Lock l k) h (\<lambda>f. deferred (m f) (after f)))"
  by (rule locks.balanced) (use assms in auto)

lemma unlocking:
  assumes "\<And>L. keeps (locks_are L) m"
  shows "hoare (\<lambda>w. flocks w = (f, lockType l) # L) (logged (Unlock l f) m) (\<lambda>_ w. flocks w = L) (\<lambda>_ w. flocks w = L)"
  unfolding logged_def
  by (rule hoare_checked [OF locks.free_hoare]) (use assms in \<open>simp_all add: keeps_def\<close>)

text \<open>The operations a puller of the commands is made of.\<close>

locale quiet_puller =
  fixes p :: puller
  assumes info: "keeps (locks_are L) (f_base_image_info (p_fetcher p))"
    and stream: "keeps (locks_are L) (f_stream_blob (p_fetcher p) l)"
    and close: "f_stream_blob (p_fetcher p) l w = (Inr (st, n), w') \<Longrightarrow> keeps (locks_are L) (stream_close st)"
    and unpack: "keeps (locks_are L) (p_unpack p spec)"
    and base_dir: "keeps (locks_are L) (p_base_dir p spec parent)"
    and volumes: "keeps (locks_are L) (vd_path (p_driver p) i)" "keeps (locks_are L) (vd_create (p_driver p) a i)"
      "keeps (locks_are L) (vd_destroy (p_driver p) i)" "keeps (locks_are L) (vd_move (p_driver p) a b)"
      "keeps (locks_are L) (vd_write_meta (p_driver p) i v)" "keeps (locks_are L) (vd_opaque (p_driver p) i ws)"
begin

lemma unpackLayer_quiet: "keeps (locks_are L) (unpackLayer p l parent spec s)"
  unfolding unpackLayer_def createTemporaryVolumeDirectory_def unpackLayerToTemporaryDirectory_def finalizeVolume_def Let_def
  by (auto intro!: keeps_intro keeps_locks_timed unpack base_dir volumes)

lemma downloadLayer_quiet: "keeps (locks_are L) (downloadLayer p l parent spec)"
  unfolding downloadLayer_def
proof (rule keeps_locks_timed, rule keepsI)
  fix w r w'
  let ?body = "\<lambda>(stream, n). deferred (unpackLayer p l parent spec (stream_bytes stream))
      (\<lambda>r. logged (stream_close stream) (give_back r))"
  assume L: "flocks w = L" and run: "checked (f_stream_blob (p_fetcher p) l) (wrapping (''streaming blob `'' @ BlobID l @ ''`'')) ?body w = (r, w')"
  obtain x v where x: "f_stream_blob (p_fetcher p) l w = (x, v)" by (cases "f_stream_blob (p_fetcher p) l w")
  have v: "flocks v = L" by (rule keepsD [OF stream L x])
  show "flocks w' = L"
  proof (cases x)
    case (Inl e)
    then show ?thesis using run x v by (cases "is_panic e") auto
  next
    case (Inr y)
    obtain st n where y: "y = (st, n)" by (cases y)
    have "keeps (locks_are L) (stream_close st)"
      by (rule close [of l w st n v]) (use x Inr y in simp)
    then have body: "keeps (locks_are L) (?body y)"
      unfolding y prod.case by (intro keeps_intro unpackLayer_quiet)
    have "?body y v = (r, w')" using run x Inr by simp
    from keepsD [OF body v this] show ?thesis .
  qed
qed

lemma buildLayer_quiet: "keeps (locks_are L) (buildLayer n p ls spec)"
proof (induction n arbitrary: L)
  case (Suc n)
  have there: "keeps (locks_are L) (volumeExists p i)" for i L
    unfolding volumeExists_def by (intro keeps_intro volumes)
  show ?case
    by (auto simp: Let_def intro!: keeps_intro there locked unlocking Suc.IH downloadLayer_quiet)
qed (simp add: keeps_ret)

lemma Pull_quiet: "keeps (locks_are L) (Pull p info spec)"
  unfolding Pull_def quotaExceeded_def Let_def by (intro keeps_intro buildLayer_quiet)

end

lemma commands_puller_quiet:
  assumes "fetcher_keeps_locks fetch"
  shows "quiet_puller (NewBaseImagePuller env cfg m clone fetch)"
proof
  let ?p = "NewBaseImagePuller env cfg m clone fetch" and ?d = "rootful_driver env cfg"
  note f = assms [unfolded fetcher_keeps_locks_def]
  have tardis: "tardis_program ?d = tardis_process (project_bound env)"
    by (simp add: rootful_driver_def NewDriver_def)
  note [simp] = NewBaseImagePuller_def Let_def
  show "keeps (locks_are L) (f_base_image_info (p_fetcher ?p))" for L using f by simp
  show "keeps (locks_are L) (f_stream_blob (p_fetcher ?p) l)" for l L using f by simp
  show "f_stream_blob (p_fetcher ?p) l w = (Inr (st, n), w') \<Longrightarrow> keeps (locks_are L) (stream_close st)" for l w st n w' L
    using f by (simp; blast)
  show "keeps (locks_are L) (p_unpack ?p spec)" for spec L
    by (auto simp: ns_Unpack_def intro!: keeps_intro split: option.splits)
  show "keeps (locks_are L) (p_base_dir ?p spec parent)" for spec parent L
    by (auto simp: base_dir_Handle_def intro!: keeps_intro)
  show "keeps (locks_are L) (vd_destroy (p_driver ?p) i)" for i L
    by (auto simp: ns_volumes_def ns_DestroyVolume_def intro!: keeps_intro)
  show "keeps (locks_are L) (vd_path (p_driver ?p) i)" "keeps (locks_are L) (vd_create (p_driver ?p) a i)"
    "keeps (locks_are L) (vd_move (p_driver ?p) a i)" "keeps (locks_are L) (vd_write_meta (p_driver ?p) i v)"
    "keeps (locks_are L) (vd_opaque (p_driver ?p) i ws)" for i a v ws L
    by (auto simp: ns_volumes_def overlay_volumes_def intro!: keeps_intro keeps_locks_tardis_calls tardis)
qed

lemma tar_fetcher_keeps_locks: "fetcher_keeps_locks (NewTarFetcher env u)"
proof -
  have "keeps (locks_are L) (TarFetcher_StreamBlob q l)" for q l L
    unfolding TarFetcher_StreamBlob_def validateBaseImage_def by (auto intro!: keeps_intro)
  moreover have "keeps (locks_are L) (TarFetcher_BaseImageInfo h q)" for h q L
    unfolding TarFetcher_BaseImageInfo_def by (auto intro!: keeps_intro)
  moreover have "stream_close st = ret ()" if "TarFetcher_StreamBlob q l w = (Inr (st, n), w')" for q l w st n w'
    using that unfolding TarFetcher_StreamBlob_def by (auto elim!: checked_wrap_InrE)
  ultimately show ?thesis
    by (auto simp: fetcher_keeps_locks_def NewTarFetcher_def Let_def keeps_ret)
qed

interpretation tar_puller: quiet_puller "NewBaseImagePuller env cfg m clone (NewTarFetcher env u)" for env cfg m clone u
  by (rule commands_puller_quiet [OF tar_fetcher_keeps_locks])

section \<open>Creating\<close>

lemma keeps_locks_images:
  assumes "tardis_program d = tardis_process fuel" and "unmounter d = rootful_unmount"
  shows "keeps (locks_are L) (image_Create (overlay_images d) store spec)"
    "keeps (locks_are L) (image_Destroy (overlay_images d) store i)" "keeps (locks_are L) (image_Exists store i)"
proof -
  show ex: "keeps (locks_are L) (image_Exists store i)"
    unfolding image_Exists_def by (intro keeps_intro)
  have di: "keeps (locks_are L) (DestroyImage d p)" for p
    by (rule keeps_locks_DestroyImage) (simp add: assms keeps_intro)
  show "keeps (locks_are L) (image_Destroy (overlay_images d) store i)"
    unfolding image_Destroy_def by (auto simp: overlay_images_def intro!: keeps_intro ex di)
  show "keeps (locks_are L) (image_Create (overlay_images d) store spec)"
    unfolding image_Create_def create_failed_cleaning_up_def setOwnership_def Let_def
    by (auto simp: overlay_images_def intro!: keeps_intro di keeps_locks_tardis_calls assms)
qed

text \<open>C5: a creation ends with exactly the locks it began with, however it ends: refused, failed at
  any layer of the image, rolled back or complete, and whichever calls fail on the way.\<close>

theorem Create_releases_locks:
  assumes "fetcher_keeps_locks fetch"
  shows "flocks (snd (Create (NewCreator env cfg m clone fetch) spec w)) = flocks w"
proof -
  let ?c = "NewCreator env cfg m clone fetch" and ?d = "rootful_driver env cfg"
  have quiet: "quiet_puller (NewBaseImagePuller env cfg m clone fetch)"
    by (rule commands_puller_quiet [OF assms])
  have p: "c_puller ?c = layer_puller (NewBaseImagePuller env cfg m clone fetch)"
    and i: "c_images ?c = NewImageManager (overlay_images ?d) (StorePath cfg)"
    and k: "c_locksmith ?c = WithMetrics (NewSharedFileSystem (filepath_join [StorePath cfg, LocksDirName]))"
    and t: "c_dependencies ?c = store_dependencies (StorePath cfg)" and a: "c_cleaner ?c = async_Clean cfg"
    by (simp_all add: NewCreator_def Let_def)
  have pull: "keeps (locks_are L) (bp_pull (c_puller ?c) info s)" "keeps (locks_are L) (bp_info (c_puller ?c))" for info s L
    using quiet_puller.Pull_quiet [OF quiet] quiet_puller.info [OF quiet]
    by (simp_all add: p layer_puller_def FetchBaseImageInfo_def)
  have d: "tardis_program ?d = tardis_process (project_bound env)" "unmounter ?d = rootful_unmount"
    by (simp_all add: rootful_driver_def NewDriver_def)
  have images: "keeps (locks_are L) (im_create (c_images ?c) s)" "keeps (locks_are L) (im_destroy (c_images ?c) j)"
    "keeps (locks_are L) (im_exists (c_images ?c) j)" for s j L
    using keeps_locks_images [OF d] by (simp_all add: i NewImageManager_def)
  have register: "keeps (locks_are L) (dm_register (c_dependencies ?c) r ids)" for r ids L
    by (simp add: t store_dependencies_def Register_def) (intro keeps_intro)
  have clean: "keeps (locks_are L) (c_cleaner ?c n)" for n L
  proof (rule keepsI)
    fix w r w'
    assume L: "flocks w = L" and "c_cleaner ?c n w = (r, w')"
    from this(2) have "faulty (\<lambda>e k. throw (SysErr e))
        (checked (emit (Exec (argv0 w) (clean_args cfg n))) throw (\<lambda>_. ret True)) w = (r, w')"
      by (simp add: a async_Clean_def)
    moreover have "keeps (locks_are L) (faulty (\<lambda>e k. throw (SysErr e))
        (checked (emit (Exec (argv0 w) (clean_args cfg n))) throw (\<lambda>_. ret True)))"
      by (intro keeps_locks_faulty keeps_intro)
    ultimately show "flocks w' = L" using L unfolding keeps_def hoare_def by (auto split: sum.splits)
  qed
  have body: "keeps (locks_are L) (create_locked ?c spec u g info s)" for u g info s L
    unfolding create_locked_def by (intro keeps_intro pull images register)
  have after: "hoare (\<lambda>w. flocks w = (f, lockType (c_locksmith ?c)) # L) (after_create ?c spec f r)
    (\<lambda>_ w. flocks w = L) (\<lambda>_ w. flocks w = L)" for f r L
    unfolding after_create_def k by (rule unlocking) (intro keeps_intro clean)
  have "keeps (locks_are (flocks w)) (Create ?c spec)"
    unfolding Create_def Let_def k parseOwner_def
    by (auto intro!: keeps_locks_timed keeps_intro images pull locked body after [unfolded k])
  from keeps_snd [OF this] show ?thesis by simp
qed

definition busy_store :: world where
  "busy_store = sample_store\<lparr>flocks := [([''s'', ''locks'', ''abc''], LOCK_EX)]\<rparr>"

theorem Create_releases_locks_witness:
  "flocks (snd (Create sample_creator (sample_create ''new'') busy_store)) = [([''s'', ''locks'', ''abc''], LOCK_EX)]"
  unfolding sample_creator_def
  by (subst Create_releases_locks [OF tar_fetcher_keeps_locks]) (simp add: busy_store_def)

end
