(* ===== verification/Create_Facts.thy ===== *)
theory Create_Facts
  imports Lock_Facts
begin

text \<open>
  What a creation that returns leaves: the directory of the image, the volumes of all the layers of
  the base image, and the record that the image depends on them, which is what the garbage collector
  goes by.
\<close>

section \<open>Operations that remove nothing\<close>

definition there :: "path set \<Rightarrow> world \<Rightarrow> bool" where
  "there P w \<longleftrightarrow> (\<forall>q \<in> P. nodes w q \<noteq> None)"

lemma there_on_tree [simp, keeps_intro]: "on_tree (there P)"
  by (auto simp: on_tree_def there_def)

lemma there_upd [simp]: "there P (w\<lparr>faults := fs\<rparr>) = there P w"
  by (simp add: there_def)

lemma there_calls [keeps_intro]:
  "keeps (there P) (os_mkdir p perm)" "keeps (there P) (change_attr op p f)" "keeps (there P) (mknod p mk perm)"
  "keeps (there P) (open_create b p perm)" "keeps (there P) (write_all p s)"
  by (rule keepsI, drule sys_cases, elim disjE conjE exE; force simp: there_def append_to_def split: option.splits node.splits)+

lemma there_composed [keeps_intro]:
  "keeps (there P) (os_chown p uid gid)" "keeps (there P) (os_chmod p perm)" "keeps (there P) (os_write_file p s perm)"
  unfolding os_chown_def os_chmod_def os_write_file_def by (intro keeps_intro)+

lemma there_faulty:
  assumes "\<And>e k. keeps (there P) (f e k)" and "keeps (there P) m"
  shows "keeps (there P) (faulty f m)"
proof (rule keepsI)
  fix w r w'
  assume "there P w" and "faulty f m w = (r, w')"
  from this(2) show "there P w'"
  proof (cases rule: faulty_cases)
    qed (use \<open>there P w\<close> in \<open>auto dest!: keepsD [OF assms(1), rotated] keepsD [OF assms(2), rotated]\<close>)
qed

lemma there_tardis_calls [keeps_intro]:
  "keeps (there P) (c_opendir p)" "keeps (there P) (ioctl_getxattr x)" "keeps (there P) (ioctl_setxattr x i)"
  "keeps (there P) (quotactl_get p i)" "keeps (there P) (quotactl_set p i h)" "keeps (there P) (lsetxattr p n v)"
  "keeps (there P) (lookup_path f)" "keeps (there P) geteuid"
proof -
  show "keeps (there P) (c_opendir p)" "keeps (there P) (ioctl_getxattr x)" "keeps (there P) (ioctl_setxattr x i)"
    "keeps (there P) (quotactl_get p i)" "keeps (there P) (quotactl_set p i h)"
    unfolding c_opendir_def ioctl_getxattr_def ioctl_setxattr_def quotactl_get_def quotactl_set_def sysfail_def
    by (rule there_faulty, (rule keeps_throw | rule keeps_ret), rule keepsI,
        auto simp: there_def Let_def split: sum.splits option.splits node.splits if_splits)+
  show "keeps (there P) (lsetxattr p n v)" unfolding lsetxattr_def by (intro keeps_intro)
  show "keeps (there P) (lookup_path f)" "keeps (there P) geteuid"
    by (rule keepsI; auto simp: there_def lookup_path_def geteuid_def)+
qed

lemma there_tardis: "keeps (there P) (tardis_process fuel args)"
proof -
  have quota: "keeps (there P) (GetProjectID p)" "keeps (there P) (setProjectID i p)" "keeps (there P) (getStoreDevicePath p)"
    for p i
    unfolding GetProjectID_def setProjectID_def getStoreDevicePath_def openDir_def Let_def by (auto intro!: keeps_intro)
  have alloc: "keeps (there P) (untilSucceeds_loop n p i)" for n p i
    by (induction n arbitrary: i) (auto intro!: keeps_intro)
  have "keeps (there P) (LimitCommand fuel p n)" for p n
    unfolding LimitCommand_def Alloc_def untilSucceeds_def quota_Set_def Let_def
    by (auto intro!: keeps_intro quota alloc)
  moreover have "keeps (there P) (StatsCommand p)" for p
    unfolding StatsCommand_def tardis_VolumeStats_def listQuota_def readImageInfo_def parse_int_io_def quota_Get_def
    by (auto intro!: keeps_intro quota)
  moreover have "keeps (there P) (HandleOpqWhiteoutsCommand ps)" for ps
    unfolding HandleOpqWhiteoutsCommand_def by (auto intro!: keeps_intro)
  ultimately show ?thesis
    unfolding tardis_process_def tardis_main_def by (intro keeps_intro)
qed

section \<open>Making an image\<close>

lemma there_limit:
  assumes "tardis_program d = tardis_process fuel"
  shows "keeps (there P) (applyDiskLimit d spec n)"
  unfolding applyDiskLimit_def runTardis_def tardisInPath_def hasSUID_def assms
  by (auto intro!: keeps_intro there_tardis split: option.splits exec_result.splits)

lemma hoare_if_missing:
  assumes "keeps P m" and "hoare P k Q (\<lambda>_ _. True)" and "\<And>e. hoare P (h e) Q (\<lambda>_ _. True)"
  shows "hoare P (if_missing m h k) Q (\<lambda>_ _. True)"
  unfolding if_missing_def
  by (rule hoare_checked [where R = "\<lambda>_. P" and F = "\<lambda>_. P"]) (use assms in \<open>auto simp: keeps_def\<close>)

lemma hoare_kept: "keeps P m \<Longrightarrow> hoare P m (\<lambda>_. P) (\<lambda>_ _. True)"
  unfolding keeps_def by (erule hoare_weaken) auto

text \<open>The size and the link of every volume of the image were read.\<close>

definition volume_files :: "driver \<Rightarrow> string set \<Rightarrow> path set" where
  "volume_files d vs = (\<Union>v \<in> vs. {comps (volumeMetaFilePath d v), comps (link_path d v)})"

lemma there_read:
  assumes "is_rooted p"
  shows "hoare (there P) (os_read_file p) (\<lambda>_. there (insert (comps p) P)) (\<lambda>_ _. True)"
    and "hoare (there P) (os_open p) (\<lambda>_. there (insert (comps p) P)) (\<lambda>_ _. True)"
proof -
  have "nodes w q \<noteq> None" if "stat_node w q = Inr n" for w q n
    using that by (metis stat_node_None Inl_Inr_False)
  with assms show "hoare (there P) (os_read_file p) (\<lambda>_. there (insert (comps p) P)) (\<lambda>_ _. True)"
    "hoare (there P) (os_open p) (\<lambda>_. there (insert (comps p) P)) (\<lambda>_ _. True)"
    by (auto simp: hoare_def there_def at_path_def split: prod.splits sum.splits dest!: sys_cases)
qed

lemma lower_dirs_there:
  assumes "abs_path (drv_store d)" and "\<forall>v \<in> set vs. plain_name v"
  shows "hoare (there P) (getLowerDirs_loop d vs ps n) (\<lambda>_. there (P \<union> volume_files d (set vs))) (\<lambda>_ _. True)"
  using assms(2)
proof (induction vs arbitrary: P ps n)
  case Nil
  then show ?case by (simp add: volume_files_def hoare_def)
next
  case (Cons v vs)
  have v: "is_rooted (volumeMetaFilePath d v)" "is_rooted (link_path d v)"
    using meta_path_facts(2) [OF assms(1)] link_path_facts(2) [OF assms(1)] Cons.prems by (auto intro: plain_safe)
  let ?m = "comps (volumeMetaFilePath d v)" and ?l = "comps (link_path d v)"
  have size: "hoare (there P) (VolumeSize d v) (\<lambda>_. there (insert ?m P)) (\<lambda>_ _. True)"
    unfolding VolumeSize_def
  proof (rule hoare_checked [OF there_read(2) [OF v(1)]])
    show "hoare (there (insert ?m P)) (checked (os_read_file (volumeMetaFilePath d v)) throw
        (\<lambda>data. case Option.bind (json_decode data) meta_of_json of None \<Rightarrow> throw (Msg ''invalid JSON'')
          | Some metadata \<Rightarrow> ret (meta_size metadata))) (\<lambda>_. there (insert ?m P)) (\<lambda>_ _. True)" for x
      by (rule hoare_kept) (auto intro!: keeps_intro split: option.splits)
  qed simp_all
  have link: "hoare (there (insert ?m P)) (checked (os_read_file (link_path d v))
      (wrapping (''reading link id for '' @ volume_path d v)) (\<lambda>shortID.
      getLowerDirs_loop d vs (paths @ [filepath_join [LinksDirName, shortID]]) k))
      (\<lambda>_. there (P \<union> volume_files d (set (v # vs)))) (\<lambda>_ _. True)" for paths k
  proof (rule hoare_checked [OF there_read(1) [OF v(2)]])
    show "hoare (there (insert ?l (insert ?m P))) (getLowerDirs_loop d vs (paths @ [filepath_join [LinksDirName, x]]) k)
      (\<lambda>_. there (P \<union> volume_files d (set (v # vs)))) (\<lambda>_ _. True)" for x
      by (rule hoare_weaken [OF Cons.IH [of "insert ?l (insert ?m P)"]]) (use Cons.prems in \<open>auto simp: volume_files_def there_def\<close>)
  qed simp_all
  have rest: "hoare (there P) (checked (VolumeSize d v) (wrapping (''calculating base volume size for volume '' @ v)) (\<lambda>volumeSize.
      checked (os_read_file (link_path d v)) (wrapping (''reading link id for '' @ volume_path d v)) (\<lambda>shortID.
      getLowerDirs_loop d vs (ps @ [filepath_join [LinksDirName, shortID]]) (i64 (n + volumeSize)))))
      (\<lambda>_. there (P \<union> volume_files d (set (v # vs)))) (\<lambda>_ _. True)"
    by (rule hoare_checked [OF size link]) simp_all
  show ?case
    unfolding getLowerDirs_loop.simps by (rule hoare_if_missing [OF keeps_on_tree(1) [OF there_on_tree] rest]) simp
qed

text \<open>The image's directory is made first; nothing removes it while the image is being made.\<close>

lemma image_there:
  assumes "tardis_program d = tardis_process fuel" and "abs_path (drv_store d)" and "abs_path store"
    and "plain_name (spec_id spec)" and "\<forall>v \<in> set (BaseVolumeIDs spec). plain_name v"
  shows "hoare (\<lambda>_. True) (image_Create (overlay_images d) store spec)
    (\<lambda>_. there (insert (comps store @ [ImageDirName, spec_id spec]) (volume_files d (set (BaseVolumeIDs spec))))) (\<lambda>_ _. True)"
proof -
  let ?p = "imagePath store (spec_id spec)" and ?q = "comps store @ [ImageDirName, spec_id spec]"
  let ?V = "volume_files d (set (BaseVolumeIDs spec))"
  note p = imagePath_comps [OF assms(3,4)]
  have failed: "hoare (\<lambda>_. True) (create_failed_cleaning_up drv p e) Q (\<lambda>_ _. True)"
    for drv p e and Q :: "'z \<Rightarrow> world \<Rightarrow> bool"
    unfolding create_failed_cleaning_up_def logged_def
    by (intro hoare_checked [where R = "\<lambda>_ _. True" and F = "\<lambda>_ _. True"]) (simp_all add: hoare_def split: prod.splits sum.splits)
  have made: "hoare (\<lambda>_. True) (os_mkdir ?p perm_0700) (\<lambda>_. there {?q}) (\<lambda>_ _. True)"
    using p by (auto simp: hoare_def there_def at_path_def split: prod.splits sum.splits dest!: os_mkdir_cases)
  have lower: "hoare (there {?q}) (getLowerDirs d (BaseVolumeIDs spec)) (\<lambda>_. there (insert ?q ?V)) (\<lambda>_ _. True)"
    unfolding getLowerDirs_def
    using lower_dirs_there [OF assms(2), of "rev (BaseVolumeIDs spec)" "{?q}"] assms(5) by simp
  have create: "hoare (there {?q}) (CreateImage d i) (\<lambda>_. there (insert ?q ?V)) (\<lambda>_ _. True)"
    if "img_volumes i = BaseVolumeIDs spec" for i
    unfolding CreateImage_def that
  proof (rule hoare_if_missing [OF keeps_on_tree(1) [OF there_on_tree]], rule hoare_checked [OF lower], rule hoare_kept)
  qed (auto simp: createImageDirectories_def mountImage_def Let_def intro!: keeps_intro there_limit [OF assms(1)])
  have own: "keeps (there P) (setOwnership spec ps)" for P ps
    unfolding setOwnership_def by (intro keeps_intro)
  show ?thesis
    unfolding image_Create_def Let_def overlay_images_def image_driver.select_convs
  proof (rule hoare_checked [OF made], rule hoare_checked [OF create])
    show "hoare (there (insert ?q ?V)) (checked (setOwnership spec [?p, filepath_join [?p, ''rootfs'']]) throw (\<lambda>_.
        ret (imageInfo (filepath_join [?p, ''rootfs'']) ?p (spec_base_image spec) x (spec_mount spec))))
        (\<lambda>_. there (insert ?q ?V)) (\<lambda>_ _. True)" for x
      by (rule hoare_kept) (intro keeps_intro own)
  qed (use failed in auto)
qed

section \<open>A creation that returns\<close>

lemma hoare_any: "hoare (\<lambda>_. A) m (\<lambda>_ _. A) (\<lambda>_ _. True)"
  by (simp add: hoare_def split: prod.splits sum.splits)

lemma hoare_after:
  assumes "hoare P m (\<lambda>_. I) (\<lambda>_ _. True)" and "\<And>x. hoare I (d (Inr x)) (\<lambda>_. I) (\<lambda>_ _. True)"
    and "\<And>e. hoare (\<lambda>_. True) (d (Inl e)) (\<lambda>_ _. False) (\<lambda>_ _. True)"
  shows "hoare P (deferred m d) (\<lambda>_. I) (\<lambda>_ _. True)"
proof (rule hoare_deferred [where R = "\<lambda>r w. case r of Inr _ \<Rightarrow> I w | Inl _ \<Rightarrow> True"])
  show "hoare (\<lambda>w. case r of Inr _ \<Rightarrow> I w | Inl _ \<Rightarrow> True) (d r) (\<lambda>_. I) (\<lambda>_ _. True)" for r
  proof (cases r)
    case (Inl e)
    show ?thesis unfolding Inl by (rule hoare_weaken [OF assms(3)]) auto
  qed (use assms(2) in simp)
qed (use assms(1) in simp)

lemma hoare_ignored: "hoare (\<lambda>_. True) m Q (\<lambda>_ _. True) \<Longrightarrow> hoare (\<lambda>_. True) (checked a (\<lambda>_. m) (\<lambda>_. m)) Q (\<lambda>_ _. True)"
  by (rule hoare_checked [OF hoare_any]) auto

lemma hoare_give_back: "hoare (\<lambda>_. True) (give_back (Inl e)) (\<lambda>_ _. False) (\<lambda>_ _. True)"
  by (simp add: hoare_def)

lemma hoare_timed:
  assumes "on_tree I" and "hoare P m (\<lambda>_. I) (\<lambda>_ _. True)"
  shows "hoare P (timed name m) (\<lambda>_. I) (\<lambda>_ _. True)"
  unfolding timed_def
proof (rule hoare_after [OF assms(2)])
  show "hoare I (checked (TryEmitDurationFrom name) throw (\<lambda>_. give_back (Inr x))) (\<lambda>_. I) (\<lambda>_ _. True)" for x
    by (rule hoare_kept) (intro keeps_intro assms)
  show "hoare (\<lambda>_. True) (checked (TryEmitDurationFrom name) throw (\<lambda>_. give_back (Inl e))) (\<lambda>_ _. False) (\<lambda>_ _. True)" for e
    by (rule hoare_checked [OF hoare_any hoare_give_back]) simp_all
qed

definition image_registered :: "driver \<Rightarrow> string \<Rightarrow> string list \<Rightarrow> world \<Rightarrow> bool" where
  "image_registered d i ids w \<longleftrightarrow>
     there (insert (comps (drv_store d) @ [ImageDirName, i]) (volume_files d (set ids))) w \<and>
     recorded (dependencies_dir (drv_store d)) w (image_ref i) = Some ids"

lemma on_tree_registered: "on_tree (image_registered d i ids)"
  by (auto simp: on_tree_def image_registered_def there_def recorded_def)

lemma on_tree_ex: "(\<And>x. on_tree (I x)) \<Longrightarrow> on_tree (\<lambda>w. \<exists>x. A x \<and> I x w)"
  unfolding on_tree_def by blast

lemma create_registers:
  assumes "abs_path (StorePath cfg)" and "plain_name (create_id spec)" and "\<forall>v \<in> set (chainIDs (LayerInfos info)). plain_name v"
  shows "hoare (\<lambda>_. True) (create_locked (NewCreator env cfg m clone fetch) spec u g info s)
    (\<lambda>_. image_registered (rootful_driver env cfg) (create_id spec) (chainIDs (LayerInfos info))) (\<lambda>_ _. True)"
proof -
  let ?c = "NewCreator env cfg m clone fetch" and ?d = "rootful_driver env cfg" and ?ids = "chainIDs (LayerInfos info)"
  have d: "tardis_program ?d = tardis_process (project_bound env)" "drv_store ?d = StorePath cfg"
    by (simp_all add: rootful_driver_def NewDriver_def)
  let ?P = "insert (comps (StorePath cfg) @ [ImageDirName, create_id spec]) (volume_files ?d (set ?ids))"
  have c: "im_create (c_images ?c) = image_Create (overlay_images ?d) (StorePath cfg)"
    "dm_register (c_dependencies ?c) = Register (dependencies_dir (StorePath cfg))"
    by (simp_all add: NewCreator_def NewImageManager_def store_dependencies_def Let_def)
  have register: "hoare (there ?P) (Register (dependencies_dir (StorePath cfg)) (image_ref (create_id spec)) ?ids)
      (\<lambda>_. image_registered ?d (create_id spec) ?ids) (\<lambda>_ _. True)"
  proof (rule hoareI)
    fix w x w'
    assume P: "there ?P w" and "Register (dependencies_dir (StorePath cfg)) (image_ref (create_id spec)) ?ids w = (Inr x, w')"
    then have run: "Register (dependencies_dir (StorePath cfg)) (image_ref (create_id spec)) ?ids w = (Inr (), w')" by simp
    have "keeps (there ?P) (Register (dependencies_dir (StorePath cfg)) (image_ref (create_id spec)) ?ids)"
      unfolding Register_def by (intro keeps_intro)
    from keepsD [OF this P run] Register_ok(1) [OF dependencies_dir_facts(1) [OF assms(1)] run]
    show "image_registered ?d (create_id spec) ?ids w'" by (simp add: image_registered_def d)
  qed simp
  show ?thesis
    unfolding create_locked_def c
  proof (rule hoare_checked [OF hoare_any], rule hoare_checked, rule image_there [OF d(1)])
    fix x
    show "hoare (there (insert (comps (StorePath cfg) @ [ImageDirName, spec_id \<lparr>spec_id = create_id spec, spec_mount = create_mount spec,
          spec_disk_limit = create_disk_limit spec, spec_exclude = create_exclude spec, BaseVolumeIDs = ?ids,
          spec_base_image = base_config info, spec_owner_uid = u, spec_owner_gid = g\<rparr>]) (volume_files ?d (set (BaseVolumeIDs
          \<lparr>spec_id = create_id spec, spec_mount = create_mount spec,
          spec_disk_limit = create_disk_limit spec, spec_exclude = create_exclude spec, BaseVolumeIDs = ?ids,
          spec_base_image = base_config info, spec_owner_uid = u, spec_owner_gid = g\<rparr>)))))
        (checked (Register (dependencies_dir (StorePath cfg)) (image_ref (create_id spec)) ?ids)
          (\<lambda>e. logged (im_destroy (c_images ?c) (create_id spec)) (throw e)) (\<lambda>_. ret x))
        (\<lambda>_. image_registered ?d (create_id spec) ?ids) (\<lambda>_ _. True)"
      unfolding ImageSpec.select_convs logged_def
      by (rule hoare_checked [OF register]) (auto intro: hoare_ignored)
  qed (use assms d in auto)
qed


definition local_fetch :: fetcher where
  "local_fetch = \<lparr>f_base_image_info = ret \<lparr>LayerInfos = [zero_layer\<lparr>ChainID := ''a''\<rparr>], base_config = \<lparr>diff_ids = [], image_env = []\<rparr>\<rparr>,
     f_stream_blob = (\<lambda>_. throw no_error), f_close = ret ()\<rparr>"

definition local_creator :: creator where
  "local_creator = NewCreator sample_outside (zero_config\<lparr>StorePath := ''/s''\<rparr>) \<lparr>UIDMappings = [], GIDMappings = []\<rparr> False local_fetch"

lemma local_image_made: "isl (fst (Create local_creator (sample_create ''new'') sample_store)) = False"
  unfolding local_creator_def by code_simp


end
