(* ===== verification/Store_Facts.thy ===== *)
theory Store_Facts
  imports Create_Facts
begin

text \<open>
  A store that was initialised: its directories and its namespace file are there, and
  \<open>IsStoreInitialized\<close>, which every other command asks first, says so.
\<close>

lemma is_rooted_join: "is_rooted s \<Longrightarrow> is_rooted (filepath_join (s # fs))"
  by (cases fs; cases s) (auto simp: filepath_join_def filepath_clean_def is_rooted_def Let_def)

lemma there_insert: "there (insert q P) w \<longleftrightarrow> nodes w q \<noteq> None \<and> there P w"
  by (auto simp: there_def)

section \<open>Operations that remove nothing\<close>

lemma there_mkdir_all [keeps_intro]: "keeps (there P) (os_mkdir_all p perm)"
proof -
  have "keeps (there P) (for_each qs (mkdir_missing perm))" for qs
    unfolding mkdir_missing_def by (intro keeps_intro)
  then show ?thesis unfolding os_mkdir_all_def by (auto intro!: keepsI dest: keepsD)
qed

lemma there_changed:
  assumes "is_rooted p"
  shows "hoare (there P) (change_attr op p f) (\<lambda>_. there (insert (comps p) P)) (\<lambda>_ _. True)"
  using assms by (auto simp: hoare_def there_def at_path_def split: prod.splits sum.splits dest!: change_attr_cases)

lemma there_directIO [keeps_intro]:
  assumes "directIO d \<in> {DirectIOEnabler_Configure, DirectIODisabler_Configure, NoopDirectIO_Configure}"
  shows "keeps (there P) (directIO d p)"
proof -
  have "keeps (there P) (setDirectIO dev b)" for dev b
    unfolding setDirectIO_def by (intro keeps_intro there_faulty)
  then have "keeps (there P) (DirectIOEnabler_Configure p)" "keeps (there P) (DirectIODisabler_Configure p)"
    "keeps (there P) (NoopDirectIO_Configure p)"
    unfolding DirectIOEnabler_Configure_def DirectIODisabler_Configure_def NoopDirectIO_Configure_def
      EnableDirectIO_def DisableDirectIO_def FindAssociatedLoopDevice_def exec_output_def
    by (auto intro!: keeps_intro split: exec_result.splits)
  with assms show ?thesis by auto
qed

lemma there_ConfigureStore:
  assumes "directIO d \<in> {DirectIOEnabler_Configure, DirectIODisabler_Configure, NoopDirectIO_Configure}"
  shows "keeps (there P) (ConfigureStore d s b u g)"
  unfolding ConfigureStore_def createWhiteoutDevice_def validateWhiteoutDevice_def createStoreDirectory_def Let_def
  by (auto intro!: keeps_intro there_directIO [OF assms] split: node.splits)

section \<open>The directories\<close>

lemma folder_there:
  assumes "is_rooted (filepath_join [m_store m, f])"
  shows "hoare (there P) (createInternalDirectory m f u g)
    (\<lambda>_. there (insert (comps (filepath_join [m_store m, f])) P)) (\<lambda>_ _. True)"
proof -
  let ?p = "filepath_join [m_store m, f]"
  have dir: "keeps (there P) (isDirectory ?p)"
    unfolding isDirectory_def by (intro keeps_intro)
  have mk: "keeps (there P) (checked (os_mkdir ?p perm_0755)
          (\<lambda>err. observed (os_lstat ?p) (\<lambda>r.
             (case r of
                Inr n \<Rightarrow> if is_dir_node n then ret () else wrapping (''making directory `'' @ ?p @ ''`'') err
              | Inl _ \<Rightarrow> wrapping (''making directory `'' @ ?p @ ''`'') err))) ret)"
    by (auto intro!: keeps_intro split: sum.splits)
  have own: "hoare (there P) (checked (os_chown ?p u g)
      (wrapping (''changing store owner to '' @ itoa u @ '':'' @ itoa g @ '' for path '' @ ?p)) ret)
      (\<lambda>_. there (insert (comps ?p) P)) (\<lambda>_ _. True)"
    unfolding os_chown_def by (rule hoare_checked [OF there_changed [OF assms]]) (simp_all add: hoare_def)
  show ?thesis
    unfolding createInternalDirectory_def Let_def
    by (rule hoare_checked [OF hoare_kept [OF dir]], rule hoare_checked [OF hoare_kept [OF mk] own]) simp_all
qed

lemma folders_there:
  assumes "\<And>f. f \<in> set fs \<Longrightarrow> is_rooted (filepath_join [m_store m, f])"
  shows "hoare (there P) (for_each fs (\<lambda>f. createInternalDirectory m f u g))
    (\<lambda>_. there (P \<union> {comps (filepath_join [m_store m, f]) | f. f \<in> set fs})) (\<lambda>_ _. True)"
  using assms
proof (induction fs arbitrary: P)
  case Nil
  then show ?case by (simp add: hoare_def)
next
  case (Cons f fs)
  have "hoare (there (insert (comps (filepath_join [m_store m, f])) P)) (for_each fs (\<lambda>f. createInternalDirectory m f u g))
      (\<lambda>_. there (P \<union> {comps (filepath_join [m_store m, h]) | h. h \<in> set (f # fs)})) (\<lambda>_ _. True)"
    by (rule hoare_weaken [OF Cons.IH [of "insert (comps (filepath_join [m_store m, f])) P"]]) (use Cons.prems in \<open>auto simp: there_def\<close>)
  then show ?case
    unfolding for_each.simps by (intro hoare_checked [OF folder_there]) (use Cons.prems in simp_all)
qed

section \<open>Initialising\<close>

text \<open>What is asked for: the directories of the store and the namespace file.\<close>

definition store_paths :: "string \<Rightarrow> string list" where
  "store_paths s = map (\<lambda>f. filepath_join [s, f]) StoreFolders @ [namespaceFilePath s]"

lemma mappings_there:
  assumes "abs_path s"
  shows "hoare (\<lambda>_. True) (ApplyMappings s u g) (\<lambda>_. there {comps (namespaceFilePath s)}) (\<lambda>_ _. True)"
proof -
  let ?p = "namespaceFilePath s"
  note p = namespace_path [OF assms]
  have any: "there {} w" for w by (simp add: there_def)
  have written: "hoare (\<lambda>_. True) (write_mappings s u g) (\<lambda>_. there {comps ?p}) (\<lambda>_ _. True)"
  proof (rule hoareI)
    fix w x w'
    assume "write_mappings s u g w = (Inr x, w')"
    then have "write_mappings s u g w = (Inr (), w')" by simp
    from write_mappings_Inr [OF assms this] show "there {comps ?p} w'"
      by (auto simp: namespace_file_def there_def p split: option.splits node.splits)
  qed simp
  have opened: "hoare (\<lambda>_. True) (os_open ?p) (\<lambda>_. there {comps ?p}) (\<lambda>_ _. True)"
    by (rule hoare_weaken [OF there_read(2) [OF p(2), of "{}"]]) (simp_all add: any)
  have "keeps (there {comps ?p}) (checked (os_read_file ?p) (wrapping (''reading namespace file '' @ ?p)) (\<lambda>data.
     (case Option.bind (json_decode data) decode_mappings of
        None \<Rightarrow> throw (Wrapped (''reading namespace file '' @ ?p) (Msg ''invalid JSON''))
      | Some namespace \<Rightarrow>
          if uid_maps namespace \<noteq> Some (normalizeMappings u) then
            throw (Msg ''provided UID mappings do not match those already configured in the store'')
          else if gid_maps namespace \<noteq> Some (normalizeMappings g) then
            throw (Msg ''provided GID mappings do not match those already configured in the store'')
          else ret ())))"
    by (auto intro!: keeps_intro split: option.splits)
  then have validated: "hoare (\<lambda>_. True) (validateNamespace ?p u g) (\<lambda>_. there {comps ?p}) (\<lambda>_ _. True)"
    unfolding validateNamespace_def by (intro hoare_checked [OF opened hoare_kept]) simp_all
  show ?thesis
    unfolding ApplyMappings_def observed_def
    by (rule hoare_checked [OF hoare_any]) (use written validated in simp_all)
qed

lemma stat_there:
  assumes "is_rooted p" and "nodes w (comps p) \<noteq> None" and "\<And>t. nodes w (comps p) \<noteq> Some (Symlink t)" and "faults w = []"
  shows "\<exists>n. os_stat p w = (Inr n, w)"
proof -
  from assms(2) obtain n where n: "nodes w (comps p) = Some n" by blast
  with assms(3) have "stat_node w (comps p) = Inr n" by (cases n) auto
  then show ?thesis using assms(1,4) by (simp add: os_stat_def faulty_def at_path_def)
qed

lemma all_there_run:
  assumes "\<And>p. p \<in> set ps \<Longrightarrow> is_rooted p \<and> nodes w (comps p) \<noteq> None \<and> (\<forall>t. nodes w (comps p) \<noteq> Some (Symlink t))"
    and "faults w = []"
  shows "all_there ps w = (Inr True, w)"
  using assms(1)
proof (induction ps)
  case (Cons p ps)
  obtain n where "os_stat p w = (Inr n, w)" using stat_there [OF _ _ _ assms(2), of p] Cons.prems [of p] by auto
  then show ?case using Cons by (simp add: if_missing_def)
qed simp

text \<open>C16: when \<open>InitStore\<close> returns without an error, whatever was there before and whichever calls
  fail, all the directories of the store and its namespace file are there, so that
  \<open>IsStoreInitialized\<close>, which the other commands ask first, says yes. The last condition is that none of
  these names is a symbolic link, which could lead nowhere.\<close>

theorem InitStore_initializes:
  assumes "abs_path (drv_store d)" and "directIO d \<in> {DirectIOEnabler_Configure, DirectIODisabler_Configure, NoopDirectIO_Configure}"
    and "InitStore (NewManager env d (ApplyMappings (drv_store d))) spec w = (Inr (), w')" and "faults w' = []"
    and "\<And>p t. p \<in> set (store_paths (drv_store d)) \<Longrightarrow> nodes w' (comps p) \<noteq> Some (Symlink t)"
  shows "IsStoreInitialized (NewManager env d (ApplyMappings (drv_store d))) w' = (Inr True, w')"
proof -
  let ?s = "drv_store d"
  let ?m = "NewManager env d (ApplyMappings ?s)"
  let ?P = "comps ` set (store_paths ?s)" and ?n = "{comps (namespaceFilePath ?s)}"
  have m: "m_store ?m = ?s" "m_apply_mappings ?m = ApplyMappings ?s" "sd_configure (m_store_driver ?m) = ConfigureStore d"
    by (simp_all add: NewManager_def overlay_store_def)
  have rooted: "is_rooted (filepath_join [m_store ?m, f])" for f
    using is_rooted_join is_rooted_abs [OF assms(1)] by (simp add: m)
  have paths: "?n \<union> {comps (filepath_join [m_store ?m, f]) | f. f \<in> set StoreFolders} = ?P"
    by (auto simp: store_paths_def m)
  have folders: "hoare (there ?n) (for_each StoreFolders (\<lambda>f. createInternalDirectory ?m f u g)) (\<lambda>_. there ?P) (\<lambda>_ _. True)" for u g
    using folders_there [of StoreFolders ?m ?n u g, OF rooted] unfolding paths .
  have configure: "hoare (there ?n) (configureStore ?m u g) (\<lambda>_. there ?P) (\<lambda>_ _. True)" for u g
  proof -
    have "keeps (there ?P) (sd_configure (m_store_driver ?m) a b u g)" for a b
      unfolding m by (rule there_ConfigureStore [OF assms(2)])
    then have "hoare (there ?P) (checked (sd_configure (m_store_driver ?m) (m_store ?m) (getBackingStoreFilePath ?m) u g)
        (wrapping ''running filesystem-specific configuration'') ret) (\<lambda>_. there ?P) (\<lambda>_ _. True)"
      by (intro hoare_kept keeps_intro)
    note rest = hoare_checked [OF folders this]
    have dir: "keeps (there ?n) (isDirectory p)" for p unfolding isDirectory_def by (intro keeps_intro)
    show ?thesis
      unfolding configureStore_def
      by (rule hoare_checked [OF hoare_kept [OF dir]], rule hoare_checked [OF hoare_kept [OF there_composed(1)]],
          rule hoare_checked [OF hoare_kept [OF there_composed(2)]], rule rest) simp_all
  qed
  have owned: "hoare (there ?n) (checked (findStoreOwner (init_uids spec) (init_gids spec)) throw (\<lambda>(u, g).
      checked (configureStore ?m u g) (wrapping ''running filesystem-specific configuration'') ret)) (\<lambda>_. there ?P) (\<lambda>_ _. True)"
  proof (rule hoare_checked [OF hoare_kept])
    show "keeps (there ?n) (findStoreOwner (init_uids spec) (init_gids spec))"
      unfolding findStoreOwner_def by (intro keeps_intro)
    show "hoare (there ?n) (case x of (u, g) \<Rightarrow> checked (configureStore ?m u g)
        (wrapping ''running filesystem-specific configuration'') ret) (\<lambda>_. there ?P) (\<lambda>_ _. True)" for x
      by (cases x) (simp, rule hoare_checked [OF configure], simp_all add: hoare_def)
  qed simp_all
  have mapped: "hoare (\<lambda>_. True) (checked (m_apply_mappings ?m (init_uids spec) (init_gids spec)) throw (\<lambda>_.
      checked (findStoreOwner (init_uids spec) (init_gids spec)) throw (\<lambda>(u, g).
      checked (configureStore ?m u g) (wrapping ''running filesystem-specific configuration'') ret))) (\<lambda>_. there ?P) (\<lambda>_ _. True)"
    unfolding m by (rule hoare_checked [OF mappings_there [OF assms(1)] owned]) simp_all
  have body: "hoare (\<lambda>_. True) (logged (mountFileSystemIfBackingStoreExists ?m)
        (checked a throw (\<lambda>_. checked (os_mkdir_all b perm_0755) (wrapping ''initializing store'') (\<lambda>_.
         checked (m_apply_mappings ?m (init_uids spec) (init_gids spec)) throw (\<lambda>_.
         checked (findStoreOwner (init_uids spec) (init_gids spec)) throw (\<lambda>(u, g).
         checked (configureStore ?m u g) (wrapping ''running filesystem-specific configuration'') ret))))))
      (\<lambda>_. there ?P) (\<lambda>_ _. True)" for a :: "unit sys" and b
    unfolding logged_def
    by (rule hoare_ignored, rule hoare_checked [OF hoare_any], rule hoare_checked [OF hoare_any mapped]) simp_all
  have unlock: "hoare (there ?P) (unlock_wrapping l f (Inr x)) (\<lambda>_. there ?P) (\<lambda>_ _. True)"
    "hoare (\<lambda>_. True) (unlock_wrapping l f (Inl e)) (\<lambda>_ _. False) (\<lambda>_ _. True)" for l f x e
    unfolding unlock_wrapping_def
    by (rule hoare_kept, auto intro!: keeps_intro keeps_Unlock)
      (rule hoare_checked [OF hoare_any], simp_all add: hoare_give_back)
  have "hoare (\<lambda>_. True) (InitStore ?m spec) (\<lambda>_. there ?P) (\<lambda>_ _. True)"
    unfolding InitStore_def Let_def observed_def
    by (rule hoare_checked [OF hoare_any]) (rule hoare_checked [OF hoare_any hoare_after [OF body unlock]] | simp)+
  from hoare_Inr [OF this _ assms(3)] have "there ?P w'" by simp
  then have "is_rooted p \<and> nodes w' (comps p) \<noteq> None \<and> (\<forall>t. nodes w' (comps p) \<noteq> Some (Symlink t))"
    if "p \<in> set (store_paths ?s)" for p
    using that assms(5) rooted namespace_path(2) [OF assms(1)] by (auto simp: there_def store_paths_def m)
  from all_there_run [of "store_paths ?s" w', OF this assms(4)] show ?thesis
    by (simp add: IsStoreInitialized_def m store_paths_def namespaceFilePath_def)
qed

definition empty_machine :: world where
  "empty_machine = blank\<lparr>tree := [([], Dir root_attr)]\<rparr>"

definition no_symlink :: "world \<Rightarrow> string \<Rightarrow> bool" where
  "no_symlink w p = (case nodes w (comps p) of Some (Symlink t) \<Rightarrow> False | _ \<Rightarrow> True)"

lemma store_made:
  "(let (r, w') = InitStore (NewManager sample_outside sample_driver (ApplyMappings ''/s'')) \<lparr>init_uids = [], init_gids = [], init_size = 1\<rparr>
      empty_machine in r = Inr () \<and> faults w' = [] \<and> list_all (no_symlink w') (store_paths ''/s''))"
  by code_simp

theorem InitStore_initializes_witness:
  "let w' = snd (InitStore (NewManager sample_outside sample_driver (ApplyMappings ''/s''))
       \<lparr>init_uids = [], init_gids = [], init_size = 1\<rparr> empty_machine) in
   IsStoreInitialized (NewManager sample_outside sample_driver (ApplyMappings ''/s'')) w' = (Inr True, w')"
proof -
  have d: "drv_store sample_driver = ''/s''" "directIO sample_driver = NoopDirectIO_Configure" by (simp_all add: sample_driver_def)
  have abs: "abs_path ''/s''" unfolding abs_path_def by (rule exI [of _ "[''s'']"]) (simp add: path_of_def plain_name_def)
  obtain w' where run: "InitStore (NewManager sample_outside sample_driver (ApplyMappings ''/s''))
      \<lparr>init_uids = [], init_gids = [], init_size = 1\<rparr> empty_machine = (Inr (), w')"
    and ff: "faults w' = []" and plain: "list_all (no_symlink w') (store_paths ''/s'')"
    using store_made by (auto split: prod.splits)
  have "nodes w' (comps p) \<noteq> Some (Symlink t)" if "p \<in> set (store_paths ''/s'')" for p t
    using plain that by (auto simp: list_all_iff no_symlink_def split: option.splits node.splits)
  with InitStore_initializes [of sample_driver, unfolded d, OF abs _ run ff] show ?thesis using run by simp
qed

end
