(* ===== verification/Size_Facts.thy ===== *)
theory Size_Facts
  imports Commands
begin

text \<open>
  Sizes and limits: what the 64-bit sums of the program are, when a pull is refused for its size,
  which quota an image gets, and the loop over the parents of a base directory, which ends on an
  absolute name only.
\<close>

section \<open>Sums\<close>

lemma foldl_i64_sum:
  assumes "\<forall>x \<in> set xs. 0 \<le> f x" and "0 \<le> a" and "a + sum_list (map f xs) < 2 ^ 63"
  shows "foldl (\<lambda>acc x. i64 (acc + f x)) a xs = a + sum_list (map f xs)"
  using assms
proof (induction xs arbitrary: a)
  case (Cons x xs)
  have "0 \<le> sum_list (map f xs)" using Cons.prems(1) by (intro sum_list_nonneg) auto
  then have "i64 (a + f x) = a + f x" using Cons.prems by (intro i64_id) (auto simp: in_i64_def)
  then show ?case using Cons.IH [of "a + f x"] Cons.prems by (simp add: algebra_simps)
qed simp

lemma layersSize_sum:
  assumes "\<forall>l \<in> set ls. 0 \<le> layer_size l" and "sum_list (map layer_size ls) < 2 ^ 63"
  shows "layersSize ls = sum_list (map layer_size ls)"
  unfolding layersSize_def using foldl_i64_sum [of ls layer_size 0] assms by simp

section \<open>Quotas on layers\<close>

text \<open>C34: a pull is refused exactly when the image counts towards a disk limit that its
  layers, by the sizes in its manifest, exceed. The refusal comes before anything is locked,
  downloaded or written: the machine is as it was. Otherwise the pull builds the layers.\<close>

theorem Pull_refuses_over_quota:
  assumes "\<forall>l \<in> set (LayerInfos info). 0 \<le> layer_size l"
    and "sum_list (map layer_size (LayerInfos info)) < 2 ^ 63"
  shows "Pull p info spec w =
     (if \<not> base_exclude spec \<and> base_disk_limit spec \<noteq> 0 \<and>
         base_disk_limit spec < sum_list (map layer_size (LayerInfos info))
      then (Inl (Msg (''layers exceed disk quota '' @ itoa (sum_list (map layer_size (LayerInfos info))) @ ''/'' @
              itoa (base_disk_limit spec) @ '' bytes'')), w)
      else buildLayer (length (LayerInfos info)) p (LayerInfos info) spec w)"
  by (simp add: Pull_def quotaExceeded_def Let_def layersSize_sum [OF assms] checked_def)

definition two_layers :: BaseImageInfo where
  "two_layers = \<lparr>LayerInfos = [zero_layer\<lparr>layer_size := 700\<rparr>, zero_layer\<lparr>layer_size := 600\<rparr>],
     base_config = \<lparr>diff_ids = [], image_env = []\<rparr>\<rparr>"

theorem Pull_refuses_over_quota_witness:
  "\<forall>p w. fst (Pull p two_layers \<lparr>base_disk_limit = 1299, base_exclude = False, base_uid_mappings = [],
      base_gid_mappings = [], base_owner_uid = 0, base_owner_gid = 0\<rparr> w) =
   Inl (Msg ''layers exceed disk quota 1300/1299 bytes'')"
proof (intro allI)
  fix p w
  have digits: "itoa 1300 = ''1300''" "itoa 1299 = ''1299''" by code_simp+
  show "fst (Pull p two_layers \<lparr>base_disk_limit = 1299, base_exclude = False, base_uid_mappings = [],
      base_gid_mappings = [], base_owner_uid = 0, base_owner_gid = 0\<rparr> w) =
    Inl (Msg ''layers exceed disk quota 1300/1299 bytes'')"
    by (subst Pull_refuses_over_quota) (auto simp: two_layers_def zero_layer_def digits)
qed

section \<open>The quota of an image\<close>

text \<open>The quota an image is given never falls below the smallest quota, never exceeds the
  limit that was asked for unless that is smaller still, and together with the volumes below it
  an inclusive limit is exceeded by at most the smallest quota. There is no quota exactly when an
  inclusive limit is smaller than the volumes already are.\<close>

theorem effective_limit_bounds:
  assumes "0 \<le> img_disk_limit spec" and "in_i64 (img_disk_limit spec)"
    and "0 \<le> volumeSize" and "in_i64 volumeSize"
  shows "case effective_limit spec volumeSize of
      None \<Rightarrow> \<not> ExclusiveDiskLimit spec \<and> img_disk_limit spec < volumeSize
    | Some q \<Rightarrow> (ExclusiveDiskLimit spec \<or> volumeSize \<le> img_disk_limit spec) \<and> MinQuota \<le> q \<and>
        q \<le> max MinQuota (img_disk_limit spec) \<and>
        (\<not> ExclusiveDiskLimit spec \<longrightarrow> volumeSize + q \<le> img_disk_limit spec + MinQuota)"
proof -
  have "in_i64 (img_disk_limit spec - volumeSize)" using assms by (auto simp: in_i64_def)
  then show ?thesis
    using assms by (auto simp: effective_limit_def Let_def i64_id MinQuota_def max_def)
qed

theorem effective_limit_bounds_witness:
  "effective_limit \<lparr>img_volumes = [], img_mount = True, ImagePath = [], img_disk_limit = 300000,
     ExclusiveDiskLimit = False, img_owner_uid = 0, img_owner_gid = 0\<rparr> 400000 = None"
proof -
  let ?s = "\<lparr>img_volumes = [], img_mount = True, ImagePath = [], img_disk_limit = 300000,
     ExclusiveDiskLimit = False, img_owner_uid = 0, img_owner_gid = 0\<rparr>"
  show ?thesis
    using effective_limit_bounds [of ?s 400000]
    by (auto simp: in_i64_def split: option.splits)
qed

section \<open>The base directory of a layer\<close>

lemma clean_comps_members:
  assumes "x \<in> set (clean_comps r cs)"
  shows "x \<noteq> [] \<and> (x \<in> set cs \<or> x = ''..'')"
proof -
  have "x \<noteq> [] \<and> (x \<in> set cs \<or> x \<in> set st \<or> x = ''..'')"
    if "x \<in> set (foldl (push_comp r) st cs)" and "\<forall>y \<in> set st. y \<noteq> []" for st
    using that
  proof (induction cs arbitrary: st)
    case (Cons c cs)
    have "\<forall>y \<in> set (push_comp r st c). y \<noteq> [] \<and> (y = c \<or> y \<in> set st \<or> y = ''..'')"
      using Cons.prems(2) by (cases st) simp_all
    then show ?case using Cons.IH [of "push_comp r st c"] Cons.prems by (auto simp del: push_comp.simps)
  qed simp
  from this [of "[]"] show ?thesis using assms by (simp add: clean_comps_def)
qed

lemma filepath_dir_relative: "\<not> is_rooted s \<Longrightarrow> \<not> is_rooted (filepath_dir s)"
proof -
  assume r: "\<not> is_rooted s"
  let ?t = "rev (dropWhile (\<lambda>c. c \<noteq> CHR ''/'') (rev s))"
  let ?cs = "clean_comps False (split_on CHR ''/'' ?t)"
  have "prefix ?t s" by (metis rev_rev_ident suffix_dropWhile suffix_to_prefix)
  then have t: "\<not> is_rooted ?t" using r by (auto simp: is_rooted_def elim: prefix_order.trans)
  have "\<not> is_rooted (join_with ''/'' ?cs)"
  proof (cases ?cs)
    case (Cons x xs)
    then have "x \<noteq> [] \<and> CHR ''/'' \<notin> set x"
      using clean_comps_members [of x False "split_on CHR ''/'' ?t"] split_on_no_sep by fastforce
    then show ?thesis unfolding Cons by (cases xs; cases x) (auto simp: is_rooted_def)
  qed (simp add: is_rooted_def)
  then show ?thesis using t by (auto simp: filepath_dir_def filepath_clean_def Let_def is_rooted_def)
qed

text \<open>C35: for a base directory given as an absolute name the search upwards returns, after at
  most one call per component and one for the root, whatever the file system answers.\<close>

theorem ensureBaseDirectoryExists_returns:
  assumes "abs_path baseDir" and "length (comps baseDir) < n"
  shows "fst (ensureBaseDirectoryExists n baseDir childPath parentPath w) \<noteq> Inr None"
proof -
  have "fst (ensureBaseDirectoryExists n (path_of cs) childPath parentPath w) \<noteq> Inr None"
    if "list_all plain_name cs" and "length cs < n" for cs n w
    using that
  proof (induction cs arbitrary: n w rule: rev_induct)
    case Nil
    then obtain k where "n = Suc k" by (cases n) auto
    then show ?case by (simp add: path_of_def)
  next
    case (snoc c cs)
    then obtain k where n: "n = Suc k" by (cases n) auto
    have root: "path_of (cs @ [c]) \<noteq> ''/''"
      using snoc.prems path_of_inj [of "cs @ [c]" "[]"] by (auto simp: path_of_def)
    have up: "filepath_dir (path_of (cs @ [c])) = path_of cs"
      using snoc.prems by (simp add: filepath_dir_path_of)
    obtain r w' where below: "ensureBaseDirectoryExists k (path_of cs) childPath parentPath w = (r, w')"
      by (cases "ensureBaseDirectoryExists k (path_of cs) childPath parentPath w")
    have "r \<noteq> Inr None" using snoc.IH [of k w] snoc.prems n below by auto
    then show ?case
      using below root unfolding n
      by (cases r) (auto simp: up Let_def checked_def wrapping_def throw_def ret_def
          split: prod.splits sum.splits option.splits if_splits)
  qed
  then show ?thesis using assms abs_path_plain [of baseDir] abs_path_path_of [of baseDir] by metis
qed

theorem ensureBaseDirectoryExists_returns_witness:
  "fst (ensureBaseDirectoryExists 3 ''/a/b'' ''/c'' ''/p'' blank) \<noteq> Inr None"
proof -
  have names: "list_all plain_name [''a'', ''b'']" by (simp add: plain_name_def)
  have "''/a/b'' = path_of [''a'', ''b'']" by (simp add: path_of_def)
  then have "abs_path ''/a/b''" and "comps ''/a/b'' = [''a'', ''b'']"
    using abs_path_of_plain [OF names] comps_path_of [OF names] by simp_all
  then show ?thesis by (intro ensureBaseDirectoryExists_returns) auto
qed

text \<open>C36: for a relative base directory the search never ends: with any amount of fuel it
  has done nothing but call itself, since the parents of a relative name end at \<open>.\<close> and not at
  the root the recursion stops at.\<close>

theorem ensureBaseDirectoryExists_diverges:
  assumes "\<not> is_rooted baseDir"
  shows "ensureBaseDirectoryExists n baseDir childPath parentPath w = (Inr None, w)"
  using assms
proof (induction n arbitrary: baseDir)
  case (Suc n)
  then have "baseDir \<noteq> ''/''" by (auto simp: is_rooted_def)
  then show ?case using Suc.IH [OF filepath_dir_relative [OF Suc.prems]] by simp
qed simp

theorem ensureBaseDirectoryExists_diverges_witness:
  "fst (ensureBaseDirectoryExists 1000 ''home/vcap'' ''/c'' ''/p'' blank) = Inr None"
  by (subst ensureBaseDirectoryExists_diverges) (simp_all add: is_rooted_def)

section \<open>Retried removals\<close>

text \<open>Removing a store is tried 50 times and no more: against a device that stays busy
  the last of these errors is what is returned, and the 50 calls are all that was used of the
  machine.\<close>

theorem tryRemoveAll_bounded:
  assumes "faults w = replicate 50 (Some (EBUSY, 0)) @ fs"
  shows "tryRemoveAll p w = (Inl (PathErr ''unlinkat'' p EBUSY), w\<lparr>faults := fs\<rparr>)"
proof -
  have busy: "os_remove_all p v = (Inl (PathErr ''unlinkat'' p EBUSY), v\<lparr>faults := gs\<rparr>)"
    if "faults v = Some (EBUSY, 0) # gs" for v gs
    using that by (simp add: os_remove_all_def faulty_def prune_def Let_def)
  have "tryRemoveAll_loop k err p v =
      (Inl (case k of 0 \<Rightarrow> the err | Suc _ \<Rightarrow> PathErr ''unlinkat'' p EBUSY), v\<lparr>faults := gs\<rparr>)"
    if "faults v = replicate k (Some (EBUSY, 0)) @ gs" and "err \<noteq> None \<or> 0 < k" for k err v gs
    using that
  proof (induction k arbitrary: err v)
    case 0
    then show ?case by auto
  next
    case (Suc k)
    let ?v = "v\<lparr>faults := replicate k (Some (EBUSY, 0)) @ gs\<rparr>"
    have "os_remove_all p v = (Inl (PathErr ''unlinkat'' p EBUSY), ?v)"
      using Suc.prems by (intro busy) simp
    then show ?case using Suc.IH [of ?v "Some (PathErr ''unlinkat'' p EBUSY)"]
      by (simp add: isEBUSY_def split: nat.split)
  qed
  from this [OF assms, of None] show ?thesis by (simp add: tryRemoveAll_def)
qed

theorem tryRemoveAll_bounded_witness:
  "fst (tryRemoveAll ''/s'' (blank\<lparr>faults := replicate 60 (Some (EBUSY, 0))\<rparr>)) = Inl (PathErr ''unlinkat'' ''/s'' EBUSY)"
proof -
  have "faults (blank\<lparr>faults := replicate 60 (Some (EBUSY, 0))\<rparr>) =
      replicate 50 (Some (EBUSY, 0)) @ replicate 10 (Some (EBUSY, 0))"
    by (simp flip: replicate_add)
  then show ?thesis by (simp add: tryRemoveAll_bounded)
qed

end
