(* ===== verification/Measure_Facts.thy ===== *)
theory Measure_Facts
  imports Size_Facts Collection
begin

text \<open>
  What the measurer measures: the sums are those of the sizes on record, and every size the program
  computes or reads is a value of Go's type \<open>int64\<close>, whatever is in the files it reads.
\<close>

section \<open>What the measurer measures\<close>

text \<open>The size that is on record for a volume; a volume without a record counts as empty.\<close>

definition recorded_size :: "driver \<Rightarrow> world \<Rightarrow> string \<Rightarrow> int option" where
  "recorded_size d w v =
     (let q = comps (volumeMetaFilePath d v) in
      case nodes w q of
        None \<Rightarrow> if absent_errno w q = ENOENT then Some 0 else None
      | Some (Regular a data) \<Rightarrow> map_option meta_size (Option.bind (json_decode data) meta_of_json)
      | Some _ \<Rightarrow> None)"

lemma VolumeSize_recorded:
  assumes "abs_path (drv_store d)" and "plain_name v" and "recorded_size d w v = Some n" and "faults w = []"
  shows "add_volume_size (overlay_volumes d) v acc w = (Inr (i64 (acc + n)), w)"
proof -
  have at: "at_path w (volumeMetaFilePath d v) = comps (volumeMetaFilePath d v)"
    using meta_path_facts(2) [OF assms(1,2)] by (simp add: at_path_def)
  show ?thesis
  proof (cases "nodes w (comps (volumeMetaFilePath d v))")
    case None
    then have "os_open (volumeMetaFilePath d v) w = (Inl (PathErr ''open'' (volumeMetaFilePath d v) ENOENT), w)" and "n = 0"
      using assms(3,4) by (simp_all add: os_open_def faulty_def at recorded_size_def split: if_splits)
    then show ?thesis by (simp add: add_volume_size_def overlay_volumes_def VolumeSize_def is_not_exist_def)
  next
    case (Some x)
    then obtain a data m where x: "x = Regular a data" and m: "Option.bind (json_decode data) meta_of_json = Some m" "n = meta_size m"
      using assms(3) by (auto simp: recorded_size_def split: node.splits)
    note n = Some [unfolded x]
    show ?thesis
      by (simp add: add_volume_size_def overlay_volumes_def VolumeSize_def open_regular [OF n at assms(4)]
          read_regular [OF n at assms(4)] m)
  qed
qed

lemma fold_volume_sizes:
  assumes "abs_path (drv_store d)" and "faults w = []"
    and "\<forall>v \<in> set vs. plain_name v \<and> recorded_size d w v \<noteq> None"
  shows "fold_io (add_volume_size (overlay_volumes d)) vs acc w =
    (Inr (foldl (\<lambda>a v. i64 (a + the (recorded_size d w v))) acc vs), w)"
  using assms(3)
proof (induction vs arbitrary: acc)
  case (Cons v vs)
  then obtain n where "recorded_size d w v = Some n" by auto
  with VolumeSize_recorded [OF assms(1) _ this assms(2)] Cons show ?case by simp
qed simp

text \<open>C24: the total size of the volumes is the sum of the sizes on record, of marked volumes too, where a
  volume without a record counts nothing; measuring changes nothing. The sum is exact as long as it is
  in the range of 64-bit integers.\<close>

theorem TotalVolumesSize_sum:
  assumes "abs_path (drv_store d)" and "faults w = []" and "nodes w (comps (drv_store d) @ [VolumesDirName]) = Some (Dir a)"
    and "\<forall>v \<in> volume_names d w. plain_name v \<and> (\<exists>n. recorded_size d w v = Some n \<and> 0 \<le> n)"
    and "(\<Sum>v \<in> volume_names d w. the (recorded_size d w v)) < 2 ^ 63"
  shows "TotalVolumesSize (overlay_volumes d) w = (Inr (\<Sum>v \<in> volume_names d w. the (recorded_size d w v)), w)"
proof -
  let ?q = "comps (drv_store d) @ [VolumesDirName]" and ?size = "\<lambda>v. the (recorded_size d w v)"
  let ?vs = "child_names w ?q"
  note p = join_comps [OF assms(1), of "[VolumesDirName]"]
  have vols: "Volumes d w = (Inr ?vs, w)"
    using assms(2,3) p by (simp add: Volumes_def os_read_dir_def faulty_def at_path_def)
  have set: "set ?vs = volume_names d w" and "distinct ?vs"
    by (auto simp: volume_names_def child_names_iff distinct_child_names)
  then have sum: "(\<Sum>v \<in> volume_names d w. ?size v) = sum_list (map ?size ?vs)" by (metis sum.distinct_set_conv_list)
  have "foldl (\<lambda>a v. i64 (a + ?size v)) 0 ?vs = sum_list (map ?size ?vs)"
    using foldl_i64_sum [of ?vs ?size 0] assms(4,5) set sum by fastforce
  moreover have "\<forall>v \<in> set ?vs. plain_name v \<and> recorded_size d w v \<noteq> None" using assms(4) set by fastforce
  ultimately show ?thesis
    using fold_volume_sizes [OF assms(1,2), of ?vs 0] vols sum
    by (simp add: TotalVolumesSize_def countVolumesSize_def overlay_volumes_def)
qed

theorem TotalVolumesSize_sum_witness:
  "TotalVolumesSize (overlay_volumes sample_driver) sample_store = (Inr 4, sample_store)"
proof -
  have names: "volume_names sample_driver sample_store = {''a'', ''b''}" by (simp add: sample_names)
  have abs: "abs_path (drv_store sample_driver)" unfolding abs_path_def
    by (rule exI [of _ "[''s'']"]) (simp add: path_of_def plain_name_def sample_driver_def)
  have sizes: "recorded_size sample_driver sample_store ''a'' = Some 4" "recorded_size sample_driver sample_store ''b'' = Some 0"
    and ff: "faults sample_store = []"
    and dir: "nodes sample_store (comps (drv_store sample_driver) @ [VolumesDirName]) = Some (Dir root_attr)"
    by code_simp+
  show ?thesis
    using TotalVolumesSize_sum [OF abs ff dir] by (simp add: names sizes plain_name_def)
qed

section \<open>The type of sizes\<close>

definition yields :: "('a \<Rightarrow> bool) \<Rightarrow> 'a sys \<Rightarrow> bool" where
  "yields P m \<longleftrightarrow> (\<forall>w x w'. m w = (Inr x, w') \<longrightarrow> P x)"

named_theorems yields_intro "rules that decompose an operation when showing of which type its results are"

lemma yields_base [yields_intro]:
  "P x \<Longrightarrow> yields P (ret x)" "yields P (throw e)" "yields P (wrapping s e)"
  by (simp_all add: yields_def)

lemma yields_checked [yields_intro]:
  assumes "\<And>e. yields P (h e)" and "\<And>x. yields P (k x)"
  shows "yields P (checked m h k)"
  unfolding yields_def
proof (intro allI impI)
  fix w x w'
  assume run: "checked m h k w = (Inr x, w')"
  obtain r v where m: "m w = (r, v)" by (cases "m w")
  show "P x"
  proof (cases r)
    case (Inl e)
    with run m assms(1) show ?thesis by (cases "is_panic e") (auto simp: yields_def)
  next
    case (Inr y)
    with run m assms(2) show ?thesis by (auto simp: yields_def)
  qed
qed

lemma yields_through:
  assumes "yields Q m" and "\<And>x. Q x \<Longrightarrow> yields P (k x)" and "\<And>e. yields P (h e)"
  shows "yields P (checked m h k)"
  unfolding yields_def
proof (intro allI impI)
  fix w x w'
  assume run: "checked m h k w = (Inr x, w')"
  obtain r v where m: "m w = (r, v)" by (cases "m w")
  show "P x"
  proof (cases r)
    case (Inl e)
    with run m assms(3) show ?thesis by (cases "is_panic e") (auto simp: yields_def)
  next
    case (Inr y)
    with m assms(1) have "Q y" by (auto simp: yields_def)
    with run m Inr assms(2) show ?thesis by (auto simp: yields_def)
  qed
qed

lemma yields_if [yields_intro]: "(b \<Longrightarrow> yields P m) \<Longrightarrow> (\<not> b \<Longrightarrow> yields P n) \<Longrightarrow> yields P (if b then m else n)"
  by simp

lemma yields_fold:
  assumes "P acc" and "\<And>x a. P a \<Longrightarrow> yields P (f x a)"
  shows "yields P (fold_io f xs acc)"
  using assms(1)
proof (induction xs arbitrary: acc)
  case (Cons x xs)
  have "yields P (f x acc)" using assms(2) Cons.prems by blast
  then show ?case unfolding fold_io.simps by (rule yields_through) (auto intro: Cons.IH yields_intro)
qed (simp add: yields_intro)

lemma yields_parse [yields_intro]: "yields in_i64 (parse_int_io s)"
  by (auto simp: parse_int_io_def yields_def dest: parse_int_in_i64 split: option.splits)

lemma yields_VolumeSize: "yields in_i64 (VolumeSize d i)"
proof -
  have "in_i64 (meta_size m)" if "Option.bind v meta_of_json = Some m" for v m
  proof -
    from that obtain j kvs n where "as_int64 (json_field ''Size'' kvs) = Some n" "m = \<lparr>meta_size = n\<rparr>"
      by (auto simp: meta_of_json_def split: bind_splits)
    then show ?thesis by (cases "json_field ''Size'' kvs") (auto simp: in_i64_def split: if_splits)
  qed
  then have "yields in_i64 (case Option.bind (json_decode data) meta_of_json of
      None \<Rightarrow> throw (Msg ''invalid JSON'') | Some metadata \<Rightarrow> ret (meta_size metadata))" for data
    by (auto simp: yields_def split: option.splits)
  then show ?thesis unfolding VolumeSize_def by (intro yields_intro)
qed

lemma yields_volumes_size: "yields in_i64 (countVolumesSize drv vs)"
  unfolding countVolumesSize_def
  by (rule yields_fold) (auto simp: add_volume_size_def in_i64_def [of 0] intro!: yields_intro)

lemma foldl_in_i64: "in_i64 a \<Longrightarrow> in_i64 (foldl (\<lambda>acc x. i64 (acc + f x)) a xs)"
  by (induction xs arbitrary: a) simp_all


end
