(* ===== verification/Protocol.thy ===== *)
theory Protocol
  imports Collection
begin

text \<open>
  The processes of a store together: creators, deleters and cleaners, each at a point between two
  of its calls, interleaved in any order and killed at any moment. The store is what they share:
  the names of its volumes, its images and the volumes registered for each image. The locks are
  what the points of the processes say: a creator holds the shared global lock from before the pull
  to the end and the exclusive locks of the layers it works on, a cleaner the exclusive global lock
  while it lists and marks, a deleter none.
\<close>

section \<open>States\<close>

text \<open>
  \<open>Descending\<close> and \<open>Ascending\<close> are the two ways through the recursion of \<open>buildLayer\<close>; the number
  is how many of the lowest layers are left to go through, or are there. \<open>Unpacking\<close> has the name
  of the temporary volume.
\<close>

datatype point =
    Checked string "string list"
  | Descending string "string list" nat
  | Ascending string "string list" nat
  | Unpacking string "string list" nat string
  | Registering string "string list"
  | Deregistering string
  | Listing
  | Subtracting "string list" "string list"
  | Marking "string list"
  | Collecting

record store =
  volumes :: "string set"
  images :: "string set"
  registered_volumes :: "string \<rightharpoonup> string list"
  made_of :: "string \<rightharpoonup> string list"
  ready :: "string \<rightharpoonup> string list"
  processes :: "nat \<rightharpoonup> point"

text \<open>
  \<open>made_of\<close> and \<open>ready\<close> are not in the code, and no step depends on them: the volumes that the
  images are mounted from, and those of the images whose creation has returned.
\<close>

fun holds_shared :: "point \<Rightarrow> bool" where
  "holds_shared (Descending i ids n) = True"
| "holds_shared (Ascending i ids n) = True"
| "holds_shared (Unpacking i ids n t) = True"
| "holds_shared (Registering i ids) = True"
| "holds_shared _ = False"

fun holds_exclusive :: "point \<Rightarrow> bool" where
  "holds_exclusive Listing = True"
| "holds_exclusive (Subtracting vs is) = True"
| "holds_exclusive (Marking vs) = True"
| "holds_exclusive _ = False"

fun layer_locks :: "point \<Rightarrow> string set" where
  "layer_locks (Descending i ids n) = set (drop n ids)"
| "layer_locks (Ascending i ids n) = set (drop n ids)"
| "layer_locks (Unpacking i ids n t) = set (drop n ids)"
| "layer_locks _ = {}"

fun works_on :: "point \<Rightarrow> string option" where
  "works_on (Checked i ids) = Some i"
| "works_on (Descending i ids n) = Some i"
| "works_on (Ascending i ids n) = Some i"
| "works_on (Unpacking i ids n t) = Some i"
| "works_on (Registering i ids) = Some i"
| "works_on (Deregistering i) = Some i"
| "works_on _ = None"

text \<open>The identifiers of layers are SHA-256 digests in hexadecimal; other names are not.\<close>

definition hex_digest :: "string \<Rightarrow> bool" where
  "hex_digest v \<longleftrightarrow> v \<noteq> [] \<and> set v \<subseteq> set ''0123456789abcdef''"

definition incomplete :: "string \<Rightarrow> string \<Rightarrow> bool" where
  "incomplete v t \<longleftrightarrow> prefix (v @ ''-incomplete-'') t"

definition moves_to :: "store \<Rightarrow> nat \<Rightarrow> point \<Rightarrow> store" where
  "moves_to s p c = s\<lparr>processes := (processes s)(p \<mapsto> c)\<rparr>"

definition ends :: "store \<Rightarrow> nat \<Rightarrow> store" where
  "ends s p = s\<lparr>processes := (processes s)(p := None)\<rparr>"

definition image_gone :: "store \<Rightarrow> string \<Rightarrow> store" where
  "image_gone s i = s\<lparr>images := images s - {i}, made_of := (made_of s)(i := None), ready := (ready s)(i := None)\<rparr>"

section \<open>Steps\<close>

text \<open>A creation: \<open>Create\<close> of the creator with the \<open>buildLayer\<close> of its puller.\<close>

inductive create_step :: "nat \<Rightarrow> store \<Rightarrow> store \<Rightarrow> bool" for p where
  create_start: "processes s p = None \<Longrightarrow> i \<notin> images s \<Longrightarrow> \<forall>v \<in> set ids. hex_digest v \<Longrightarrow>
     create_step p s (moves_to s p (Checked i ids))"
| create_lock: "processes s p = Some (Checked i ids) \<Longrightarrow>
     \<forall>q c. processes s q = Some c \<longrightarrow> \<not> holds_exclusive c \<Longrightarrow>
     create_step p s (moves_to s p (Descending i ids (length ids)))"
| layer_there: "processes s p = Some (Descending i ids (Suc n)) \<Longrightarrow> ids ! n \<in> volumes s \<Longrightarrow>
     create_step p s (moves_to s p (Ascending i ids (Suc n)))"
| layer_lock: "processes s p = Some (Descending i ids (Suc n)) \<Longrightarrow> ids ! n \<notin> volumes s \<Longrightarrow>
     \<forall>q c. processes s q = Some c \<longrightarrow> ids ! n \<notin> layer_locks c \<Longrightarrow>
     create_step p s (moves_to s p (Descending i ids n))"
| no_more_layers: "processes s p = Some (Descending i ids 0) \<Longrightarrow>
     create_step p s (moves_to s p (Ascending i ids 0))"
| layer_start: "processes s p = Some (Ascending i ids n) \<Longrightarrow> n < length ids \<Longrightarrow> incomplete (ids ! n) t \<Longrightarrow>
     create_step p s (moves_to (s\<lparr>volumes := insert t (volumes s)\<rparr>) p (Unpacking i ids n t))"
| layer_done: "processes s p = Some (Unpacking i ids n t) \<Longrightarrow>
     create_step p s (moves_to (s\<lparr>volumes := insert (ids ! n) (volumes s - {t})\<rparr>) p (Ascending i ids (Suc n)))"
| layer_failed: "processes s p = Some (Unpacking i ids n t) \<Longrightarrow>
     create_step p s (ends (s\<lparr>volumes := volumes s - {ids ! n}\<rparr>) p)"
| image_made: "processes s p = Some (Ascending i ids (length ids)) \<Longrightarrow> i \<notin> images s \<Longrightarrow> set ids \<subseteq> volumes s \<Longrightarrow>
     create_step p s (moves_to (s\<lparr>images := insert i (images s), made_of := (made_of s)(i \<mapsto> ids)\<rparr>) p (Registering i ids))"
| image_failed: "processes s p = Some (Ascending i ids (length ids)) \<Longrightarrow>
     create_step p s (ends (image_gone s i) p)"
| register_done: "processes s p = Some (Registering i ids) \<Longrightarrow>
     create_step p s (ends (s\<lparr>registered_volumes := (registered_volumes s)(i \<mapsto> ids),
        ready := (if i \<in> images s then (ready s)(i := made_of s i) else ready s)\<rparr>) p)"
| register_failed: "processes s p = Some (Registering i ids) \<Longrightarrow>
     create_step p s (ends (image_gone s i) p)"

text \<open>A deletion: \<open>Delete\<close> of the deleter.\<close>

inductive delete_step :: "nat \<Rightarrow> store \<Rightarrow> store \<Rightarrow> bool" for p where
  delete_image: "processes s p = None \<Longrightarrow> i \<in> images s \<Longrightarrow>
     delete_step p s (moves_to (image_gone s i) p (Deregistering i))"
| deregister: "processes s p = Some (Deregistering i) \<Longrightarrow>
     delete_step p s (ends (s\<lparr>registered_volumes := (registered_volumes s)(i := None)\<rparr>) p)"

text \<open>A clean: \<open>collectGarbage\<close> of the cleaner with the \<open>UnusedVolumes\<close>, \<open>MarkUnused\<close> and \<open>Collect\<close> of
  its collector.\<close>

inductive clean_step :: "nat \<Rightarrow> store \<Rightarrow> store \<Rightarrow> bool" for p where
  clean_lock: "processes s p = None \<Longrightarrow>
     \<forall>q c. processes s q = Some c \<longrightarrow> \<not> holds_shared c \<and> \<not> holds_exclusive c \<Longrightarrow>
     clean_step p s (moves_to s p Listing)"
| clean_list: "processes s p = Some Listing \<Longrightarrow> set vs = {v \<in> volumes s. \<not> is_gc v} \<Longrightarrow> set is = images s \<Longrightarrow>
     clean_step p s (moves_to s p (Subtracting vs is))"
| subtract: "processes s p = Some (Subtracting vs (i # is)) \<Longrightarrow> registered_volumes s i = Some ids \<Longrightarrow>
     clean_step p s (moves_to s p (Subtracting (removeDependencyFromOrphanList vs ids) is))"
| list_failed: "processes s p = Some Listing \<Longrightarrow> clean_step p s (moves_to s p (Marking []))"
| subtract_failed: "processes s p = Some (Subtracting vs (i # is)) \<Longrightarrow> clean_step p s (moves_to s p (Marking []))"
| subtracted: "processes s p = Some (Subtracting vs []) \<Longrightarrow> clean_step p s (moves_to s p (Marking vs))"
| mark: "processes s p = Some (Marking (v # vs)) \<Longrightarrow>
     clean_step p s (moves_to (s\<lparr>volumes := insert (''gc.'' @ v) (volumes s - {v})\<rparr>) p (Marking vs))"
| mark_failed: "processes s p = Some (Marking (v # vs)) \<Longrightarrow> clean_step p s (moves_to s p (Marking vs))"
| clean_unlock: "processes s p = Some (Marking []) \<Longrightarrow> clean_step p s (moves_to s p Collecting)"
| collect: "processes s p = Some Collecting \<Longrightarrow> is_gc v \<Longrightarrow>
     clean_step p s (moves_to (s\<lparr>volumes := volumes s - {v}\<rparr>) p Collecting)"
| clean_end: "processes s p = Some Collecting \<Longrightarrow> clean_step p s (ends s p)"

text \<open>
  \<open>serial\<close> says that the caller has at most one operation at a time on the same image. A process
  can be killed at any point; the kernel then gives its locks back.
\<close>

definition free_id :: "store \<Rightarrow> string \<Rightarrow> bool" where
  "free_id s i \<longleftrightarrow> (\<forall>q c. processes s q = Some c \<longrightarrow> works_on c \<noteq> Some i)"

definition serial_start :: "store \<Rightarrow> nat \<Rightarrow> store \<Rightarrow> bool" where
  "serial_start s p t \<longleftrightarrow> (processes s p = None \<longrightarrow>
     (\<forall>c i. processes t p = Some c \<longrightarrow> works_on c = Some i \<longrightarrow> free_id s i))"

inductive reachable :: "bool \<Rightarrow> store \<Rightarrow> bool" for serial where
  empty_store: "reachable serial
     \<lparr>volumes = {}, images = {}, registered_volumes = (\<lambda>_. None), made_of = (\<lambda>_. None), ready = (\<lambda>_. None),
       processes = (\<lambda>_. None)\<rparr>"
| create: "reachable serial s \<Longrightarrow> create_step p s t \<Longrightarrow> serial \<longrightarrow> serial_start s p t \<Longrightarrow> reachable serial t"
| delete: "reachable serial s \<Longrightarrow> delete_step p s t \<Longrightarrow> serial \<longrightarrow> serial_start s p t \<Longrightarrow> reachable serial t"
| clean: "reachable serial s \<Longrightarrow> clean_step p s t \<Longrightarrow> reachable serial t"
| crash: "reachable serial s \<Longrightarrow> reachable serial (ends s p)"

lemmas point_defs = moves_to_def ends_def image_gone_def

section \<open>Invariants\<close>

text \<open>The locks exclude what they should.\<close>

definition apart :: "point \<Rightarrow> point \<Rightarrow> bool" where
  "apart c d \<longleftrightarrow> \<not> (holds_exclusive c \<and> (holds_shared d \<or> holds_exclusive d)) \<and>
     \<not> (holds_exclusive d \<and> holds_shared c) \<and> layer_locks c \<inter> layer_locks d = {}"

definition exclusion :: "store \<Rightarrow> bool" where
  "exclusion s \<longleftrightarrow> (\<forall>p q c d. p \<noteq> q \<longrightarrow> processes s p = Some c \<longrightarrow> processes s q = Some d \<longrightarrow> apart c d)"

lemma exclusionD:
  "exclusion s \<Longrightarrow> processes s p = Some c \<Longrightarrow> processes s q = Some d \<Longrightarrow> p \<noteq> q \<Longrightarrow> apart c d"
  unfolding exclusion_def by blast

lemma exclusion_moves:
  assumes "exclusion s" and "processes u = processes s"
    and "\<And>q d. q \<noteq> p \<Longrightarrow> processes s q = Some d \<Longrightarrow> apart c d"
  shows "exclusion (moves_to u p c)"
  unfolding exclusion_def
proof (intro allI impI)
  fix q r e d
  assume *: "q \<noteq> r" "processes (moves_to u p c) q = Some e" "processes (moves_to u p c) r = Some d"
  consider "q = p" | "r = p" | "q \<noteq> p" "r \<noteq> p" by blast
  then show "apart e d"
  proof cases
    case 1
    with * assms(2) have "e = c" "processes s r = Some d" by (simp_all add: moves_to_def)
    with 1 * show ?thesis using assms(3) [of r d] by auto
  next
    case 2
    with * assms(2) have "d = c" "processes s q = Some e" by (simp_all add: moves_to_def)
    with 2 * have "apart d e" using assms(3) [of q e] by auto
    then show ?thesis by (auto simp: apart_def)
  next
    case 3
    with * assms(2) show ?thesis by (auto simp: moves_to_def intro: exclusionD [OF assms(1)])
  qed
qed

lemma exclusion_ends: "exclusion s \<Longrightarrow> processes u = processes s \<Longrightarrow> exclusion (ends u p)"
  unfolding exclusion_def ends_def by simp

text \<open>A step that takes no lock.\<close>

lemma exclusion_less:
  assumes "processes s p = Some c" and "exclusion s" and "processes u = processes s"
    and "holds_exclusive c' \<Longrightarrow> holds_exclusive c" and "holds_shared c' \<Longrightarrow> holds_shared c"
    and "layer_locks c' \<subseteq> layer_locks c"
  shows "exclusion (moves_to u p c')"
  using assms(2,3)
proof (rule exclusion_moves)
  fix q d
  assume "q \<noteq> p" and "processes s q = Some d"
  with assms(1) have "apart c d" by (auto intro: exclusionD [OF assms(2)])
  then show "apart c' d" using assms(4-6) by (auto simp: apart_def)
qed

lemma exclusion_idle:
  "exclusion s \<Longrightarrow> processes u = processes s \<Longrightarrow> \<not> holds_exclusive c \<Longrightarrow> \<not> holds_shared c \<Longrightarrow> layer_locks c = {} \<Longrightarrow>
     exclusion (moves_to u p c)"
  by (erule (1) exclusion_moves) (auto simp: apart_def)

lemma processes_image_gone [simp]: "processes (image_gone s i) = processes s"
  by (simp add: image_gone_def)

lemma exclusion_create:
  assumes "exclusion s" and "create_step p s t"
  shows "exclusion t"
  using assms(2)
proof cases
  case (create_lock i ids)
  show ?thesis
    unfolding create_lock(1) by (rule exclusion_moves [OF assms(1)]) (use create_lock in \<open>auto simp: apart_def\<close>)
next
  case (layer_lock i ids n)
  have next_drop: "set (drop n ids) \<subseteq> insert (ids ! n) (set (drop (Suc n) ids))"
    by (cases "n < length ids") (simp_all add: Cons_nth_drop_Suc [symmetric])
  show ?thesis
    unfolding layer_lock(1)
  proof (rule exclusion_moves [OF assms(1) refl])
    fix q d
    assume q: "q \<noteq> p" "processes s q = Some d"
    with layer_lock(2) have "apart (Descending i ids (Suc n)) d" by (auto intro: exclusionD [OF assms(1)])
    moreover have "ids ! n \<notin> layer_locks d" using layer_lock(4) q by blast
    ultimately show "apart (Descending i ids n) d" using next_drop by (auto simp: apart_def)
  qed
next
  case (layer_done i ids n v)
  show ?thesis
    unfolding layer_done(1)
    by (rule exclusion_less [OF layer_done(2) assms(1)]) (simp_all add: set_drop_subset_set_drop)
next
  case (create_start i ids)
  show ?thesis unfolding create_start(1) by (rule exclusion_idle [OF assms(1)]) simp_all
qed (hypsubst, (erule exclusion_less [OF _ assms(1)] | rule exclusion_ends [OF assms(1)]); simp)+

lemma exclusion_delete: "exclusion s \<Longrightarrow> delete_step p s t \<Longrightarrow> exclusion t"
  by (erule delete_step.cases) (auto intro: exclusion_ends exclusion_idle)

lemma exclusion_clean:
  assumes "exclusion s" and "clean_step p s t"
  shows "exclusion t"
  using assms(2)
proof cases
  case clean_lock
  show ?thesis
    unfolding clean_lock(1) by (rule exclusion_moves [OF assms(1)]) (use clean_lock in \<open>auto simp: apart_def\<close>)
qed (hypsubst, (erule exclusion_less [OF _ assms(1)] | rule exclusion_ends [OF assms(1)]); simp)+

section \<open>What each process knows\<close>

text \<open>What a process can rely on at a point.\<close>

definition layers_left :: "store \<Rightarrow> string list \<Rightarrow> nat \<Rightarrow> bool" where
  "layers_left s ids n \<longleftrightarrow> (\<forall>v \<in> set ids. hex_digest v) \<and> n \<le> length ids \<and> distinct (drop n ids) \<and>
     set (drop n ids) \<inter> volumes s = {}"

definition depends_on :: "store \<Rightarrow> string \<Rightarrow> string list \<Rightarrow> bool" where
  "depends_on s i ids \<longleftrightarrow> i \<in> images s \<and> registered_volumes s i = Some ids"

fun knows :: "store \<Rightarrow> point \<Rightarrow> bool" where
  "knows s (Checked i ids) \<longleftrightarrow> (\<forall>v \<in> set ids. hex_digest v)"
| "knows s (Descending i ids n) \<longleftrightarrow> layers_left s ids n"
| "knows s (Ascending i ids n) \<longleftrightarrow> layers_left s ids n"
| "knows s (Unpacking i ids n t) \<longleftrightarrow> layers_left s ids n \<and> n < length ids \<and> incomplete (ids ! n) t"
| "knows s (Registering i ids) \<longleftrightarrow> (\<forall>v \<in> set ids. hex_digest v) \<and> set ids \<subseteq> volumes s"
| "knows s (Subtracting vs is) \<longleftrightarrow> (\<forall>i ids. depends_on s i ids \<longrightarrow> i \<in> set is \<or> set ids \<inter> set vs = {})"
| "knows s (Marking vs) \<longleftrightarrow> (\<forall>i ids. depends_on s i ids \<longrightarrow> set ids \<inter> set vs = {})"
| "knows s _ \<longleftrightarrow> True"

definition informed :: "store \<Rightarrow> bool" where
  "informed s \<longleftrightarrow> (\<forall>p c. processes s p = Some c \<longrightarrow> knows s c)"

lemma knows_frame:
  assumes "knows s c"
    and "(volumes t - volumes s) \<inter> layer_locks c = {}"
    and "holds_shared c \<Longrightarrow> \<forall>v \<in> volumes s - volumes t. \<not> hex_digest v"
    and "holds_exclusive c \<Longrightarrow> \<forall>i ids. depends_on t i ids \<longrightarrow> depends_on s i ids"
  shows "knows t c"
proof (cases c)
  case (Subtracting vs js)
  then show ?thesis using assms(1,4) by (simp; blast)
next
  case (Marking vs)
  then show ?thesis using assms(1,4) by (simp; blast)
next
  case (Registering i ids)
  then show ?thesis using assms(1,3) by auto
next
  case (Descending i ids n)
  then show ?thesis using assms(1,2) by (auto simp: layers_left_def)
next
  case (Ascending i ids n)
  then show ?thesis using assms(1,2) by (auto simp: layers_left_def)
next
  case (Unpacking i ids n t)
  then show ?thesis using assms(1,2) by (auto simp: layers_left_def)
qed (use assms(1) in simp_all)

text \<open>What a step may do to the others: \<open>quiet s t d\<close> when the process at \<open>d\<close> does not notice it.\<close>

definition quiet :: "store \<Rightarrow> store \<Rightarrow> point \<Rightarrow> bool" where
  "quiet s t d \<longleftrightarrow> (volumes t - volumes s) \<inter> layer_locks d = {} \<and>
     (holds_shared d \<longrightarrow> (\<forall>v \<in> volumes s - volumes t. \<not> hex_digest v)) \<and>
     (holds_exclusive d \<longrightarrow> (\<forall>i ids. depends_on t i ids \<longrightarrow> depends_on s i ids))"

lemma informed_step:
  assumes "informed s" and "processes t = (processes s)(p := co)" and "\<And>c. co = Some c \<Longrightarrow> knows t c"
    and "\<And>q d. q \<noteq> p \<Longrightarrow> processes s q = Some d \<Longrightarrow> quiet s t d"
  shows "informed t"
  unfolding informed_def
proof (intro allI impI)
  fix q d
  assume q: "processes t q = Some d"
  show "knows t d"
  proof (cases "q = p")
    case False
    then have s: "processes s q = Some d" using q assms(2) by simp
    then have "knows s d" using assms(1) by (auto simp: informed_def)
    then show ?thesis by (rule knows_frame) (use assms(4) [OF False s] in \<open>auto simp: quiet_def depends_on_def\<close>)
  qed (use q assms(2,3) in simp)
qed

lemma processes_moves [simp]: "processes (moves_to u p c) = (processes u)(p \<mapsto> c)" "processes (ends u p) = (processes u)(p := None)"
  by (simp_all add: moves_to_def ends_def)

lemma knows_moves [simp]: "knows (moves_to u p c) d = knows u d" "knows (ends u p) d = knows u d"
  by (cases d; simp add: moves_to_def ends_def layers_left_def depends_on_def)+

lemma quiet_moves [simp]: "quiet s (moves_to u p c) d = quiet s u d" "quiet s (ends u p) d = quiet s u d"
  by (simp_all add: quiet_def moves_to_def ends_def depends_on_def)

lemma quiet_refl [simp]: "quiet s s d"
  by (simp add: quiet_def)

lemma informed_moves:
  "knows u c \<Longrightarrow> informed s \<Longrightarrow> processes u = processes s \<Longrightarrow>
     (\<And>q d. q \<noteq> p \<Longrightarrow> processes s q = Some d \<Longrightarrow> quiet s u d) \<Longrightarrow> informed (moves_to u p c)"
  by (erule informed_step [of s _ p "Some c"]) auto

lemma informed_ends:
  "informed s \<Longrightarrow> processes u = processes s \<Longrightarrow>
     (\<And>q d. q \<noteq> p \<Longrightarrow> processes s q = Some d \<Longrightarrow> quiet s u d) \<Longrightarrow> informed (ends u p)"
  by (erule informed_step [of s _ p None]) auto

lemma quiet_image_gone [simp]: "quiet s (image_gone s i) d"
  by (simp add: quiet_def image_gone_def depends_on_def)

lemma layer_locks_shared: "\<not> holds_shared c \<Longrightarrow> layer_locks c = {}"
  by (cases c) simp_all

lemma not_hex: "is_gc v \<Longrightarrow> \<not> hex_digest v" "incomplete v t \<Longrightarrow> \<not> hex_digest t"
  by (auto simp: is_gc_def incomplete_def hex_digest_def prefix_def)

lemma knows_left: "informed s \<Longrightarrow> processes s p = Some c \<Longrightarrow> knows s c"
  by (simp add: informed_def)

lemma informed_create:
  assumes "informed s" and "exclusion s" and "create_step p s t"
  shows "informed t"
proof -
  note knows = knows_left [OF assms(1)]
  from assms(3) show ?thesis
  proof cases
    case (create_start i ids)
    then show ?thesis by (auto intro!: informed_moves [OF _ assms(1)])
  next
    case (create_lock i ids)
    then show ?thesis using knows [of p] by (auto intro!: informed_moves [OF _ assms(1)] simp: layers_left_def)
  next
    case (layer_there i ids n)
    then show ?thesis using knows [of p] by (auto intro!: informed_moves [OF _ assms(1)])
  next
    case (layer_lock i ids n)
    then have "layers_left s ids (Suc n)" and "ids ! n \<notin> set (drop (Suc n) ids)"
      using knows [OF layer_lock(2)] layer_lock(4) [rule_format, OF layer_lock(2)] by simp_all
    then have "layers_left s ids n"
      using layer_lock(3) by (auto simp: layers_left_def Cons_nth_drop_Suc [symmetric])
    then show ?thesis unfolding layer_lock(1) by (auto intro!: informed_moves [OF _ assms(1)])
  next
    case (no_more_layers i ids)
    then show ?thesis using knows [of p] by (auto intro!: informed_moves [OF _ assms(1)])
  next
    case (layer_start i ids n v)
    have "layers_left s ids n" using knows [OF layer_start(2)] by simp
    moreover have v: "\<not> hex_digest v" using layer_start(4) by (rule not_hex)
    ultimately have "knows (s\<lparr>volumes := insert v (volumes s)\<rparr>) (Unpacking i ids n v)"
      using layer_start(3,4) by (auto simp: layers_left_def dest: in_set_dropD)
    moreover have "v \<notin> layer_locks d" if "processes s q = Some d" for q d
      using knows [OF that] v by (cases d) (auto simp: layers_left_def dest: in_set_dropD)
    ultimately show ?thesis
      unfolding layer_start(1) by (intro informed_moves [OF _ assms(1)]) (auto simp: quiet_def depends_on_def)
  next
    case (layer_done i ids n v)
    have k: "layers_left s ids n" "n < length ids" "incomplete (ids ! n) v" using knows [OF layer_done(2)] by simp_all
    have d: "drop n ids = ids ! n # drop (Suc n) ids" using k(2) by (simp add: Cons_nth_drop_Suc)
    have "knows (s\<lparr>volumes := insert (ids ! n) (volumes s - {v})\<rparr>) (Ascending i ids (Suc n))"
      using k(1,2) d by (auto simp: layers_left_def)
    moreover have "ids ! n \<notin> layer_locks c" if "q \<noteq> p" "processes s q = Some c" for q c
      using exclusionD [OF assms(2) layer_done(2) that(2)] that(1) d by (auto simp: apart_def)
    moreover have "\<not> hex_digest v" using k(3) by (rule not_hex)
    ultimately show ?thesis
      unfolding layer_done(1) by (intro informed_moves [OF _ assms(1)]) (auto simp: quiet_def depends_on_def)
  next
    case (layer_failed i ids n v)
    then have "volumes s - {ids ! n} = volumes s"
      using knows [OF layer_failed(2)] by (auto simp: layers_left_def Cons_nth_drop_Suc [symmetric])
    then show ?thesis unfolding layer_failed(1) by (intro informed_ends [OF assms(1)]) simp_all
  next
    case (image_made i ids)
    then show ?thesis using knows [OF image_made(2)]
      using exclusionD [OF assms(2) image_made(2)]
      by (auto intro!: informed_moves [OF _ assms(1)] simp: layers_left_def quiet_def apart_def)
  next
    case (register_done i ids)
    have "\<not> holds_exclusive d" if "q \<noteq> p" "processes s q = Some d" for q d
      using exclusionD [OF assms(2) register_done(2) that(2)] that(1) by (auto simp: apart_def)
    then show ?thesis unfolding register_done(1) by (intro informed_ends [OF assms(1)]) (auto simp: quiet_def depends_on_def)
  qed (auto intro!: informed_ends [OF assms(1)])
qed

lemma informed_delete:
  assumes "informed s" and "delete_step p s t"
  shows "informed t"
  using assms(2)
proof cases
  case (deregister i)
  then show ?thesis
    unfolding deregister(1) by (intro informed_ends [OF assms(1)]) (auto simp: quiet_def depends_on_def split: if_splits)
qed (auto intro!: informed_moves [OF _ assms(1)])

lemma informed_clean:
  assumes "informed s" and "exclusion s" and "clean_step p s t"
  shows "informed t"
proof -
  note knows = knows_left [OF assms(1)]
  have others: "\<not> holds_shared d" "layer_locks d = {}" "\<not> holds_exclusive d"
    if "processes s p = Some c" "holds_exclusive c" "q \<noteq> p" "processes s q = Some d" for c q d
    using exclusionD [OF assms(2) that(1,4)] that(2,3) layer_locks_shared [of d] by (auto simp: apart_def)
  from assms(3) show ?thesis
  proof cases
    case (clean_list vs js)
    then show ?thesis by (auto intro!: informed_moves [OF _ assms(1)] simp: depends_on_def)
  next
    case (subtract vs i js ids)
    then have "knows s (Subtracting (removeDependencyFromOrphanList vs ids) js)"
      using knows [OF subtract(2)] by (fastforce simp: removeDependencyFromOrphanList_filter depends_on_def)
    then show ?thesis unfolding subtract(1) by (auto intro!: informed_moves [OF _ assms(1)])
  next
    case (subtracted vs)
    then show ?thesis using knows [OF subtracted(2)] by (auto intro!: informed_moves [OF _ assms(1)])
  next
    case (mark v vs)
    have "knows (s\<lparr>volumes := insert (''gc.'' @ v) (volumes s - {v})\<rparr>) (Marking vs)"
      using knows [OF mark(2)] by (fastforce simp: depends_on_def)
    then show ?thesis
      unfolding mark(1) by (intro informed_moves [OF _ assms(1)]) (use others [OF mark(2)] in \<open>auto simp: quiet_def depends_on_def\<close>)
  next
    case (mark_failed v vs)
    have "knows s (Marking vs)" using knows [OF mark_failed(2)] by fastforce
    then show ?thesis unfolding mark_failed(1) by (auto intro!: informed_moves [OF _ assms(1)])
  next
    case (collect v)
    then show ?thesis
      unfolding collect(1) by (intro informed_moves [OF _ assms(1)]) (auto simp: quiet_def depends_on_def dest: not_hex)
  qed (auto intro!: informed_moves [OF _ assms(1)] informed_ends [OF assms(1)])
qed

section \<open>A caller with one operation at a time on an image\<close>

definition owned :: "store \<Rightarrow> bool" where
  "owned s \<longleftrightarrow> (\<forall>p c i. processes s p = Some c \<longrightarrow> works_on c = Some i \<longrightarrow>
     ready s i = None \<and> (i \<in> images s \<longrightarrow> (\<exists>ids. c = Registering i ids \<and> made_of s i = Some ids)) \<and>
     (\<forall>q d. q \<noteq> p \<longrightarrow> processes s q = Some d \<longrightarrow> works_on d \<noteq> Some i))"

definition keeping :: "store \<Rightarrow> bool" where
  "keeping s \<longleftrightarrow> (\<forall>i ids. ready s i = Some ids \<longrightarrow>
     depends_on s i ids \<and> set ids \<subseteq> volumes s \<and> (\<forall>v \<in> set ids. hex_digest v))"

lemma ownedD:
  assumes "owned s" and "processes s p = Some c" and "works_on c = Some i"
  shows "ready s i = None" and "i \<in> images s \<Longrightarrow> \<exists>ids. c = Registering i ids \<and> made_of s i = Some ids"
    and "q \<noteq> p \<Longrightarrow> processes s q = Some d \<Longrightarrow> works_on d \<noteq> Some i"
  using assms unfolding owned_def by blast+

text \<open>A step of a process on its image.\<close>

lemma owned_step:
  assumes "owned s" and "processes t = (processes s)(p := co)"
    and "\<And>j. works_on (the co) = Some j \<Longrightarrow> co \<noteq> None \<Longrightarrow> ready t j = None \<and>
       (j \<in> images t \<longrightarrow> (\<exists>ids. the co = Registering j ids \<and> made_of t j = Some ids)) \<and>
       (\<forall>q d. q \<noteq> p \<longrightarrow> processes s q = Some d \<longrightarrow> works_on d \<noteq> Some j)"
    and "\<And>q d j. q \<noteq> p \<Longrightarrow> processes s q = Some d \<Longrightarrow> works_on d = Some j \<Longrightarrow>
       (ready t j = None \<or> ready t j = ready s j) \<and> (j \<in> images t \<longrightarrow> j \<in> images s \<and> made_of t j = made_of s j)"
  shows "owned t"
  unfolding owned_def
proof (intro allI impI)
  fix q c i
  assume q: "processes t q = Some c" and i: "works_on c = Some i"
  show "ready t i = None \<and> (i \<in> images t \<longrightarrow> (\<exists>ids. c = Registering i ids \<and> made_of t i = Some ids)) \<and>
     (\<forall>r d. r \<noteq> q \<longrightarrow> processes t r = Some d \<longrightarrow> works_on d \<noteq> Some i)"
  proof (cases "q = p")
    case True
    with q assms(2) have "co = Some c" by simp
    then show ?thesis using assms(3) [of i] i True assms(2) by auto
  next
    case False
    with q assms(2) have s: "processes s q = Some c" by simp
    have "works_on d \<noteq> Some i" if "r \<noteq> q" "processes t r = Some d" for r d
    proof (cases "r = p")
      case True
      with that assms(2) have "co = Some d" by simp
      then show ?thesis using assms(3) [of i] False s i by auto
    next
      case r: False
      then show ?thesis using ownedD(3) [OF assms(1) s i] that assms(2) by simp
    qed
    then show ?thesis using ownedD(1,2) [OF assms(1) s i] assms(4) [OF False s i] by auto
  qed
qed

text \<open>A step that stays on its image and leaves the images alone.\<close>

lemma owned_stays:
  assumes "processes s p = Some c" and "owned s" and "works_on c' = works_on c \<or> works_on c' = None"
    and "\<And>i ids. c \<noteq> Registering i ids" and "images u = images s" and "made_of u = made_of s" and "ready u = ready s" and "processes u = processes s"
  shows "owned (moves_to u p c')"
proof (rule owned_step [OF assms(2), of _ p "Some c'"])
  fix j
  assume "works_on (the (Some c')) = Some j"
  then have "works_on c = Some j" using assms(3) by auto
  from ownedD [OF assms(2,1) this] show "ready (moves_to u p c') j = None \<and>
      (j \<in> images (moves_to u p c') \<longrightarrow>
        (\<exists>ids. the (Some c') = Registering j ids \<and> made_of (moves_to u p c') j = Some ids)) \<and>
      (\<forall>q d. q \<noteq> p \<longrightarrow> processes s q = Some d \<longrightarrow> works_on d \<noteq> Some j)"
    using assms(4-7) by (auto simp: moves_to_def)
qed (use assms(5-8) in \<open>auto simp: moves_to_def\<close>)

lemma owned_ends:
  assumes "owned s" and "processes u = processes s" and "images u \<subseteq> images s"
    and "\<And>j. j \<in> images u \<Longrightarrow> made_of u j = made_of s j"
    and "\<And>q d j. q \<noteq> p \<Longrightarrow> processes s q = Some d \<Longrightarrow> works_on d = Some j \<Longrightarrow> ready u j = None \<or> ready u j = ready s j"
  shows "owned (ends u p)"
  by (rule owned_step [OF assms(1), of _ p None]) (use assms(2-5) in \<open>auto simp: ends_def\<close>)

lemma owned_create:
  assumes "owned s" and "create_step p s t" and "serial_start s p t" and "keeping s"
  shows "owned t"
  using assms(2)
proof cases
  case (create_start i ids)
  then have "ready s i = None" using assms(4) by (cases "ready s i") (auto simp: keeping_def depends_on_def)
  moreover have "works_on d \<noteq> Some i" if "processes s q = Some d" for q d
    using assms(3) that create_start(1,2) by (auto simp: serial_start_def free_id_def)
  ultimately show ?thesis
    unfolding create_start(1)
    by (intro owned_step [OF assms(1), of _ p "Some (Checked i ids)"]) (use create_start(3) in \<open>auto simp: moves_to_def\<close>)
next
  case (image_made i ids)
  have "ready s i = None" using ownedD(1) [OF assms(1) image_made(2)] by simp
  moreover have "works_on d \<noteq> Some i" if "q \<noteq> p" "processes s q = Some d" for q d
    using ownedD(3) [OF assms(1) image_made(2) _ that] by simp
  ultimately show ?thesis
    unfolding image_made(1)
    by (intro owned_step [OF assms(1), of _ p "Some (Registering i ids)"]) (auto simp: moves_to_def)
next
  case (register_done i ids)
  have "works_on d \<noteq> Some i" if "q \<noteq> p" "processes s q = Some d" for q d
    using ownedD(3) [OF assms(1) register_done(2) _ that] by simp
  then show ?thesis unfolding register_done(1) by (intro owned_ends [OF assms(1)]) auto
qed (hypsubst, (erule owned_stays [OF _ assms(1)] | rule owned_ends [OF assms(1)]); auto simp: image_gone_def)+

lemma owned_delete:
  assumes "owned s" and "delete_step p s t" and "serial_start s p t"
  shows "owned t"
  using assms(2)
proof cases
  case (delete_image i)
  have "works_on d \<noteq> Some i" if "processes s q = Some d" for q d
    using assms(3) that delete_image(1,2) by (auto simp: serial_start_def free_id_def)
  then show ?thesis
    unfolding delete_image(1)
    by (intro owned_step [OF assms(1), of _ p "Some (Deregistering i)"]) (auto simp: moves_to_def image_gone_def)
next
  case (deregister i)
  show ?thesis unfolding deregister(1) by (rule owned_ends [OF assms(1)]) auto
qed

lemma owned_clean:
  assumes "owned s" and "clean_step p s t"
  shows "owned t"
  using assms(2)
proof cases
  case clean_lock
  show ?thesis
    unfolding clean_lock(1) by (rule owned_step [OF assms(1), of _ p "Some Listing"]) (auto simp: moves_to_def)
qed (hypsubst, (erule owned_stays [OF _ assms(1)] | rule owned_ends [OF assms(1)]); auto)+

lemma keepingD:
  assumes "keeping s" and "ready s i = Some ids"
  shows "i \<in> images s" and "registered_volumes s i = Some ids" and "v \<in> set ids \<Longrightarrow> v \<in> volumes s"
    and "v \<in> set ids \<Longrightarrow> hex_digest v"
  using assms unfolding keeping_def depends_on_def by blast+

lemma keeping_step:
  assumes "keeping s"
    and "\<And>i ids. ready t i = Some ids \<Longrightarrow> ready s i = Some ids \<Longrightarrow> depends_on s i ids \<Longrightarrow> depends_on t i ids"
    and "\<And>v i ids. ready s i = Some ids \<Longrightarrow> v \<in> set ids \<Longrightarrow> hex_digest v \<Longrightarrow> v \<in> volumes s \<Longrightarrow> v \<in> volumes t"
    and "\<And>i ids. ready t i = Some ids \<Longrightarrow> ready s i \<noteq> Some ids \<Longrightarrow>
       depends_on t i ids \<and> set ids \<subseteq> volumes t \<and> (\<forall>v \<in> set ids. hex_digest v)"
  shows "keeping t"
  unfolding keeping_def
proof (intro allI impI)
  fix i ids
  assume t: "ready t i = Some ids"
  show "depends_on t i ids \<and> set ids \<subseteq> volumes t \<and> (\<forall>v \<in> set ids. hex_digest v)"
  proof (cases "ready s i = Some ids")
    case True
    from keepingD [OF assms(1) this] have "depends_on s i ids" by (simp add: depends_on_def)
    then show ?thesis using assms(2) [OF t True] assms(3) [OF True] keepingD(3,4) [OF assms(1) True] by auto
  qed (rule assms(4) [OF t])
qed

lemma keeping_moves [simp]: "keeping (moves_to u p c) = keeping u" "keeping (ends u p) = keeping u"
  by (simp_all add: keeping_def depends_on_def moves_to_def ends_def)

lemma keeping_image_gone [simp]: "keeping s \<Longrightarrow> keeping (image_gone s i)"
  by (rule keeping_step) (auto simp: image_gone_def depends_on_def split: if_splits)

lemma keeping_create:
  assumes "keeping s" and "informed s" and "owned s" and "create_step p s t"
  shows "keeping t"
  using assms(4)
proof cases
  case (layer_start i ids n v)
  then show ?thesis by (auto intro: keeping_step [OF assms(1)] simp: depends_on_def)
next
  case (layer_done i ids n v)
  have "\<not> hex_digest v" using knows_left [OF assms(2) layer_done(2)] by (auto dest: not_hex)
  then show ?thesis unfolding layer_done(1) by (auto intro: keeping_step [OF assms(1)] simp: depends_on_def)
next
  case (layer_failed i ids n v)
  then have "volumes s - {ids ! n} = volumes s"
    using knows_left [OF assms(2) layer_failed(2)] by (auto simp: layers_left_def Cons_nth_drop_Suc [symmetric])
  then show ?thesis unfolding layer_failed(1) using assms(1) by simp
next
  case (image_made i ids)
  then show ?thesis by (auto intro: keeping_step [OF assms(1)] simp: depends_on_def)
next
  case (register_done i ids)
  have "ready s i = None" "i \<in> images s \<Longrightarrow> made_of s i = Some ids"
    using ownedD(1,2) [OF assms(3) register_done(2)] by auto
  moreover have "set ids \<subseteq> volumes s" "\<forall>v \<in> set ids. hex_digest v"
    using knows_left [OF assms(2) register_done(2)] by simp_all
  ultimately show ?thesis
    unfolding register_done(1) keeping_moves
    by (intro keeping_step [OF assms(1)]) (auto simp: depends_on_def split: if_splits)
qed (use assms(1) in simp_all)

lemma keeping_delete:
  assumes "keeping s" and "owned s" and "delete_step p s t"
  shows "keeping t"
  using assms(3)
proof cases
  case (deregister i)
  have "ready s i = None" using ownedD(1) [OF assms(2) deregister(2)] by simp
  then show ?thesis
    unfolding deregister(1) by simp (rule keeping_step [OF assms(1)]; auto simp: depends_on_def)
qed (use assms(1) in simp_all)

lemma keeping_clean:
  assumes "keeping s" and "informed s" and "clean_step p s t"
  shows "keeping t"
  using assms(3)
proof cases
  case (mark v vs)
  have "v \<notin> set ids" if "ready s i = Some ids" for i ids
    using knows_left [OF assms(2) mark(2)] keepingD(1,2) [OF assms(1) that] by (auto simp: depends_on_def)
  then show ?thesis
    unfolding mark(1) by simp (rule keeping_step [OF assms(1)]; auto simp: depends_on_def)
next
  case (collect v)
  then show ?thesis
    unfolding collect(1) by simp (rule keeping_step [OF assms(1)]; auto simp: depends_on_def dest: not_hex)
qed (use assms(1) in simp_all)

section \<open>Reachable states\<close>

lemma reachable_exclusion: "reachable serial s \<Longrightarrow> exclusion s"
proof (induction rule: reachable.induct)
  case empty_store
  show ?case by (simp add: exclusion_def)
qed (auto intro: exclusion_create exclusion_delete exclusion_clean exclusion_ends)

lemma reachable_informed: "reachable serial s \<Longrightarrow> informed s"
proof (induction rule: reachable.induct)
  case empty_store
  show ?case by (simp add: informed_def)
next
  case (crash s p)
  then show ?case by (auto intro!: informed_ends)
next
  case (create s p t)
  then show ?case using informed_create reachable_exclusion by blast
next
  case (clean s p t)
  then show ?case using informed_clean reachable_exclusion by blast
qed (auto intro: informed_delete)

lemma reachable_owned_keeping: "reachable serial s \<Longrightarrow> serial \<Longrightarrow> owned s \<and> keeping s"
proof (induction rule: reachable.induct)
  case empty_store
  show ?case by (simp add: owned_def keeping_def)
next
  case (create s p t)
  then show ?case using owned_create keeping_create reachable_informed by blast
next
  case (delete s p t)
  then show ?case using owned_delete keeping_delete by blast
next
  case (clean s p t)
  then show ?case using owned_clean keeping_clean reachable_informed by blast
next
  case (crash s p)
  then show ?case by (auto intro: owned_ends)
qed

text \<open>C2: whatever creations, deletions and cleans run at the same time, and whichever of them are
  killed, an image whose creation returned has all its volumes in the store, unmarked, as long as the
  caller runs one operation at a time on an image.\<close>

theorem ready_images_keep_volumes:
  assumes "reachable True s" and "ready s i = Some ids"
  shows "i \<in> images s \<and> registered_volumes s i = Some ids \<and> set ids \<subseteq> volumes s"
proof -
  have "keeping s" using reachable_owned_keeping [OF assms(1)] by simp
  from keepingD [OF this assms(2)] show ?thesis by blast
qed

section \<open>Runs\<close>

text \<open>One creation without a fault, from its start to the image: what the runs below are made of.\<close>

lemma create_run:
  assumes "reachable serial s" and "processes s p = None" and "i \<notin> images s" and "hex_digest v" and "v \<notin> volumes s"
    and "\<And>q c. processes s q = Some c \<Longrightarrow> \<not> holds_exclusive c \<and> v \<notin> layer_locks c \<and> (serial \<longrightarrow> works_on c \<noteq> Some i)"
  shows "reachable serial (moves_to (s\<lparr>volumes := insert v (volumes s - {v @ ''-incomplete-''}), images := insert i (images s),
     made_of := (made_of s)(i \<mapsto> [v])\<rparr>) p (Registering i [v]))"
proof -
  have free: "\<not> holds_exclusive c" "v \<notin> layer_locks c" if "processes s q = Some c" for q c
    using assms(6) [OF that] by blast+
  have own: "serial \<longrightarrow> serial_start s p (moves_to s p (Checked i [v]))"
    using assms(6) by (auto simp: serial_start_def free_id_def moves_to_def)
  have late: "serial \<longrightarrow> serial_start u p t" if "processes u p \<noteq> None" for u t
    using that by (auto simp: serial_start_def)
  note reach = reachable.create [where p = p, OF _ _ late]
  let ?s1 = "moves_to s p (Checked i [v])"
  have "reachable serial ?s1"
    by (rule reachable.create [OF assms(1) create_start own]) (use assms(2-4) in auto)
  then have "reachable serial (moves_to ?s1 p (Descending i [v] (length [v])))"
    by (rule reach [OF _ create_lock]) (use free in \<open>auto split: if_splits\<close>)
  then have "reachable serial (moves_to s p (Descending i [v] (Suc 0)))" by (simp add: moves_to_def)
  then have "reachable serial (moves_to (moves_to s p (Descending i [v] (Suc 0))) p (Descending i [v] 0))"
    by (rule reach [OF _ layer_lock]) (use free assms(5) in \<open>auto simp: moves_to_def split: if_splits\<close>)
  then have "reachable serial (moves_to s p (Descending i [v] 0))" by (simp add: moves_to_def)
  then have "reachable serial (moves_to (moves_to s p (Descending i [v] 0)) p (Ascending i [v] 0))"
    by (rule reach [OF _ no_more_layers]) auto
  then have s3: "reachable serial (moves_to s p (Ascending i [v] 0))" (is "reachable serial ?s3") by (simp add: moves_to_def)
  let ?t = "v @ ''-incomplete-''"
  from s3 have "reachable serial (moves_to (?s3\<lparr>volumes := insert ?t (volumes ?s3)\<rparr>) p (Unpacking i [v] 0 ?t))" (is "reachable serial ?s4")
    by (rule reach [OF _ layer_start]) (auto simp: incomplete_def)
  then have "reachable serial (moves_to (?s4\<lparr>volumes := insert ([v] ! 0) (volumes ?s4 - {?t})\<rparr>) p (Ascending i [v] (Suc 0)))" (is "reachable serial ?s5")
    by (rule reach [OF _ layer_done]) auto
  then have "reachable serial (moves_to (?s5\<lparr>images := insert i (images ?s5), made_of := (made_of ?s5)(i \<mapsto> [v])\<rparr>) p (Registering i [v]))"
    by (rule reach [OF _ image_made]) (use assms(3) in \<open>auto simp: moves_to_def\<close>)
  then show ?thesis by (simp add: moves_to_def insert_Diff_if)
qed

theorem ready_images_keep_volumes_witness:
  "\<exists>s. reachable True s \<and> ready s ''i'' = Some [''a''] \<and> registered_volumes s ''i'' = Some [''a''] \<and> ''a'' \<in> volumes s"
proof -
  let ?s = "\<lparr>volumes = {''a''}, images = {''i''}, registered_volumes = (\<lambda>_. None), made_of = [''i'' \<mapsto> [''a'']], ready = (\<lambda>_. None),
    processes = [0 \<mapsto> Registering ''i'' [''a'']]\<rparr>"
  have "reachable True ?s"
    using create_run [OF empty_store, of 0 "''i''" "''a''"] by (simp add: moves_to_def hex_digest_def)
  then have r: "reachable True (ends (?s\<lparr>registered_volumes := (registered_volumes ?s)(''i'' \<mapsto> [''a'']),
      ready := (if ''i'' \<in> images ?s then (ready ?s)(''i'' := made_of ?s ''i'') else ready ?s)\<rparr>) 0)" (is "reachable True ?t")
    by (rule reachable.create [where p = 0, OF _ register_done]) (simp_all add: serial_start_def)
  moreover have "ready ?t ''i'' = Some [''a'']" by (simp add: ends_def)
  ultimately show ?thesis using ready_images_keep_volumes [OF r, of "''i''" "[''a'']"] by (intro exI [of _ ?t]) auto
qed

lemma then_create: "reachable False s \<Longrightarrow> create_step p s t \<Longrightarrow> t = u \<Longrightarrow> reachable False u"
  and then_delete: "reachable False s \<Longrightarrow> delete_step p s t \<Longrightarrow> t = u \<Longrightarrow> reachable False u"
  and then_clean: "reachable False s \<Longrightarrow> clean_step p s t \<Longrightarrow> t = u \<Longrightarrow> reachable False u"
  by (auto intro: reachable.intros)

text \<open>C32: without that condition it can lose them: a creation of an image that is deleted and created
  again while the first creation has not yet registered its volumes ends with the wrong volumes
  registered, and the next clean removes those that the image is mounted from.\<close>

theorem concurrent_creations_lose_volumes:
  "\<exists>s. reachable False s \<and> (\<forall>p. processes s p = None) \<and>
     ''i'' \<in> images s \<and> ready s ''i'' = Some [''b''] \<and> ''b'' \<notin> volumes s"
proof -
  define st where "st vs is reg made rdy ps = \<lparr>volumes = vs, images = is, registered_volumes = reg, made_of = made, ready = rdy,
    processes = ps\<rparr>" for vs "is" reg made rdy and ps :: "nat \<rightharpoonup> point"
  note [simp] = st_def point_defs hex_digest_def fun_eq_iff is_gc_def removeDependencyFromOrphanList_filter
  let ?A = "Registering ''i'' [''a'']" and ?B = "Registering ''i'' [''b'']" and ?none = "\<lambda>_. None" and ?ab = "{''a'', ''b''}"
  let ?clean = "st ?ab {''i''} [''i'' \<mapsto> [''a'']] [''i'' \<mapsto> [''b'']] [''i'' \<mapsto> [''b'']]"
  have "reachable False (st {''a''} {''i''} ?none [''i'' \<mapsto> [''a'']] ?none [0 \<mapsto> ?A])"
    using create_run [OF empty_store, of 0 "''i''" "''a''" False] by simp
  then have "reachable False (st {''a''} {} ?none ?none ?none [0 \<mapsto> ?A, 1 \<mapsto> Deregistering ''i''])"
    by (rule then_delete [OF _ delete_image [of _ 1 "''i''"]]) auto
  then have "reachable False (st {''a''} {} ?none ?none ?none [0 \<mapsto> ?A])" (is "reachable False ?a")
    by (rule then_delete [OF _ deregister [of _ 1 "''i''"]]) auto
  then have "reachable False (moves_to (?a\<lparr>volumes := insert ''b'' (volumes ?a - {''b'' @ ''-incomplete-''}),
      images := insert ''i'' (images ?a), made_of := (made_of ?a)(''i'' \<mapsto> [''b''])\<rparr>) 1 ?B)"
    by (rule create_run) (auto split: if_splits)
  then have "reachable False (st ?ab {''i''} ?none [''i'' \<mapsto> [''b'']] ?none [0 \<mapsto> ?A, 1 \<mapsto> ?B])"
    by (simp add: insert_commute)
  then have "reachable False (st ?ab {''i''} [''i'' \<mapsto> [''b'']] [''i'' \<mapsto> [''b'']] [''i'' \<mapsto> [''b'']] [0 \<mapsto> ?A])"
    by (rule then_create [OF _ register_done [of _ 1 "''i''" "[''b'']"]]) auto
  then have "reachable False (?clean ?none)"
    by (rule then_create [OF _ register_done [of _ 0 "''i''" "[''a'']"]]) auto
  then have "reachable False (?clean [2 \<mapsto> Listing])"
    by (rule then_clean [OF _ clean_lock [of _ 2]]) auto
  then have "reachable False (?clean [2 \<mapsto> Subtracting [''a'', ''b''] [''i'']])"
    by (rule then_clean [OF _ clean_list [of _ 2 "[''a'', ''b'']" "[''i'']"]]) auto
  then have "reachable False (?clean [2 \<mapsto> Subtracting [''b''] []])"
    by (rule then_clean [OF _ subtract [of _ 2 "[''a'', ''b'']" "''i''" "[]" "[''a'']"]]) auto
  then have "reachable False (?clean [2 \<mapsto> Marking [''b'']])"
    by (rule then_clean [OF _ subtracted [of _ 2 "[''b'']"]]) auto
  then have "reachable False (st {''a'', ''gc.b''} {''i''} [''i'' \<mapsto> [''a'']] [''i'' \<mapsto> [''b'']] [''i'' \<mapsto> [''b'']] [2 \<mapsto> Marking []])"
    by (rule then_clean [OF _ mark [of _ 2 "''b''" "[]"]]) auto
  then have "reachable False (ends (st {''a'', ''gc.b''} {''i''} [''i'' \<mapsto> [''a'']] [''i'' \<mapsto> [''b'']] [''i'' \<mapsto> [''b'']] [2 \<mapsto> Marking []]) 2)"
    (is "reachable False ?last") by (rule reachable.crash)
  then show ?thesis by (intro exI [of _ ?last]) auto
qed

section \<open>No deadlock\<close>

text \<open>
  A layer's identifier is the digest of the layers below it too, so it has the same place in every
  image: \<open>place\<close>. A creation waits only for layers below those it has locked.
\<close>

fun layers_of :: "point \<Rightarrow> string list" where
  "layers_of (Descending i ids n) = ids"
| "layers_of (Ascending i ids n) = ids"
| "layers_of (Unpacking i ids n t) = ids"
| "layers_of _ = []"

definition chained :: "(string \<Rightarrow> nat) \<Rightarrow> store \<Rightarrow> bool" where
  "chained place s \<longleftrightarrow> (\<forall>p c j. processes s p = Some c \<longrightarrow> j < length (layers_of c) \<longrightarrow> place (layers_of c ! j) = j)"

lemma reachable_finite: "reachable serial s \<Longrightarrow> finite (volumes s) \<and> finite (images s)"
  by (induction rule: reachable.induct)
    (auto elim!: create_step.cases delete_step.cases clean_step.cases simp: point_defs)

definition can_step :: "store \<Rightarrow> nat \<Rightarrow> bool" where
  "can_step s q \<longleftrightarrow> processes s q \<noteq> None \<and> (\<exists>t. (create_step q s t \<or> delete_step q s t \<or> clean_step q s t) \<and>
     processes t q \<noteq> processes s q)"

lemma can_stepI:
  assumes "processes s q = Some c" and "create_step q s t \<or> delete_step q s t \<or> clean_step q s t" and "processes t q \<noteq> Some c"
  shows "can_step s q"
  using assms unfolding can_step_def by auto

lemma can_step_unless_waiting:
  assumes "processes s p = Some c" and "knows s c" and "finite (volumes s)" and "finite (images s)"
    and "\<And>i ids. c \<noteq> Checked i ids" and "\<And>i ids n. c \<noteq> Descending i ids (Suc n)"
  shows "can_step s p"
proof (cases c)
  case (Descending i ids n)
  then have "processes s p = Some (Descending i ids 0)" using assms(1,6) by (cases n) auto
  from no_more_layers [OF this] show ?thesis by (intro can_stepI [OF assms(1)]) (auto simp: Descending)
next
  case (Ascending i ids n)
  show ?thesis
  proof (cases "n < length ids")
    case True
    have "incomplete (ids ! n) (ids ! n @ ''-incomplete-'')" by (simp add: incomplete_def)
    from layer_start [OF assms(1) [unfolded Ascending] True this]
    show ?thesis by (intro can_stepI [OF assms(1)]) (auto simp: Ascending)
  next
    case False
    then have "n = length ids" using assms(2) Ascending by (simp add: layers_left_def)
    from image_failed [OF assms(1) [unfolded Ascending this]]
    show ?thesis by (intro can_stepI [OF assms(1)]) auto
  qed
next
  case (Unpacking i ids n v)
  from layer_failed [OF assms(1) [unfolded this]] show ?thesis by (intro can_stepI [OF assms(1)]) auto
next
  case (Registering i ids)
  from register_failed [OF assms(1) [unfolded this]] show ?thesis by (intro can_stepI [OF assms(1)]) auto
next
  case (Deregistering i)
  from deregister [OF assms(1) [unfolded this]] show ?thesis by (intro can_stepI [OF assms(1)]) auto
next
  case Listing
  have "finite {v \<in> volumes s. \<not> is_gc v}" using assms(3) by simp
  from finite_list [OF this] finite_list [OF assms(4)] obtain vs js
    where "set vs = {v \<in> volumes s. \<not> is_gc v}" "set js = images s" by blast
  from clean_list [OF assms(1) [unfolded Listing] this] show ?thesis
    by (intro can_stepI [OF assms(1)]) (auto simp: Listing)
next
  case (Subtracting vs js)
  show ?thesis
  proof (cases js)
    case Nil
    from subtracted [OF assms(1) [unfolded Subtracting Nil]] show ?thesis
      by (intro can_stepI [OF assms(1)]) (auto simp: Subtracting)
  next
    case (Cons i is1)
    show ?thesis
    proof (cases "registered_volumes s i")
      case None
      from subtract_failed [OF assms(1) [unfolded Subtracting Cons]] show ?thesis
        by (intro can_stepI [OF assms(1)]) (auto simp: Subtracting)
    next
      case (Some ids)
      from subtract [OF assms(1) [unfolded Subtracting Cons] this] show ?thesis
        by (intro can_stepI [OF assms(1)]) (auto simp: Subtracting Cons)
    qed
  qed
next
  case (Marking vs)
  show ?thesis
  proof (cases vs)
    case Nil
    from clean_unlock [OF assms(1) [unfolded Marking Nil]] show ?thesis
      by (intro can_stepI [OF assms(1)]) (auto simp: Marking)
  next
    case (Cons v vs1)
    from mark_failed [OF assms(1) [unfolded Marking Cons]] show ?thesis
      by (intro can_stepI [OF assms(1)]) (auto simp: Marking Cons)
  qed
next
  case Collecting
  from clean_end [OF assms(1) [unfolded this]] show ?thesis by (intro can_stepI [OF assms(1)]) auto
qed (use assms(5) in auto)

lemma holds_layer:
  assumes "v \<in> layer_locks c"
  obtains j where "j < length (layers_of c)" "v = layers_of c ! j"
    and "\<And>i ids n. c = Descending i ids n \<Longrightarrow> n \<le> j"
proof -
  have "v \<in> set (drop n ids) \<Longrightarrow> \<exists>j. j < length ids \<and> v = ids ! j \<and> n \<le> j" for n and ids :: "string list"
  proof -
    assume "v \<in> set (drop n ids)"
    then obtain k where "k < length (drop n ids)" "v = drop n ids ! k" by (auto simp: in_set_conv_nth)
    then show "\<exists>j. j < length ids \<and> v = ids ! j \<and> n \<le> j" by (intro exI [of _ "n + k"]) auto
  qed
  then show thesis using assms that by (cases c) fastforce+
qed

text \<open>C8: the locks never block all the processes at work: as long as there is one, some process can
  go on to its next call. The layers of the creations need only have their places, as digests of the
  layers below them have.\<close>

theorem some_process_can_step:
  assumes "reachable serial s" and "processes s p = Some c" and "chained place s"
  shows "\<exists>q. can_step s q"
proof (rule ccontr)
  assume none: "\<nexists>q. can_step s q"
  note informed = knows_left [OF reachable_informed [OF assms(1)]]
  have waiting: "(\<exists>i ids. d = Checked i ids) \<or> (\<exists>i ids n. d = Descending i ids (Suc n))" if "processes s q = Some d" for q d
    using can_step_unless_waiting [OF that informed [OF that]] reachable_finite [OF assms(1)] none by blast
  then have "\<not> holds_exclusive d" if "processes s q = Some d" for q d using that by fastforce
  then have "can_step s q" if "processes s q = Some (Checked i ids)" for q i ids
    using create_lock [OF that] by (intro can_stepI [OF that]) auto
  with none waiting have descending: "\<exists>i ids n. d = Descending i ids (Suc n)" if "processes s q = Some d" for q d
    using that by blast
  have "\<not> processes s q = Some (Descending i ids (Suc n))" for q i ids n
  proof (induction n arbitrary: q i ids rule: less_induct)
    case (less n)
    show ?case
    proof
      assume q: "processes s q = Some (Descending i ids (Suc n))"
      from none have "\<not> can_step s q" by blast
      then have "ids ! n \<notin> volumes s" and "\<not> (\<forall>r d. processes s r = Some d \<longrightarrow> ids ! n \<notin> layer_locks d)"
        using can_stepI [OF q] layer_there [OF q] layer_lock [OF q] by fastforce+
      then obtain r d where r: "processes s r = Some d" and held: "ids ! n \<in> layer_locks d" by blast
      from descending [OF r] obtain i' ids' m where d: "d = Descending i' ids' (Suc m)" by blast
      obtain j where j: "j < length ids'" "ids ! n = ids' ! j" "Suc m \<le> j"
        using holds_layer [OF held] d by (metis layers_of.simps(1))
      have "n < length ids" using informed [OF q] by (simp add: layers_left_def)
      then have "place (ids ! n) = n" using assms(3) q by (force simp: chained_def)
      moreover have "place (ids' ! j) = j" using assms(3) r j(1) d by (force simp: chained_def)
      ultimately have "m < n" using j(2,3) by simp
      from less.IH [OF this] r d show False by blast
    qed
  qed
  with descending assms(2) show False by blast
qed

theorem some_process_can_step_witness:
  "\<exists>s q. reachable True s \<and> processes s 0 = Some (Registering ''i'' [''a'']) \<and> can_step s q"
proof -
  let ?s = "\<lparr>volumes = {''a''}, images = {''i''}, registered_volumes = (\<lambda>_. None), made_of = [''i'' \<mapsto> [''a'']], ready = (\<lambda>_. None),
    processes = [0 \<mapsto> Registering ''i'' [''a'']]\<rparr>"
  have r: "reachable True ?s"
    using create_run [OF empty_store, of 0 "''i''" "''a''"] by (simp add: moves_to_def hex_digest_def)
  have "chained (\<lambda>_. 0) ?s" by (simp add: chained_def)
  from some_process_can_step [OF r _ this, of 0] r show ?thesis by (intro exI [of _ ?s]) simp
qed

end
