(* ===== verification/Protocol_Calls.thy ===== *)
theory Protocol_Calls
  imports Protocol Volume_Operations
begin

text \<open>
  The code of a clean as steps of the protocol. \<open>represents\<close> relates a machine to a state of
  \<open>Protocol\<close>: the same volumes, images and registered volumes. \<open>clean_at\<close> says that a cleaner can have come
  to a point whose state the machine represents; every operation of the collector takes it
  from one point to the next, whichever of its calls fail.
\<close>

section \<open>Machines and states of the protocol\<close>

definition represents :: "driver \<Rightarrow> world \<Rightarrow> store \<Rightarrow> bool" where
  "represents d w s \<longleftrightarrow> volumes s = volume_names d w \<and> images s = image_names d w \<and>
     (\<forall>i. CHR ''/'' \<notin> set i \<longrightarrow> registered_volumes s i = recorded (dependencies_dir (drv_store d)) w (image_ref i))"

definition content :: "driver \<Rightarrow> path \<Rightarrow> bool" where
  "content d q \<longleftrightarrow> (\<exists>x. q = comps (drv_store d) @ [VolumesDirName, x] \<or> q = comps (drv_store d) @ [ImageDirName, x] \<or>
     q = comps (dependencies_dir (drv_store d)) @ [x])"

lemma content_volume [simp]: "content d (comps (drv_store d) @ [VolumesDirName, x])"
  unfolding content_def by blast

lemma represents_frozen:
  assumes "frozen (content d) w w'" and "represents d w s"
  shows "represents d w' s"
proof -
  have "nodes w' (comps (drv_store d) @ [VolumesDirName, x]) = nodes w (comps (drv_store d) @ [VolumesDirName, x])"
    and "nodes w' (comps (drv_store d) @ [ImageDirName, x]) = nodes w (comps (drv_store d) @ [ImageDirName, x])"
    and "nodes w' (comps (dependencies_dir (drv_store d)) @ [x]) = nodes w (comps (dependencies_dir (drv_store d)) @ [x])" for x
    using assms(1) unfolding frozen_def content_def by blast+
  then show ?thesis using assms(2) by (simp add: represents_def volume_names_def image_names_def recorded_def)
qed

lemma represents_nodes: "nodes w' = nodes w \<Longrightarrow> represents d w s \<Longrightarrow> represents d w' s"
  by (erule represents_frozen [rotated]) (simp add: frozen_def)

lemma represents_moves [simp]:
  "represents d w (moves_to s p c) = represents d w s" "represents d w (ends s p) = represents d w s"
  by (simp_all add: represents_def point_defs)

definition clean_at :: "driver \<Rightarrow> store \<Rightarrow> nat \<Rightarrow> point \<Rightarrow> world \<Rightarrow> bool" where
  "clean_at d s p c w \<longleftrightarrow> store_ok d w \<and>
     (\<exists>t. (clean_step p)\<^sup>*\<^sup>* s t \<and> processes t p = Some c \<and> represents d w t)"

lemma clean_atI:
  "store_ok d w \<Longrightarrow> (clean_step p)\<^sup>*\<^sup>* s t \<Longrightarrow> processes t p = Some c \<Longrightarrow> represents d w t \<Longrightarrow> clean_at d s p c w"
  unfolding clean_at_def by blast

lemma clean_at_step:
  assumes "clean_at d s p c w" and "store_ok d w'"
    and "\<And>t. processes t p = Some c \<Longrightarrow> represents d w t \<Longrightarrow>
      \<exists>u. (clean_step p)\<^sup>*\<^sup>* t u \<and> processes u p = Some c' \<and> represents d w' u"
  shows "clean_at d s p c' w'"
  using assms unfolding clean_at_def by (blast intro: rtranclp_trans)

text \<open>A step that the machine has no part in.\<close>

lemma clean_at_moves:
  assumes "clean_at d s p c w" and "\<And>t. processes t p = Some c \<Longrightarrow> clean_step p t (moves_to t p c')"
  shows "clean_at d s p c' w"
proof (rule clean_at_step [OF assms(1)])
  show "store_ok d w" using assms(1) by (simp add: clean_at_def)
  show "\<exists>u. (clean_step p)\<^sup>*\<^sup>* t u \<and> processes u p = Some c' \<and> represents d w u"
    if "processes t p = Some c" and "represents d w t" for t
    using assms(2) [OF that(1)] that(2) by (intro exI [of _ "moves_to t p c'"]) (auto simp: moves_to_def represents_def)
qed

lemma on_tree_clean_at [simp]: "on_tree (clean_at d s p c)"
proof -
  have "clean_at d s p c w'" if "clean_at d s p c w" and n: "nodes w' = nodes w" for w w'
    using that(1) on_treeD [OF on_tree_store_ok _ n] represents_nodes [OF n] unfolding clean_at_def by blast
  then show ?thesis by (simp add: on_tree_def)
qed

lemma keeps_clean_at:
  assumes "keeps (store_ok d) m" and "abs_path (drv_store d) \<Longrightarrow> (\<And>v. keeps (frozen (content d) v) m)"
  shows "keeps (clean_at d s p c) m"
proof (rule keepsI)
  fix w r w'
  assume at: "clean_at d s p c w" and run: "m w = (r, w')"
  then have ok: "store_ok d w" by (simp add: clean_at_def)
  have "frozen (content d) w w'" using keepsD [OF assms(2) [OF store_ok_abs [OF ok]] frozen_refl run] .
  moreover have "store_ok d w'" using assms(1) ok run by (rule keepsD)
  ultimately show "clean_at d s p c w'" using at represents_frozen by (auto simp: clean_at_def)
qed

lemma misses_content:
  assumes "abs_path (drv_store d)"
  shows "safe_name c \<Longrightarrow> misses (content d) (link_path d c)"
    and "plain_name x \<Longrightarrow> misses_below (content d) (link_path d x)"
    and "plain_name x \<Longrightarrow> misses_below (content d) (volumeMetaFilePath d x)"
  using link_path_facts [OF assms, of c] link_path_plain [OF assms, of x] meta_path_facts [OF assms, of x]
    dependencies_dir_facts(2) [OF assms]
  by (auto simp: misses_def misses_below_def content_def LinksDirName_def store_names split: if_splits)

lemma keeps_clean_links [keeps_intro]:
  "safe_name c \<Longrightarrow> keeps (clean_at d s p pt) (os_remove (link_path d c))"
  "plain_name i \<Longrightarrow> keeps (clean_at d s p pt) (os_remove (volumeMetaFilePath d i))"
  "plain_name i \<Longrightarrow> plain_name j \<Longrightarrow> keeps (clean_at d s p pt) (os_rename (link_path d i) (link_path d j))"
  "plain_name i \<Longrightarrow> plain_name j \<Longrightarrow> keeps (clean_at d s p pt) (os_rename (volumeMetaFilePath d i) (volumeMetaFilePath d j))"
  "safe_name c \<Longrightarrow> plain_name j \<Longrightarrow> keeps (clean_at d s p pt) (os_symlink (volume_path d j) (link_path d c))"
  by (rule keeps_clean_at; intro keeps_intro misses_content; simp add: misses_content misses_below_misses)+

lemma hoare_clean_read_link:
  assumes "plain_name i"
  shows "hoare (clean_at d s p pt) (os_read_file (link_path d i)) (\<lambda>c w. clean_at d s p pt w \<and> safe_name c) (\<lambda>_. clean_at d s p pt)"
  by (rule hoare_read_link [OF assms]) (simp_all add: clean_at_def)

lemma represents_volumes:
  assumes "abs_path (drv_store d)" and "\<And>q. content d q \<Longrightarrow> \<not> in_volumes d q \<Longrightarrow> nodes w' q = nodes w q" and "represents d w t"
  shows "represents d w' (t\<lparr>volumes := volume_names d w'\<rparr>)"
proof -
  have "nodes w' (comps (drv_store d) @ [ImageDirName, x]) = nodes w (comps (drv_store d) @ [ImageDirName, x])"
    and "nodes w' (comps (dependencies_dir (drv_store d)) @ [x]) = nodes w (comps (dependencies_dir (drv_store d)) @ [x])" for x
    by (rule assms(2); auto simp: content_def in_volumes_def dependencies_dir_facts(2) [OF assms(1)] store_names)+
  then show ?thesis using assms(3) by (simp add: represents_def image_names_def recorded_def)
qed

section \<open>Destroying\<close>

lemma keeps_clean_remove_all:
  assumes i: "plain_name i" and gc: "is_gc i"
  shows "keeps (clean_at d s p Collecting) (os_remove_all (volume_path d i))"
proof (rule keepsI)
  fix w r w'
  assume at: "clean_at d s p Collecting w" and run: "os_remove_all (volume_path d i) w = (r, w')"
  then have ok: "store_ok d w" by (simp add: clean_at_def)
  let ?v = "comps (drv_store d) @ [VolumesDirName, i]"
  have v: "at_path w (volume_path d i) = ?v" using volume_path_facts [OF store_ok_abs [OF ok] i] by simp
  have others: "nodes w' q = nodes w q" if "content d q" "q \<noteq> ?v" for q
  proof -
    have "\<not> prefix ?v q"
      using that dependencies_dir_facts(2) [OF store_ok_abs [OF ok]] by (auto simp: content_def store_names)
    with v run touches_remove_all show ?thesis unfolding touches_def by metis
  qed
  have "nodes w' ?v = nodes w ?v \<or> nodes w' ?v = None" using os_remove_all_cases [OF run] by (auto split: if_splits)
  then have "i \<in> volume_names d w' \<longrightarrow> i \<in> volume_names d w" by (auto simp: volume_names_def)
  moreover have "x \<in> volume_names d w' \<longleftrightarrow> x \<in> volume_names d w" if "x \<noteq> i" for x
    using others [of "comps (drv_store d) @ [VolumesDirName, x]"] that by (simp add: volume_names_def)
  ultimately have V: "volume_names d w' = volume_names d w \<or> volume_names d w' = volume_names d w - {i}"
    by (cases "i \<in> volume_names d w'") (simp_all add: set_eq_iff, metis+)
  show "clean_at d s p Collecting w'"
  proof (rule clean_at_step [OF at])
    show "store_ok d w'" using keepsD [OF keeps_ok_remove_all [OF i] ok run] .
    fix t
    assume t: "processes t p = Some Collecting" "represents d w t"
    have r: "represents d w' (t\<lparr>volumes := volume_names d w'\<rparr>)"
      by (rule represents_volumes [OF store_ok_abs [OF ok] others t(2)]) (auto simp: in_volumes_def)
    show "\<exists>u. (clean_step p)\<^sup>*\<^sup>* t u \<and> processes u p = Some Collecting \<and> represents d w' u"
    proof (cases "volume_names d w' = volume_names d w")
      case True
      with r t(2) have "represents d w' t" by (simp add: represents_def)
      with t(1) show ?thesis by blast
    next
      case False
      with V t(2) have "volumes t - {i} = volume_names d w'" by (simp add: represents_def)
      with collect [OF t(1) gc] r show ?thesis
        by (intro exI [of _ "moves_to (t\<lparr>volumes := volumes t - {i}\<rparr>) p Collecting"]) (auto simp: moves_to_def represents_def)
    qed
  qed
qed

lemma keeps_clean_DestroyVolume:
  assumes i: "plain_name i" and gc: "is_gc i"
  shows "keeps (clean_at d s p Collecting) (DestroyVolume d i)"
proof -
  have "keeps (clean_at d s p Collecting) (removeVolumeLink d (link_path d i))"
    unfolding removeVolumeLink_def Let_def
    by (rule keeps_checked_value [OF hoare_clean_read_link [OF i]]) (intro keeps_intro plain_safe [OF i]; simp)+
  then show ?thesis
    unfolding DestroyVolume_def by (intro keeps_intro keeps_clean_remove_all assms)
qed

interpretation collecting: collectable "store_gc d" "clean_at d s p Collecting" "\<lambda>_. False" "\<lambda>x. plain_name x \<and> is_gc x"
  for d s p
proof unfold_locales
  show "plain_name x \<and> is_gc x \<Longrightarrow> keeps (clean_at d s p Collecting) (vd_destroy (gc_driver (store_gc d)) x)" for x
    by (simp add: store_gc_def overlay_volumes_def keeps_clean_DestroyVolume)
  show "hoare (clean_at d s p Collecting) (vd_volumes (gc_driver (store_gc d)))
      (\<lambda>vs w. clean_at d s p Collecting w \<and> (\<forall>x \<in> set vs. is_gc x \<longrightarrow> plain_name x \<and> is_gc x)) (\<lambda>_. clean_at d s p Collecting)"
  proof (rule hoareI)
    fix w vs w'
    assume at: "clean_at d s p Collecting w" and run: "vd_volumes (gc_driver (store_gc d)) w = (Inr vs, w')"
    then have ok: "store_ok d w" and vs: "Volumes d w = (Inr vs, w')"
      by (simp_all add: clean_at_def store_gc_def overlay_volumes_def)
    note l = Volumes_Inr [OF store_ok_abs [OF ok] vs]
    have "plain_name x" if "x \<in> set vs" for x using that ok by (auto simp: l(3) volume_names_def store_ok_def)
    with on_treeD [OF on_tree_clean_at at l(1)]
    show "clean_at d s p Collecting w' \<and> (\<forall>x \<in> set vs. is_gc x \<longrightarrow> plain_name x \<and> is_gc x)" by blast
  next
    fix w e w'
    assume "clean_at d s p Collecting w" and "vd_volumes (gc_driver (store_gc d)) w = (Inl e, w')"
    moreover have "keeps (clean_at d s p Collecting) (Volumes d)" by (intro keeps_intro) simp
    ultimately show "clean_at d s p Collecting w'" by (auto simp: store_gc_def overlay_volumes_def dest: keepsD)
  qed
qed simp

section \<open>Marking\<close>

lemma clean_at_skip: "clean_at d s p (Marking (v # vs)) w \<Longrightarrow> clean_at d s p (Marking vs) w"
  by (erule clean_at_moves) (rule mark_failed)

lemma clean_rename_marked:
  assumes v: "plain_name v" and at: "clean_at d s p (Marking (v # vs)) w"
    and run: "os_rename (volume_path d v) (volume_path d (gc_name v)) w = (r, w')"
  shows "clean_at d s p (Marking vs) w'"
proof -
  have ok: "store_ok d w" using at by (simp add: clean_at_def)
  have g: "plain_name (gc_name v)" "v \<noteq> gc_name v" using plain_gc_name [OF v] by (simp_all add: gc_name_def)
  let ?a = "comps (drv_store d) @ [VolumesDirName, v]" and ?b = "comps (drv_store d) @ [VolumesDirName, gc_name v]"
  have ab: "at_path w (volume_path d v) = ?a" "at_path w (volume_path d (gc_name v)) = ?b"
    using volume_path_facts [OF store_ok_abs [OF ok]] v g(1) by simp_all
  have np: "\<not> prefix ?a ?b" "\<not> prefix ?b ?a" using g(2) by auto
  from os_rename_cases [OF run, unfolded ab] g(2) consider fs where "w' = w\<lparr>faults := fs\<rparr>"
    | n fs where "nodes w ?a = Some n" "w' = move ?a ?b (w\<lparr>faults := fs\<rparr>)" by auto
  then show ?thesis
  proof cases
    case 1
    then show ?thesis using on_treeD [OF on_tree_clean_at clean_at_skip [OF at]] by simp
  next
    case 2
    have moved: "nodes w' q = (if prefix ?b q then nodes w (?a @ drop (length ?b) q) else if prefix ?a q then None else nodes w q)" for q
      using nodes_move [OF np] by (simp add: 2(2))
    have V: "volume_names d w' = insert (gc_name v) (volume_names d w - {v})"
      using 2(1) g(2) by (auto simp: volume_names_def moved)
    show ?thesis
    proof (rule clean_at_step [OF at])
      show "store_ok d w'" using keepsD [OF keeps_ok_rename_volume [OF v g(1)] ok run] .
      fix t
      assume t: "processes t p = Some (Marking (v # vs))" "represents d w t"
      have "represents d w' (t\<lparr>volumes := volume_names d w'\<rparr>)"
        by (rule represents_volumes [OF store_ok_abs [OF ok] _ t(2)])
          (use dependencies_dir_facts(2) [OF store_ok_abs [OF ok]] in \<open>auto simp: content_def in_volumes_def moved store_names\<close>)
      moreover have "insert (''gc.'' @ v) (volumes t - {v}) = volume_names d w'"
        using t(2) by (simp add: V gc_name_def represents_def)
      ultimately show "\<exists>u. (clean_step p)\<^sup>*\<^sup>* t u \<and> processes u p = Some (Marking vs) \<and> represents d w' u"
        using mark [OF t(1)]
        by (intro exI [of _ "moves_to (t\<lparr>volumes := insert (''gc.'' @ v) (volumes t - {v})\<rparr>) p (Marking vs)"])
          (auto simp: moves_to_def represents_def)
    qed
  qed
qed

lemma hoare_keeps_then:
  assumes "keeps I m" and "\<And>w. I w \<Longrightarrow> J w" and "\<And>x. hoare I (k x) (\<lambda>_. J) (\<lambda>_. J)"
    and "\<And>e. hoare I (h e) (\<lambda>_. J) (\<lambda>_. J)"
  shows "hoare I (checked m h k) (\<lambda>_. J) (\<lambda>_. J)"
  by (rule hoare_checked [OF assms(1) [unfolded keeps_def]]) (use assms(2-4) in simp_all)

lemma clean_MoveVolume:
  assumes v: "plain_name v"
  shows "hoare (clean_at d s p (Marking (v # vs))) (MoveVolume d (volume_path d v) (volume_path d (gc_name v)))
    (\<lambda>_. clean_at d s p (Marking vs)) (\<lambda>_. clean_at d s p (Marking vs))"
    (is "hoare ?I _ (\<lambda>_. ?J) (\<lambda>_. ?J)")
proof (cases "abs_path (drv_store d)")
  case True
  have stop: "hoare ?I (wrapping m e) (\<lambda>_. ?J) (\<lambda>_. ?J)" for m e and x :: unit
    using clean_at_skip by (auto simp: hoare_def wrapping_def)
  have "hoare ?I (os_rename (volume_path d v) (volume_path d (gc_name v))) (\<lambda>_. ?J) (\<lambda>_. ?J)"
    using clean_rename_marked [OF v] by (intro hoareI) blast+
  then have last: "hoare ?I (checked (os_rename (volume_path d v) (volume_path d (gc_name v)))
      (\<lambda>e. if is_exist e then ret () else wrapping ''moving volume'' e) ret) (\<lambda>_. ?J) (\<lambda>_. ?J)"
    by (rule hoare_checked) (auto simp: hoare_def wrapping_def)
  have rest: "hoare ?I (checked (os_rename (link_path d v) (link_path d (gc_name v))) (wrapping ''moving link file'') (\<lambda>_.
      checked (os_remove (link_path d c)) (wrapping ''removing symlink'') (\<lambda>_.
      checked (os_symlink (volume_path d (gc_name v)) (link_path d c)) (wrapping ''updating volume symlink'') (\<lambda>_.
      checked (os_rename (volume_path d v) (volume_path d (gc_name v)))
        (\<lambda>e. if is_exist e then ret () else wrapping ''moving volume'' e) ret)))) (\<lambda>_. ?J) (\<lambda>_. ?J)" if "safe_name c" for c
    using that v plain_gc_name [OF v] by (intro hoare_keeps_then keeps_clean_links last stop) (auto intro: clean_at_skip)
  have read: "hoare ?I (checked (os_read_file (link_path d v)) (wrapping m) (\<lambda>c.
      checked (os_rename (link_path d v) (link_path d (gc_name v))) (wrapping ''moving link file'') (\<lambda>_.
      checked (os_remove (link_path d c)) (wrapping ''removing symlink'') (\<lambda>_.
      checked (os_symlink (volume_path d (gc_name v)) (link_path d c)) (wrapping ''updating volume symlink'') (\<lambda>_.
      checked (os_rename (volume_path d v) (volume_path d (gc_name v)))
        (\<lambda>e. if is_exist e then ret () else wrapping ''moving volume'' e) ret))))) (\<lambda>_. ?J) (\<lambda>_. ?J)" for m
  proof (rule hoare_checked [OF hoare_clean_read_link [OF v]])
    show "hoare (\<lambda>w. ?I w \<and> safe_name c) (checked (os_rename (link_path d v) (link_path d (gc_name v))) (wrapping ''moving link file'') (\<lambda>_.
      checked (os_remove (link_path d c)) (wrapping ''removing symlink'') (\<lambda>_.
      checked (os_symlink (volume_path d (gc_name v)) (link_path d c)) (wrapping ''updating volume symlink'') (\<lambda>_.
      checked (os_rename (volume_path d v) (volume_path d (gc_name v)))
        (\<lambda>e. if is_exist e then ret () else wrapping ''moving volume'' e) ret)))) (\<lambda>_. ?J) (\<lambda>_. ?J)" for c
      using rest [of c] by (cases "safe_name c") (auto simp: hoare_def)
  qed (use stop clean_at_skip in auto)
  show ?thesis
    unfolding MoveVolume_def Let_def volume_path_base [OF True v] volume_path_base [OF True plain_gc_name [OF v]] if_missing_def
    by (rule hoare_keeps_then) (use read stop in \<open>auto intro: keeps_intro clean_at_skip\<close>)
next
  case False
  then show ?thesis by (auto simp: hoare_def clean_at_def store_ok_def)
qed

lemma clean_MarkVolumeArtifacts:
  assumes v: "plain_name v" and clean: "renames_cleanly d v"
  shows "hoare (clean_at d s p (Marking (v # vs))) (MarkVolumeArtifacts d v)
    (\<lambda>_. clean_at d s p (Marking vs)) (\<lambda>_. clean_at d s p (Marking vs))"
    (is "hoare ?I _ (\<lambda>_. ?J) (\<lambda>_. ?J)")
proof -
  have path: "hoare ?I (VolumePath d v) (\<lambda>q w. ?I w \<and> q = volume_path d v) (\<lambda>_. ?I)"
    unfolding VolumePath_def
    by (rule hoare_checked [where R = "\<lambda>_. ?I" and F = "\<lambda>_. ?I"])
      (use keeps_on_tree(1) [OF on_tree_clean_at] in \<open>auto simp: keeps_def\<close>)
  have "keeps ?J (moveVolumeMeta d v (gc_name v))"
    unfolding moveVolumeMeta_def by (intro keeps_clean_links v plain_gc_name)
  then have rest: "hoare ?J (checked (moveVolumeMeta d v (gc_name v)) (wrapping m) ret) (\<lambda>_. ?J) (\<lambda>_. ?J)" for m
    using keeps_intro by (auto simp flip: keeps_def intro: keeps_intro)
  have moved: "hoare ?I (checked (MoveVolume d (volume_path d v) (volume_path d (gc_name v))) throw (\<lambda>_.
      checked (moveVolumeMeta d v (gc_name v)) (wrapping ''renaming volume metadata'') ret)) (\<lambda>_. ?J) (\<lambda>_. ?J)"
    by (rule hoare_checked [OF clean_MoveVolume [OF v]]) (use rest in auto)
  show ?thesis
    unfolding MarkVolumeArtifacts_def Let_def
  proof (rule hoare_checked [OF path])
    show "hoare (\<lambda>w. ?I w \<and> q = volume_path d v)
       (checked (MoveVolume d q (replace_first q v (gc_name v))) throw (\<lambda>_.
        checked (moveVolumeMeta d v (gc_name v)) (wrapping ''renaming volume metadata'') ret)) (\<lambda>_. ?J) (\<lambda>_. ?J)" for q
      using moved clean by (cases "q = volume_path d v") (auto simp: renames_cleanly_def hoare_def)
  qed (use clean_at_skip in \<open>auto simp: hoare_def wrapping_def\<close>)
qed

lemma clean_at_skip_all: "clean_at d s p (Marking vs) w \<Longrightarrow> clean_at d s p (Marking []) w"
  by (induction vs) (auto dest: clean_at_skip)

lemma clean_mark_all:
  assumes "\<forall>v \<in> set vs. plain_name v \<and> renames_cleanly d v"
  shows "hoare (clean_at d s p (Marking vs)) (mark_all (MarkVolumeArtifacts d) vs n)
    (\<lambda>_. clean_at d s p (Marking [])) (\<lambda>_. clean_at d s p (Marking []))"
  using assms
proof (induction vs arbitrary: n)
  case (Cons v vs)
  then have v: "plain_name v" "renames_cleanly d v" and vs: "\<forall>v \<in> set vs. plain_name v \<and> renames_cleanly d v" by simp_all
  note rest = Cons.IH [OF vs]
  show ?case
    unfolding mark_all.simps by (rule hoare_checked [OF clean_MarkVolumeArtifacts [OF v]]) (use rest in \<open>auto dest: clean_at_skip_all\<close>)
qed simp

lemma clean_MarkUnused:
  assumes "\<forall>v \<in> set vs. plain_name v \<and> renames_cleanly d v"
  shows "hoare (clean_at d s p (Marking vs)) (MarkUnused (store_gc d) vs)
    (\<lambda>_. clean_at d s p (Marking [])) (\<lambda>_. clean_at d s p (Marking []))"
  unfolding MarkUnused_def store_gc_def overlay_volumes_def
  by (simp, rule hoare_checked [OF clean_mark_all [OF assms]]) (auto simp: hoare_def)

section \<open>Listing\<close>

lemma moves_again [simp]: "moves_to (moves_to t p c) p c' = moves_to t p c'"
  by (simp add: moves_to_def)

lemma moves_parts [simp]:
  "processes (moves_to t p c) p = Some c" "registered_volumes (moves_to t p c) = registered_volumes t"
  "volumes (moves_to t p c) = volumes t" "images (moves_to t p c) = images t"
  by (simp_all add: moves_to_def)

lemma clean_subtracting:
  assumes "processes t p = Some (Subtracting us js)" and "\<forall>i \<in> set js. registered_volumes t i \<noteq> None"
  shows "(clean_step p)\<^sup>*\<^sup>* t (moves_to t p (Marking
    (filter (\<lambda>x. \<forall>i \<in> set js. \<forall>ids. registered_volumes t i = Some ids \<longrightarrow> x \<notin> set ids) us)))"
  using assms
proof (induction js arbitrary: t us)
  case Nil
  then show ?case using subtracted [of t p us] by simp
next
  case (Cons i js)
  then obtain ids where ids: "registered_volumes t i = Some ids" by auto
  let ?us = "filter (\<lambda>x. x \<notin> set ids) us"
  have "clean_step p t (moves_to t p (Subtracting ?us js))"
    using subtract [OF Cons.prems(1) ids] by (simp add: removeDependencyFromOrphanList_filter)
  moreover from Cons.IH [of "moves_to t p (Subtracting ?us js)" ?us] Cons.prems(2)
  have "(clean_step p)\<^sup>*\<^sup>* (moves_to t p (Subtracting ?us js)) (moves_to t p (Marking
    (filter (\<lambda>x. \<forall>i \<in> set js. \<forall>ids. registered_volumes t i = Some ids \<longrightarrow> x \<notin> set ids) ?us)))" by simp
  ultimately show ?case using ids by (auto simp: conj_commute intro: converse_rtranclp_into_rtranclp)
qed

lemma finite_names: "finite {x. nodes w (q @ [x]) \<noteq> None}"
  using child_names_iff [of _ w q] by (metis (mono_tags, lifting) List.finite_set mem_Collect_eq rev_finite_subset subsetI)

definition clean_ready :: "driver \<Rightarrow> world \<Rightarrow> bool" where
  "clean_ready d w \<longleftrightarrow> dependency_files_regular d w \<and> (\<forall>x \<in> volume_names d w. renames_cleanly d x) \<and>
     (\<forall>i \<in> image_names d w. CHR ''/'' \<notin> set i)"

lemma clean_UnusedVolumes:
  "hoare (\<lambda>w. clean_at d s p Listing w \<and> clean_ready d w) (UnusedVolumes (store_gc d))
    (\<lambda>vs w. clean_at d s p (Marking vs) w \<and> (\<forall>v \<in> set vs. plain_name v \<and> renames_cleanly d v))
    (\<lambda>_. clean_at d s p (Marking []))"
proof (rule hoareI)
  fix w vs w'
  assume pre: "clean_at d s p Listing w \<and> clean_ready d w" and run: "UnusedVolumes (store_gc d) w = (Inr vs, w')"
  then have ok: "store_ok d w" by (simp add: clean_at_def)
  have f: "set vs = {x \<in> volume_names d w. \<not> is_gc x \<and> x \<notin> used_by_images d w}" "nodes w' = nodes w"
    "\<forall>i \<in> image_names d w. recorded (dependencies_dir (drv_store d)) w (image_ref i) \<noteq> None"
    using UnusedVolumes_facts [OF store_ok_abs [OF ok] _ run] pre by (auto simp: clean_ready_def)
  have "finite {x \<in> volume_names d w. \<not> is_gc x \<and> x \<in> used_by_images d w}" and "finite (image_names d w)"
    using finite_names [of w "comps (drv_store d) @ [VolumesDirName]"] finite_names [of w "comps (drv_store d) @ [ImageDirName]"]
    by (simp_all add: volume_names_def image_names_def)
  then obtain us js where us: "set us = {x \<in> volume_names d w. \<not> is_gc x \<and> x \<in> used_by_images d w}"
    and js: "set js = image_names d w" by (meson finite_list)
  have "clean_at d s p (Marking vs) w'"
  proof (rule clean_at_step [OF conjunct1 [OF pre]])
    show "store_ok d w'" using on_treeD [OF on_tree_store_ok ok f(2)] .
    fix t
    assume t: "processes t p = Some Listing" "represents d w t"
    then have rep: "volumes t = volume_names d w" "images t = image_names d w"
      "\<And>i. i \<in> image_names d w \<Longrightarrow> registered_volumes t i = recorded (dependencies_dir (drv_store d)) w (image_ref i)"
      using pre by (simp_all add: represents_def clean_ready_def)
    have "clean_step p t (moves_to t p (Subtracting (vs @ us) js))"
      by (rule clean_list [OF t(1)]) (use f(1) us js in \<open>auto simp: rep\<close>)
    moreover have "filter (\<lambda>x. \<forall>i \<in> set js. \<forall>ids. registered_volumes t i = Some ids \<longrightarrow> x \<notin> set ids) (vs @ us) = vs"
    proof -
      have "filter (\<lambda>x. \<forall>i \<in> set js. \<forall>ids. registered_volumes t i = Some ids \<longrightarrow> x \<notin> set ids) (vs @ us) =
          filter (\<lambda>x. x \<notin> used_by_images d w) (vs @ us)"
        by (rule filter_cong) (auto simp: rep js used_by_images_def)
      also have "\<dots> = vs" using f(1) us by (auto simp: filter_empty_conv)
      finally show ?thesis .
    qed
    moreover have "(clean_step p)\<^sup>*\<^sup>* (moves_to t p (Subtracting (vs @ us) js)) (moves_to t p (Marking
        (filter (\<lambda>x. \<forall>i \<in> set js. \<forall>ids. registered_volumes t i = Some ids \<longrightarrow> x \<notin> set ids) (vs @ us))))"
      using clean_subtracting [of "moves_to t p (Subtracting (vs @ us) js)" p "vs @ us" js] f(3) by (simp add: rep js)
    ultimately have "(clean_step p)\<^sup>*\<^sup>* t (moves_to t p (Marking vs))"
      by (simp add: converse_rtranclp_into_rtranclp)
    then show "\<exists>u. (clean_step p)\<^sup>*\<^sup>* t u \<and> processes u p = Some (Marking vs) \<and> represents d w' u"
      using represents_nodes [OF f(2) t(2)] by (intro exI [of _ "moves_to t p (Marking vs)"]) simp
  qed
  moreover have "plain_name x" if "x \<in> volume_names d w" for x using that ok by (auto simp: volume_names_def store_ok_def)
  ultimately show "clean_at d s p (Marking vs) w' \<and> (\<forall>v \<in> set vs. plain_name v \<and> renames_cleanly d v)"
    using pre f(1) by (auto simp: clean_ready_def)
next
  fix w e w'
  assume pre: "clean_at d s p Listing w \<and> clean_ready d w" and run: "UnusedVolumes (store_gc d) w = (Inl e, w')"
  have "keeps (clean_at d s p Listing) (UnusedVolumes (store_gc d))"
    unfolding UnusedVolumes_def store_gc_def overlay_volumes_def Let_def by simp (intro keeps_intro on_tree_clean_at)
  then have "clean_at d s p Listing w'" using pre run by (auto dest: keepsD)
  then show "clean_at d s p (Marking []) w'" by (rule clean_at_moves) (rule list_failed)
qed

section \<open>A clean\<close>

lemma clean_collection:
  "hoare (\<lambda>w. clean_at d s p Listing w \<and> clean_ready d w)
     (observed (UnusedVolumes (store_gc d)) (\<lambda>r. logged (MarkUnused (store_gc d) (case r of Inl _ \<Rightarrow> [] | Inr vs \<Rightarrow> vs))
       (logged (Unlock l f) (Collect (store_gc d)))))
     (\<lambda>_. clean_at d s p Collecting) (\<lambda>_. clean_at d s p Collecting)"
proof -
  have unlocked: "clean_at d s p (Marking []) w \<Longrightarrow> clean_at d s p Collecting w" for w
    by (erule clean_at_moves) (rule clean_unlock)
  have "keeps (clean_at d s p Collecting) (logged (Unlock l f) (Collect (store_gc d)))"
    by (intro keeps_intro collecting.keeps_Collect) simp
  then have last: "hoare (clean_at d s p (Marking [])) (logged (Unlock l f) (Collect (store_gc d)))
      (\<lambda>_. clean_at d s p Collecting) (\<lambda>_. clean_at d s p Collecting)"
    unfolding keeps_def by (rule hoare_weaken) (use unlocked in auto)
  have marked: "hoare (clean_at d s p (Marking vs)) (logged (MarkUnused (store_gc d) vs)
      (logged (Unlock l f) (Collect (store_gc d)))) (\<lambda>_. clean_at d s p Collecting) (\<lambda>_. clean_at d s p Collecting)"
    if "\<forall>v \<in> set vs. plain_name v \<and> renames_cleanly d v" for vs
    unfolding logged_def [of "MarkUnused (store_gc d) vs"]
    by (rule hoare_checked [OF clean_MarkUnused [OF that]]) (use last unlocked in auto)
  show ?thesis
    unfolding observed_def
  proof (rule hoare_checked [OF clean_UnusedVolumes])
    fix vs
    show "hoare (\<lambda>w. clean_at d s p (Marking vs) w \<and> (\<forall>v \<in> set vs. plain_name v \<and> renames_cleanly d v))
        (logged (MarkUnused (store_gc d) (case Inr vs of Inl _ \<Rightarrow> [] | Inr vs \<Rightarrow> vs)) (logged (Unlock l f) (Collect (store_gc d))))
        (\<lambda>_. clean_at d s p Collecting) (\<lambda>_. clean_at d s p Collecting)"
      using marked [of vs] by (cases "\<forall>v \<in> set vs. plain_name v \<and> renames_cleanly d v") (auto simp: hoare_def)
  next
    show "hoare (clean_at d s p (Marking [])) (logged (MarkUnused (store_gc d) (case Inl e of Inl _ \<Rightarrow> [] | Inr vs \<Rightarrow> vs))
        (logged (Unlock l f) (Collect (store_gc d)))) (\<lambda>_. clean_at d s p Collecting) (\<lambda>_. clean_at d s p Collecting)" for e
      using marked [of "[]"] by simp
  qed (use unlocked in auto)
qed

text \<open>C3: a clean of the code is a clean of the protocol: whatever the collector's calls return, the store it
  leaves is one that steps of a cleaner of \<open>Protocol\<close> lead to, from a state in which nobody holds the global lock.\<close>

theorem collectGarbage_refines_protocol:
  assumes "store_ok d w" and "clean_ready d w" and "represents d w s" and "processes s p = None"
    and "\<forall>q c. processes s q = Some c \<longrightarrow> \<not> holds_shared c \<and> \<not> holds_exclusive c"
    and "collectGarbage (store_cleaner d) w = (r, w')"
  shows "\<exists>t. (clean_step p)\<^sup>*\<^sup>* s t \<and> processes t p = None \<and> represents d w' t"
proof -
  let ?l = "clean_locksmith (drv_store d)"
  have abs: "abs_path (drv_store d)" using store_ok_abs [OF assms(1)] .
  have lock: "keeps (frozen (outside_locks d) w) (LockWithTimeout ?l k x)" for k x
    by (intro keeps_intro abs) (simp_all add: clean_locksmith_def WithMetrics_def NewExclusiveFileSystem_def)
  have "content d q \<Longrightarrow> outside_locks d q" for q
    using dependencies_dir_facts(2) [OF abs] by (auto simp: content_def)
  then have still: "represents d v s" if "frozen (outside_locks d) w v" for v
    using represents_frozen [OF _ assms(3), of v] that by (simp add: frozen_def)
  have locked: "clean_at d s p Listing v \<and> clean_ready d v" if fr: "frozen (outside_locks d) w v" for v
  proof
    have "store_ok d v" using assms(1) fr by (auto simp: store_ok_def frozen_def LinksDirName_def store_names)
    moreover have "clean_step p s (moves_to s p Listing)" using assms(4,5) by (rule clean_lock)
    ultimately show "clean_at d s p Listing v"
      using still [OF fr] by (intro clean_atI [of _ _ _ _ "moves_to s p Listing"]) auto
    show "clean_ready d v"
      using assms(2) off_locks_names [OF abs fr] by (simp add: clean_ready_def)
  qed
  obtain r1 v where l: "LockWithTimeout ?l GlobalLockKey (getLockTimeout (store_cleaner d)) w = (r1, v)" by fastforce
  have fr: "frozen (outside_locks d) w v" using keepsD [OF lock frozen_refl l] .
  show ?thesis
  proof (cases r1)
    case (Inl e)
    then have "w' = v" using assms(6) l
      by (auto simp: collectGarbage_def store_cleaner_def checked_def split: if_splits)
    with still [OF fr] assms(4) show ?thesis by blast
  next
    case (Inr f)
    have "observed (UnusedVolumes (store_gc d)) (\<lambda>r. logged (MarkUnused (store_gc d) (case r of Inl _ \<Rightarrow> [] | Inr vs \<Rightarrow> vs))
       (logged (Unlock ?l f) (Collect (store_gc d)))) v = (r, w')"
      using assms(6) l Inr by (simp add: collectGarbage_def store_cleaner_def gc_collector_def Let_def checked_def)
    with clean_collection [of d s p ?l f] locked [OF fr] have "clean_at d s p Collecting w'"
      by (cases r) (auto simp: hoare_def)
    then obtain t where "(clean_step p)\<^sup>*\<^sup>* s t" "processes t p = Some Collecting" "represents d w' t"
      by (auto simp: clean_at_def)
    with clean_end [of t p] show ?thesis
      by (intro exI [of _ "ends t p"]) (auto simp: ends_def represents_def)
  qed
qed

lemma volume_names_listed: "volume_names d w = set (child_names w (comps (drv_store d) @ [VolumesDirName]))"
  by (simp add: volume_names_def set_eq_iff child_names_iff)

definition protocol_sample :: store where
  "protocol_sample = \<lparr>volumes = {''a'', ''b''}, images = {''i''},
     registered_volumes = (\<lambda>i. recorded (dependencies_dir (drv_store sample_driver)) sample_store (image_ref i)),
     made_of = (\<lambda>_. None), ready = (\<lambda>_. None), processes = (\<lambda>_. None)\<rparr>"

theorem collectGarbage_refines_protocol_witness:
  "\<exists>t. (clean_step 0)\<^sup>*\<^sup>* protocol_sample t \<and> processes t 0 = None \<and> volumes t = {''a''} \<and>
     represents sample_driver (snd (collectGarbage (store_cleaner sample_driver) sample_store)) t"
proof -
  let ?w = "snd (collectGarbage (store_cleaner sample_driver) sample_store)"
  have ok: "store_ok sample_driver sample_store" and ready: "clean_ready sample_driver sample_store"
    using sample_collectable by (auto simp: collectable_store_def guarded_def clean_ready_def sample_names(1))
  have rep: "represents sample_driver sample_store protocol_sample"
    by (simp add: represents_def protocol_sample_def sample_names)
  have "child_names ?w (comps (drv_store sample_driver) @ [VolumesDirName]) = [''a'']" by code_simp
  then have left: "volume_names sample_driver ?w = {''a''}"
    unfolding volume_names_listed by (simp only: list.set)
  obtain t where "(clean_step 0)\<^sup>*\<^sup>* protocol_sample t" "processes t 0 = None" "represents sample_driver ?w t"
    using collectGarbage_refines_protocol [OF ok ready rep _ _ surjective_pairing, of 0] by (auto simp: protocol_sample_def)
  with left show ?thesis by (auto simp: represents_def)
qed

text \<open>So what \<open>Protocol\<close> shows of reachable states holds of the machine after a clean.\<close>

lemma clean_steps_reachable:
  "(clean_step p)\<^sup>*\<^sup>* s t \<Longrightarrow> reachable serial s \<Longrightarrow> reachable serial t"
  by (induction rule: rtranclp_induct) (auto intro: reachable.clean)

end
