(* ===== verification/Protocol_Deletion.thy ===== *)
theory Protocol_Deletion
  imports Protocol_Calls Image_Facts
begin

text \<open>
  The code of a deletion as steps of the protocol: what can change while the image is
  destroyed (\<open>only_image_gone\<close>), and the two steps of a deleter that the whole amounts to.
\<close>

section \<open>What a deletion can change\<close>

definition only_image_gone :: "driver \<Rightarrow> string \<Rightarrow> world \<Rightarrow> world \<Rightarrow> bool" where
  "only_image_gone d i v w \<longleftrightarrow> (let p = comps (drv_store d) @ [ImageDirName, i] in
     (\<forall>q. content d q \<longrightarrow> q \<noteq> p \<longrightarrow> nodes w q = nodes v q) \<and> (nodes w p = nodes v p \<or> nodes w p = None))"

lemma on_tree_only_image_gone [simp]: "on_tree (only_image_gone d i v)"
  by (simp add: on_tree_def only_image_gone_def)

lemma keeps_gone_remove_all:
  assumes "is_rooted p"
    and "\<And>q. content d q \<Longrightarrow> q \<noteq> comps (drv_store d) @ [ImageDirName, i] \<Longrightarrow> \<not> prefix (comps p) q"
  shows "keeps (only_image_gone d i v) (os_remove_all p)"
proof (rule keepsI)
  fix w r w'
  assume I: "only_image_gone d i v w" and run: "os_remove_all p w = (r, w')"
  have at: "at_path w p = comps p" using assms(1) by (simp add: at_path_def)
  let ?i = "comps (drv_store d) @ [ImageDirName, i]"
  have removed: "nodes w' q = nodes w q \<or> nodes w' q = None" for q
    using os_remove_all_cases [OF run] by (auto split: if_splits)
  show "only_image_gone d i v w'"
    unfolding only_image_gone_def Let_def
  proof (intro conjI allI impI)
    fix q
    assume q: "content d q" "q \<noteq> ?i"
    have "nodes w' q = nodes w q"
      using touches_remove_all [of p] run assms(2) [OF q] at unfolding touches_def by metis
    then show "nodes w' q = nodes v q" using I q by (simp add: only_image_gone_def Let_def)
  next
    show "nodes w' ?i = nodes v ?i \<or> nodes w' ?i = None"
      using I removed [of ?i] by (auto simp: only_image_gone_def Let_def)
  qed
qed

lemma keeps_only_unmount: "on_tree I \<Longrightarrow> keeps I (rootful_unmount p)"
proof -
  assume "on_tree I"
  then have "keeps I (rootful_loop n err p)" for n err
    by (induction n arbitrary: err) (auto intro!: keeps_intro)
  then show ?thesis by (simp add: rootful_unmount_def)
qed

lemma keeps_GetProjectID:
  assumes "on_tree I"
  shows "keeps I (GetProjectID p)"
proof -
  have "keeps I (c_opendir p)" "keeps I (ioctl_getxattr x)" for x
    unfolding c_opendir_def ioctl_getxattr_def sysfail_def
    by (rule keepsI, erule faulty_cases;
        auto intro: on_treeD [OF assms] split: sum.splits option.splits node.splits if_splits)+
  then show ?thesis unfolding GetProjectID_def openDir_def by (intro keeps_intro)
qed

lemma keeps_gone_DestroyImage:
  assumes abs: "abs_path (drv_store d)" and i: "plain_name i" and um: "unmounter d = rootful_unmount"
  shows "keeps (only_image_gone d i v) (DestroyImage d (imagePath (drv_store d) i))"
proof -
  note p = imagePath_comps [OF abs i]
  have image: "keeps (only_image_gone d i v) (os_remove_all (imagePath (drv_store d) i))"
    by (rule keeps_gone_remove_all)
      (use p in \<open>auto simp: content_def dependencies_dir_facts(2) [OF abs] store_names\<close>)
  have ids: "keeps (only_image_gone d i v) (os_remove_all (filepath_join [drv_store d, IDDir, itoa_w32 n]))" for n
  proof (rule keeps_gone_remove_all)
    have "plain_name (itoa_w32 n)" by (simp add: itoa_w32_def itoa_def plain_name_digits)
    with join_comps [OF abs, of "[IDDir, itoa_w32 n]"]
    have q: "is_rooted (filepath_join [drv_store d, IDDir, itoa_w32 n])"
      "comps (filepath_join [drv_store d, IDDir, itoa_w32 n]) = comps (drv_store d) @ [IDDir, itoa_w32 n]"
      by (simp_all add: IDDir_def plain_name_def)
    have other: "IDDir \<noteq> VolumesDirName" "IDDir \<noteq> ImageDirName" "IDDir \<noteq> MetaDirName" by (simp_all add: IDDir_def store_names)
    show "is_rooted (filepath_join [drv_store d, IDDir, itoa_w32 n])" by (rule q(1))
    show "content d r \<Longrightarrow> \<not> prefix (comps (filepath_join [drv_store d, IDDir, itoa_w32 n])) r" for r
      using other by (auto simp: q(2) content_def dependencies_dir_facts(2) [OF abs])
  qed
  show ?thesis
    unfolding DestroyImage_def ensureImageDestroyed_def um Let_def
    by (intro keeps_intro keeps_GetProjectID keeps_only_unmount image ids) simp_all
qed

section \<open>A deletion\<close>



end
