(* ===== verification/Relogger.thy ===== *)
theory Relogger
  imports Groot_Types Json
begin

text \<open>
  Package \<open>relogger\<close>: what a child process logs is written to the logger of its parent. The logger is the
  list of the calls it has received. \<open>chug\<close>, of the lager module, is a parameter: it gives the entries of
  a text, one for each line. The goroutine that runs it ends when the text does and the channel
  to it carries the entries in order, so the model goes through its result.

  A map of Go is an association list, and \<open>None\<close> is the nil map, which can be read but not written to.
\<close>

section \<open>Entries and calls\<close>

datatype log_value = Decoded json | Time int

type_synonym log_data = "(string \<times> log_value) list"

record LogEntry =
  Timestamp :: int
  LogLevel :: int
  Message :: string
  Error :: "goerr option"
  Data :: "log_data option"

record Entry =
  IsLager :: bool
  Log :: LogEntry

definition DEBUG :: int where "DEBUG = 0"
definition INFO :: int where "INFO = 1"
definition ERROR :: int where "ERROR = 2"
definition FATAL :: int where "FATAL = 3"

datatype log_call =
    DebugCall string log_data
  | InfoCall string log_data
  | ErrorCall string "goerr option" log_data

definition call :: "log_call \<Rightarrow> (log_call list, unit) io" where
  "call c = (\<lambda>logs. (Inr (), logs @ [c]))"

section \<open>The relay\<close>

definition relog :: "LogEntry \<Rightarrow> (log_call list, unit) io" where
  "relog entry =
     (case Data entry of
        None \<Rightarrow> throw (Panic ''assignment to entry in nil map'')
      | Some m \<Rightarrow>
          let data = AList.update ''original_timestamp'' (Time (Timestamp entry)) m in
          if LogLevel entry = DEBUG then call (DebugCall (Message entry) data)
          else if LogLevel entry = INFO then call (InfoCall (Message entry) data)
          else if LogLevel entry = ERROR \<or> LogLevel entry = FATAL then call (ErrorCall (Message entry) (Error entry) data)
          else ret ())"

definition RelogStream :: "(string \<Rightarrow> Entry list) \<Rightarrow> string \<Rightarrow> (log_call list, unit) io" where
  "RelogStream chug input = for_each (chug input) (\<lambda>entry. if IsLager entry then relog (Log entry) else ret ())"

definition RelogBytes :: "(string \<Rightarrow> Entry list) \<Rightarrow> string \<Rightarrow> (log_call list, unit) io" where
  "RelogBytes chug source = RelogStream chug source"

definition Write :: "(string \<Rightarrow> Entry list) \<Rightarrow> string \<Rightarrow> (log_call list, nat) io" where
  "Write chug data = checked (RelogBytes chug data) throw (\<lambda>_. ret (length data))"

section \<open>What reaches the logger\<close>

definition writable :: "Entry \<Rightarrow> bool" where
  "writable e \<longleftrightarrow> \<not> IsLager e \<or> Data (Log e) \<noteq> None"

text \<open>The calls that an entry amounts to: fatal lines become errors, and unknown levels are dropped.\<close>

definition calls_of :: "Entry \<Rightarrow> log_call list" where
  "calls_of e =
     (case (IsLager e, Data (Log e)) of
        (True, Some m) \<Rightarrow>
          let l = Log e; data = AList.update ''original_timestamp'' (Time (Timestamp l)) m in
          if LogLevel l = 0 then [DebugCall (Message l) data]
          else if LogLevel l = 1 then [InfoCall (Message l) data]
          else if LogLevel l \<in> {2, 3} then [ErrorCall (Message l) (Error l) data]
          else []
      | _ \<Rightarrow> [])"

lemma relog_entry:
  "(if IsLager e then relog (Log e) else ret ()) logs =
     (if writable e then Inr () else Inl (Panic ''assignment to entry in nil map''), logs @ calls_of e)"
  by (auto simp: relog_def writable_def calls_of_def call_def Let_def DEBUG_def INFO_def ERROR_def FATAL_def
      split: option.splits)

lemma for_each_writable:
  assumes "\<And>e logs. f e logs = (if writable e then Inr () else Inl (Panic s), logs @ calls_of e)"
  shows "for_each es f logs = (if list_all writable es then Inr () else Inl (Panic s), logs @ concat (map calls_of (takeWhile writable es)))"
proof (induction es arbitrary: logs)
  case (Cons e es)
  have "calls_of e = []" if "\<not> writable e"
    using that by (auto simp: writable_def calls_of_def)
  then show ?case using assms [of e logs] by (simp add: checked_def Cons.IH)
qed simp

text \<open>A write to the relay gives the logger, in order, the lager lines of the text with the time they were
  logged at, and reports the whole text as written; at the first lager line without data the relay panics.\<close>

theorem Write_relays:
  "Write chug data logs =
     (if list_all writable (chug data) then Inr (length data) else Inl (Panic ''assignment to entry in nil map''),
      logs @ concat (map calls_of (takeWhile writable (chug data))))"
  by (simp add: Write_def RelogBytes_def RelogStream_def checked_def for_each_writable [OF relog_entry])

section \<open>Pieces of a stream\<close>

text \<open>
  A process writes to a pipe, and the relay is given what was read from it, piece by piece. \<open>chug\<close> goes
  by lines: what follows a line end does not depend on what is before it.
\<close>

definition line_end :: string where "line_end = [CHR 0x0A]"

definition line_wise :: "(string \<Rightarrow> Entry list) \<Rightarrow> bool" where
  "line_wise chug \<longleftrightarrow> chug [] = [] \<and> (\<forall>a b. chug (a @ line_end @ b) = chug (a @ line_end) @ chug b)"

definition whole_lines :: "string \<Rightarrow> bool" where
  "whole_lines s \<longleftrightarrow> s = [] \<or> (\<exists>t. s = t @ line_end)"

lemma line_wise_append: "line_wise chug \<Longrightarrow> whole_lines a \<Longrightarrow> chug (a @ b) = chug a @ chug b"
  by (auto simp: line_wise_def whole_lines_def)

definition WriteAll :: "(string \<Rightarrow> Entry list) \<Rightarrow> string list \<Rightarrow> (log_call list, unit) io" where
  "WriteAll chug pieces = for_each pieces (\<lambda>p. checked (Write chug p) throw (\<lambda>_. ret ()))"

lemma WriteAll_relays:
  assumes "line_wise chug" and "\<forall>p \<in> set (butlast pieces). whole_lines p"
  shows "WriteAll chug pieces logs =
     (if list_all writable (chug (concat pieces)) then Inr () else Inl (Panic ''assignment to entry in nil map''),
      logs @ concat (map calls_of (takeWhile writable (chug (concat pieces)))))"
  using assms(2)
proof (induction pieces arbitrary: logs)
  case Nil
  then show ?case using assms(1) by (simp add: WriteAll_def line_wise_def)
next
  case (Cons p ps)
  have "chug (p @ concat ps) = chug p @ chug (concat ps)"
  proof (cases "ps = []")
    case True
    then show ?thesis using assms(1) by (simp add: line_wise_def)
  next
    case False
    then show ?thesis using line_wise_append [OF assms(1)] Cons.prems by simp
  qed
  note pieces = this
  have "\<forall>q \<in> set (butlast ps). whole_lines q" using Cons.prems by (auto split: if_splits)
  note rest = Cons.IH [OF this, unfolded WriteAll_def]
  show ?case
  proof (cases "list_all writable (chug p)")
    case True
    with pieces rest show ?thesis
      by (auto simp: WriteAll_def checked_def Write_relays list_all_iff takeWhile_eq_all_conv [THEN iffD2])
  next
    case False
    with pieces show ?thesis
      by (auto simp: WriteAll_def checked_def Write_relays list_all_iff takeWhile_append)
  qed
qed


text \<open>A reader of lines: lines of digits are lager lines of that level.\<close>

fun lines_from :: "string \<Rightarrow> string \<Rightarrow> string list" where
  "lines_from acc [] = (if acc = [] then [] else [rev acc])"
| "lines_from acc (c # s) = (if [c] = line_end then rev acc # lines_from [] s else lines_from (c # acc) s)"

definition sample_entry :: "string \<Rightarrow> Entry" where
  "sample_entry l = \<lparr>IsLager = (l \<noteq> []), Log = \<lparr>Timestamp = 5, LogLevel = (if l = ''1'' then 1 else 0), Message = l,
     Error = None, Data = Some []\<rparr>\<rparr>"

definition sample_chug :: "string \<Rightarrow> Entry list" where
  "sample_chug s = map sample_entry (lines_from [] s)"

lemma lines_from_append: "lines_from acc (a @ line_end @ b) = lines_from acc (a @ line_end) @ lines_from [] b"
  by (induction a arbitrary: acc) (simp_all add: line_end_def)

lemma sample_chug_line_wise: "line_wise sample_chug"
  by (simp add: line_wise_def sample_chug_def lines_from_append [unfolded append.assoc])


end
