(* ===== verification/Spec2Isabelle.thy ===== *)
theory Spec2Isabelle
  imports Tardis_Facts Unpacker_Facts Store_Facts Measure_Facts Protocol_Deletion Relogger
begin

text \<open>
  A verification development for grootfs, the root file system manager of Garden.

  \<^bold>\<open>The program.\<close> A \<^emph>\<open>store\<close> is a directory with \<^emph>\<open>volumes\<close>, one per layer of an image and named by its
  chain id, and \<^emph>\<open>images\<close>, overlay mounts of volumes with a writable directory on top. \<open>grootfs create\<close>
  fetches the description of a base image, unpacks the layers whose volumes are not there yet, mounts the
  image and registers its volumes as its dependencies; \<open>delete\<close> removes the mount and the record; \<open>clean\<close>
  renames the volumes that no image depends on to \<open>gc.\<close> names under an exclusive lock and destroys them
  after giving it back. Layers are unpacked and volumes destroyed in processes of the program itself with
  other ids and another root. A setuid helper, \<open>tardis\<close>, sets and reads project quotas.

  \<^bold>\<open>The model.\<close> A \<open>world\<close> (theory \<open>World\<close>) is the machine: a tree of nodes with owner, mode, project id and
  extended attributes, mounts, \<open>flock\<close> locks, quotas, the output of commands that are run, and a schedule
  of faults, so that any system call can fail in any of the ways the code distinguishes. An operation of the
  program is a function from worlds to a result and a world (\<open>'a sys\<close>); a result is an error or a value.
  A Go error is a value of \<open>goerr\<close>, with the causes it wraps; a run-time panic is an error that no handler
  but a deferred function sees. The combinators \<open>checked\<close> (\<open>if err != nil\<close>), \<open>logged\<close>, \<open>observed\<close> and
  \<open>deferred\<close> (\<open>defer\<close>) are what the code is written in; their rules for invariants (\<open>keeps\<close>, collection
  \<open>keeps_intro\<close>) and for two kinds of exit (\<open>hoare\<close>) carry the proofs. The unpacker works on a file system of
  its own (\<open>Inode_Tree\<close>) with inodes, hard links and resolution of symbolic links.

  \<^bold>\<open>Theories and sources\<close> (paths under \<open>src/\<close>).

  \<^item> \<open>Prelude\<close>, \<open>Go_Text\<close>, \<open>Go_URL\<close>, \<open>Json\<close>, \<open>World\<close>, \<open>World_Facts\<close>, \<open>Inode_Tree\<close>: errors, control flow, and
    what the sources use of \<open>strings\<close>, \<open>strconv\<close>, \<open>filepath\<close>, \<open>net/url\<close>, \<open>encoding/json\<close>, \<open>os\<close> and
    \<open>syscall\<close>.
  \<^item> \<open>Groot_Types\<close>: \<open>groot/groot.go\<close>, \<open>store/store.go\<close>. \<open>Config\<close>: \<open>commands/config\<close>.
  \<^item> \<open>Emitter\<close>: \<open>metrics\<close>. \<open>Relogger\<close>: \<open>relogger\<close>. \<open>Locksmith\<close>: \<open>store/locksmith\<close>. \<open>Dependency_Manager\<close>: \<open>store/dependency_manager\<close>. \<open>Namespacer\<close>:
    \<open>groot/store_namespacer.go\<close>. \<open>Id_Mapping\<close>: the id translator and mapper of the unpacker.
  \<^item> \<open>Mount\<close>, \<open>Overlay\<close>, \<open>Tardis\<close>, \<open>Sandbox\<close>: \<open>store/filesystems\<close> (unmounters, loop devices, the overlay
    driver, its namespaced form, quotas and \<open>tardis\<close>) and \<open>sandbox\<close>.
  \<^item> \<open>Image_Manager\<close>, \<open>Garbage_Collector\<close>, \<open>Measurer\<close>, \<open>Store_Manager\<close>: the packages of \<open>store\<close> of these
    names. \<open>Cleaner\<close> and \<open>Creator\<close>: the operations of package \<open>groot\<close>.
  \<^item> \<open>Puller\<close>: \<open>base_image_puller\<close>. \<open>Unpacker\<close>: its \<open>unpacker\<close>. \<open>Fetcher\<close>: \<open>fetcher\<close>.
  \<^item> \<open>Command_Line\<close> and \<open>Commands\<close>: \<open>main.go\<close> and \<open>commands\<close>; here the components are put together.
  \<^item> \<open>Protocol\<close>: \<open>Create\<close>, \<open>Delete\<close> and \<open>collectGarbage\<close> as processes that interleave at their calls on the
    store; one rule of \<open>create_step\<close>, \<open>delete_step\<close> or \<open>clean_step\<close> per call and way it ends.

  \<^bold>\<open>What is shown.\<close>

  \<^item> Volumes in use are safe: a clean, whatever fails in it, leaves alone what the images of the store need
    (\<open>Collection\<close> over \<open>Volume_Safety\<close>), and so does any interleaving of creations, deletions, cleans and
    crashes, for images worked on with one operation at a time (\<open>Protocol\<close>). Without that condition they
    can be lost; the run is given. The locks block no one for ever and a creation gives its locks back
    (\<open>Lock_Facts\<close>). The clean of the code is one of \<open>Protocol\<close>, whatever its calls return, and so
    is a deletion that succeeds (\<open>Protocol_Calls\<close>, \<open>Protocol_Deletion\<close>).
  \<^item> The store stays in order: the operations on volumes keep the invariant \<open>store_ok\<close> of its links and
    volumes, whichever call fails, and refine insertion and removal of names (\<open>Overlay_Facts\<close>,
    \<open>Volume_Operations\<close>); what is written is read back (\<open>Round_Trips\<close>); destroying in the sandbox is
    destroying outside it. A store that was initialised is found to be (\<open>Store_Facts\<close>).
  \<^item> Layers are what the manifest says: a blob that is returned has the digests and sizes of its layer and
    fits the quota (\<open>Fetcher_Facts\<close>, \<open>Command_Facts\<close>); the unpacker gives a file the content, owner and mode
    of its header, hides what a whiteout names and keeps the file system well-formed (\<open>Inode_Facts\<close>,
    \<open>Unpacker_Facts\<close>); whatever a stream names, nothing outside the layer's directory changes
    (\<open>Confinement\<close>).
  \<^item> Quotas, ids and sizes: fresh project ids, quotas read back, sums and limits in 64-bit arithmetic
    (\<open>Tardis_Facts\<close>, \<open>Size_Facts\<close>), the sum of the sizes on record and the type of every size
    (\<open>Measure_Facts\<close>), id translation (\<open>Id_Mapping\<close>), precedence of the configuration
    (\<open>Config\<close>).
  \<^item> Images: a creation that succeeds leaves the image, the volumes of its layers and their registration
    (\<open>Create_Facts\<close>); what is refused, and what a failed creation does to an
    image that is there (\<open>Image_Facts\<close>).
  \<^item> Logs of child processes: every lager line reaches the logger, in whatever pieces the output is read, as
    long as the pieces end with lines (\<open>Relogger\<close>).

  The interfaces are locales: \<open>lock_service\<close> (locks that are given back balance), interpreted by the
  locksmith; \<open>collectable\<close> (what a collector needs of its driver), interpreted by the overlay driver's
  volumes for two invariants (\<open>guarded\<close>, and \<open>clean_at\<close> of the protocol); \<open>quiet_puller\<close>
  (the operations of a puller leave the locks alone), interpreted by the puller of the commands.

  \<^bold>\<open>Bounds and fuel.\<close> Loops over data are structural. \<open>Alloc\<close> and \<open>untilSucceeds\<close>, the copy of a blob and
  the recursion over a base directory have no bound in the code: they take fuel and give \<open>None\<close> when it ends.
  \<open>Alloc_fresh\<close>, \<open>copy_blob_returns\<close> and \<open>ensureBaseDirectoryExists_returns\<close> say how much is enough (more than
  the ids in use, the measure of the blob, the length of the path); \<open>ensureBaseDirectoryExists_diverges\<close> that
  none is, for a relative directory. The search for a parent directory has the length of the name and the
  scheduled faults as fuel, and never exhausts it (\<open>ensureParentDir_stops\<close>). The retry loops have the bound of
  the code, 50. In \<open>outside\<close> the three bounds of a run are parameters. Sizes are \<open>int\<close> with the wrap-around of
  \<open>int64\<close> written out (\<open>i64\<close>), project ids \<open>32 word\<close>.

  \<^bold>\<open>Parameters.\<close> What is not in the repository is an argument, collected in the record \<open>outside\<close>: SHA-256, the
  decompressors and the tar reader, the registries and transports of the image library, the regular
  expressions other than the one used, the short ids, the authority part of URLs, the kernel's mount table and
  the initialisation of dropsonde; \<open>chug\<close>, the reader of lager lines, is an argument of the relay.

  \<^bold>\<open>Not modelled.\<close> Log output, apart from the relay of it in \<open>Relogger\<close>, which stands by itself: the output of a child
  process is not composed with its commands; the delivery of metrics, which are events of the world; parsing of flags by the command line library, whose
  result is the input of the commands; fakes, test helpers and integration runners. Time is a supply of
  numbers, so that time limits are outcomes chosen by the fault schedule. Processes of one store interleave in
  \<open>Protocol\<close> only; elsewhere an operation runs alone on the machine, with the faults of the schedule.
\<close>

end
